theory Spec2Isabelle
  imports Complex_Main
begin

section \<open>Catmull-Clark subdivision tables: the compute kernels\<close>

text \<open>
  A shallow embedding of \<^verbatim>\<open>opensubdiv/far/catmarkSubdivisionTables.h\<close> and of the
  constructor of \<^verbatim>\<open>OsdGLSLTransformFeedbackComputeContext\<close>.

  Numeric conventions. A C++ \<^verbatim>\<open>int\<close> is an \<open>int\<close>; an \<^verbatim>\<open>unsigned int\<close> table entry is a
  \<open>nat\<close>. Every subscript is checked against the length of the array it reads, and a
  subscript that leaves its array is the error \<open>OutOfBounds\<close>. The arrays are subscripted
  by \<^verbatim>\<open>int\<close>, so they are taken to hold fewer than \<open>2^31\<close> elements, and the bounds of a
  kernel's range to fit an \<^verbatim>\<open>int\<close>: a subscript expression that stays inside its array
  has then not overflowed, and subscripts are computed in unbounded integers. The one
  integer product whose value is not a subscript, \<^verbatim>\<open>n*n\<close> in kernel B, is checked against
  the 32-bit range, and leaving it is the error \<open>SignedOverflow\<close> (undefined behaviour in
  C++). A \<^verbatim>\<open>float\<close> is a \<open>real\<close>, and a division by zero (undefined behaviour in C++ as
  well) is the error \<open>DivisionByZero\<close>. In kernel A the result of a \<^verbatim>\<open>float\<close> subtraction
  decides a branch (line 177), so every \<^verbatim>\<open>float\<close> operation of that kernel is followed by
  \<open>to_float\<close>, the rounding to the nearest binary32 number. In the other three kernels no
  branch reads a computed \<^verbatim>\<open>float\<close>; their arithmetic is that of the reals, and rounding is
  not modelled there. The entries of the weight tables are numbers: no infinity and no
  NaN.
\<close>

subsection \<open>Errors and sequencing\<close>

datatype error = OutOfBounds | DivisionByZero | SignedOverflow

definition bnd :: "error + 'a \<Rightarrow> ('a \<Rightarrow> error + 'b) \<Rightarrow> error + 'b" where
  "bnd m f = (case m of Inl e \<Rightarrow> Inl e | Inr x \<Rightarrow> f x)"

text \<open>A subscript \<^verbatim>\<open>t[k]\<close> with an \<^verbatim>\<open>int\<close> index.\<close>

definition tbl_get :: "'b list \<Rightarrow> int \<Rightarrow> error + 'b" where
  "tbl_get t k = (if 0 \<le> k \<and> k < int (length t) then Inr (t ! nat k) else Inl OutOfBounds)"

text \<open>Floating-point division \<^verbatim>\<open>a / b\<close>.\<close>

definition fdiv :: "real \<Rightarrow> real \<Rightarrow> error + real" where
  "fdiv a b = (if b = 0 then Inl DivisionByZero else Inr (a / b))"

text \<open>A product of two \<^verbatim>\<open>int\<close>s, which has to fit 32 bits.\<close>

definition imul :: "int \<Rightarrow> int \<Rightarrow> error + int" where
  "imul a b = (if - 2147483648 \<le> a * b \<and> a * b \<le> 2147483647 then Inr (a * b)
               else Inl SignedOverflow)"

subsection \<open>Rounding to \<^verbatim>\<open>float\<close>\<close>

text \<open>The number of binary digits of a positive integer.\<close>

function digits2 :: "int \<Rightarrow> nat" where
  "digits2 n = (if n \<le> 0 then 0 else Suc (digits2 (n div 2)))"
  by pat_completeness auto
termination
  by (relation "measure nat") auto

text \<open>The nearest integer, the even one of the two when both are as near.\<close>

definition round_even :: "real \<Rightarrow> int" where
  "round_even x =
     (let f = \<lfloor>x\<rfloor> in
      if x - of_int f < 1 / 2 then f
      else if 1 / 2 < x - of_int f then f + 1
      else if even f then f else f + 1)"

text \<open>
  The binary32 number nearest to \<open>x\<close>, ties to even (the default rounding of IEEE 754):
  24 digits of significand and a least exponent of \<open>-126\<close>, so that every number of the format
  is a multiple of \<open>2^-149\<close>. With \<open>a\<close> the magnitude of \<open>x\<close> in that unit, the numbers of
  the format near \<open>x\<close> are \<open>2^k\<close> units apart, where \<open>k\<close> is the number of digits of the
  integer part of \<open>a\<close> beyond 24 (none for the subnormal numbers and the least normal ones).
  The exponent is not bounded from above: the subtractions and products of kernel A do not
  overflow on table entries that are themselves binary32 numbers.
\<close>

definition to_float :: "real \<Rightarrow> real" where
  "to_float x =
     (let a = \<bar>x\<bar> * 2 ^ 149;
          k = digits2 \<lfloor>a\<rfloor> - 24;
          m = round_even (a / 2 ^ k)
      in sgn x * (of_int m * 2 ^ k / 2 ^ 149))"

subsection \<open>The vertex record\<close>

text \<open>
  Modelled from the spec: the vertex class \<^verbatim>\<open>U\<close> is a template parameter of the kernels
  and no instance of it is in the sources. The spec (section 2 and section 6) asks of it
  a reset to zero, a weighted accumulation of a primary attribute, and a weighted
  accumulation of a secondary (varying) attribute that is interpolated independently.
  The attribute type is any real vector space.
\<close>

record 'a Vertex =
  primary :: 'a
  varying :: 'a

definition Clear :: "('a::real_vector) Vertex \<Rightarrow> 'a Vertex" where
  "Clear v = v\<lparr>primary := 0, varying := 0\<rparr>"

definition AddWithWeight :: "('a::real_vector) Vertex \<Rightarrow> 'a Vertex \<Rightarrow> real \<Rightarrow> 'a Vertex" where
  "AddWithWeight dst src weight = dst\<lparr>primary := primary dst + weight *\<^sub>R primary src\<rparr>"

definition AddVaryingWithWeight :: "('a::real_vector) Vertex \<Rightarrow> 'a Vertex \<Rightarrow> real \<Rightarrow> 'a Vertex" where
  "AddVaryingWithWeight dst src weight = dst\<lparr>varying := varying dst + weight *\<^sub>R varying src\<rparr>"

subsection \<open>The tables and the vertex buffer\<close>

text \<open>
  The seven tables are members of the base class \<^verbatim>\<open>FarSubdivisionTables\<close>, whose header is
  not in the sources; their element types are read off the texture formats the compute
  context gives them (\<^verbatim>\<open>GL_R32I\<close>, \<^verbatim>\<open>GL_R32UI\<close>, \<^verbatim>\<open>GL_R32F\<close>).
\<close>

record tables =
  F_ITa :: "int list"
  F_IT :: "nat list"
  E_IT :: "int list"
  E_W :: "real list"
  V_ITa :: "int list"
  V_IT :: "nat list"
  V_W :: "real list"

text \<open>
  The state a kernel runs in: the object \<^verbatim>\<open>this\<close> (the tables) and the array \<^verbatim>\<open>vsrc\<close>
  points to. A pointer into the array (\<^verbatim>\<open>vdst\<close>) is its index.
\<close>

record 'a machine =
  tabs :: tables
  vbuf :: "'a Vertex list"

text \<open>\<^verbatim>\<open>vdst->Clear()\<close>\<close>

definition Clear_at :: "int \<Rightarrow> ('a::real_vector) machine \<Rightarrow> error + 'a machine" where
  "Clear_at vdst s =
     bnd (tbl_get (vbuf s) vdst) (\<lambda>d.
     Inr (s\<lparr>vbuf := (vbuf s)[nat vdst := Clear d]\<rparr>))"

text \<open>\<^verbatim>\<open>vdst->AddWithWeight( vsrc[k], weight )\<close>\<close>

definition AddWithWeight_at :: "int \<Rightarrow> int \<Rightarrow> real \<Rightarrow> ('a::real_vector) machine \<Rightarrow> error + 'a machine" where
  "AddWithWeight_at vdst k weight s =
     bnd (tbl_get (vbuf s) k) (\<lambda>src.
     bnd (tbl_get (vbuf s) vdst) (\<lambda>d.
     Inr (s\<lparr>vbuf := (vbuf s)[nat vdst := AddWithWeight d src weight]\<rparr>)))"

text \<open>\<^verbatim>\<open>vdst->AddVaryingWithWeight( vsrc[k], weight )\<close>\<close>

definition AddVaryingWithWeight_at :: "int \<Rightarrow> int \<Rightarrow> real \<Rightarrow> ('a::real_vector) machine \<Rightarrow> error + 'a machine" where
  "AddVaryingWithWeight_at vdst k weight s =
     bnd (tbl_get (vbuf s) k) (\<lambda>src.
     bnd (tbl_get (vbuf s) vdst) (\<lambda>d.
     Inr (s\<lparr>vbuf := (vbuf s)[nat vdst := AddVaryingWithWeight d src weight]\<rparr>)))"

subsection \<open>The loops\<close>

text \<open>
  \<^verbatim>\<open>for (int j=0; j<n; ++j) body\<close>: the inner loops of the face kernel and of kernel B.
\<close>

function forLoop :: "(int \<Rightarrow> 's \<Rightarrow> error + 's) \<Rightarrow> int \<Rightarrow> int \<Rightarrow> 's \<Rightarrow> error + 's" where
  "forLoop body j n s =
     (if j < n then
        (case body j s of Inl e \<Rightarrow> Inl e | Inr s' \<Rightarrow> forLoop body (j + 1) n s')
      else Inr s)"
  by pat_completeness auto
termination
  by (relation "measure (\<lambda>(body, j, n, s). nat (n - j))") auto

text \<open>
  \<^verbatim>\<open>for (int i=start+tableOffset; i<end+tableOffset; ++i, ++vdst ) body\<close>: the loop of
  every kernel, over the table row \<open>i\<close> and the destination \<open>vdst\<close>.
\<close>

function kernelLoop :: "(int \<Rightarrow> int \<Rightarrow> 's \<Rightarrow> error + 's) \<Rightarrow> int \<Rightarrow> int \<Rightarrow> int \<Rightarrow> 's \<Rightarrow> error + 's" where
  "kernelLoop body i e vdst s =
     (if i < e then
        (case body vdst i s of Inl err \<Rightarrow> Inl err | Inr s' \<Rightarrow> kernelLoop body (i + 1) e (vdst + 1) s')
      else Inr s)"
  by pat_completeness auto
termination
  by (relation "measure (\<lambda>(body, i, e, vdst, s). nat (e - i))") auto

subsection \<open>Face-vertices kernel\<close>

text \<open>Lines 109 and 110: one turn of the loop over the corners of the face.\<close>

definition facePointStep :: "int \<Rightarrow> int \<Rightarrow> real \<Rightarrow> int \<Rightarrow> ('a::real_vector) machine \<Rightarrow> error + 'a machine" where
  "facePointStep vdst h weight j s =
     bnd (tbl_get (F_IT (tabs s)) (h + j)) (\<lambda>k.
     bnd (AddWithWeight_at vdst (int k) weight s) (\<lambda>s1.
     bnd (tbl_get (F_IT (tabs s1)) (h + j)) (\<lambda>k'.
     AddVaryingWithWeight_at vdst (int k') weight s1)))"

text \<open>Lines 102 to 111: the body of the kernel's loop, for table row \<open>i\<close>.\<close>

definition facePoint :: "int \<Rightarrow> int \<Rightarrow> ('a::real_vector) machine \<Rightarrow> error + 'a machine" where
  "facePoint vdst i s =
     bnd (Clear_at vdst s) (\<lambda>s0.
     bnd (tbl_get (F_ITa (tabs s0)) (2 * i)) (\<lambda>h.
     bnd (tbl_get (F_ITa (tabs s0)) (2 * i + 1)) (\<lambda>n.
     bnd (fdiv 1 (real_of_int n)) (\<lambda>weight.
     forLoop (facePointStep vdst h weight) 0 n s0))))"

definition computeFacePoints :: "int \<Rightarrow> int \<Rightarrow> int \<Rightarrow> int \<Rightarrow> ('a::real_vector) machine \<Rightarrow> error + 'a machine" where
  "computeFacePoints offset tableOffset start en s =
     kernelLoop facePoint (start + tableOffset) (en + tableOffset) (offset + start) s"

subsection \<open>Edge-vertices kernel\<close>

text \<open>Lines 126 to 148: the body of the kernel's loop, for table row \<open>i\<close>.\<close>

definition edgePoint :: "int \<Rightarrow> int \<Rightarrow> ('a::real_vector) machine \<Rightarrow> error + 'a machine" where
  "edgePoint vdst i s =
     bnd (Clear_at vdst s) (\<lambda>s0.
     bnd (tbl_get (E_IT (tabs s0)) (4 * i + 0)) (\<lambda>eidx0.
     bnd (tbl_get (E_IT (tabs s0)) (4 * i + 1)) (\<lambda>eidx1.
     bnd (tbl_get (E_IT (tabs s0)) (4 * i + 2)) (\<lambda>eidx2.
     bnd (tbl_get (E_IT (tabs s0)) (4 * i + 3)) (\<lambda>eidx3.
     bnd (tbl_get (E_W (tabs s0)) (i * 2 + 0)) (\<lambda>vertWeight.
     bnd (AddWithWeight_at vdst eidx0 vertWeight s0) (\<lambda>s1.
     bnd (AddWithWeight_at vdst eidx1 vertWeight s1) (\<lambda>s2.
     bnd (if eidx2 \<noteq> - 1 then
            bnd (tbl_get (E_W (tabs s2)) (i * 2 + 1)) (\<lambda>faceWeight.
            bnd (AddWithWeight_at vdst eidx2 faceWeight s2) (\<lambda>s3.
            AddWithWeight_at vdst eidx3 faceWeight s3))
          else Inr s2) (\<lambda>s4.
     bnd (AddVaryingWithWeight_at vdst eidx0 (1 / 2) s4) (\<lambda>s5.
     AddVaryingWithWeight_at vdst eidx1 (1 / 2) s5))))))))))"

definition computeEdgePoints :: "int \<Rightarrow> int \<Rightarrow> int \<Rightarrow> int \<Rightarrow> ('a::real_vector) machine \<Rightarrow> error + 'a machine" where
  "computeEdgePoints offset tableOffset start en s =
     kernelLoop edgePoint (start + tableOffset) (en + tableOffset) (offset + start) s"

subsection \<open>Vertex-vertices kernel A\<close>

text \<open>
  Lines 164 to 191: the body of the kernel's loop, for table row \<open>i\<close>. The weights are
  \<^verbatim>\<open>float\<close>s: \<^verbatim>\<open>1.0f - x\<close> is \<open>to_float (1 - x)\<close> and \<^verbatim>\<open>weight * 0.75f\<close> is
  \<open>to_float (weight * 0.75)\<close>; the constants 0.75 and 0.125 are binary32 numbers.
\<close>

definition vertexPointA :: "bool \<Rightarrow> int \<Rightarrow> int \<Rightarrow> ('a::real_vector) machine \<Rightarrow> error + 'a machine" where
  "vertexPointA pass vdst i s =
     bnd (if \<not> pass then Clear_at vdst s else Inr s) (\<lambda>s0.
     bnd (tbl_get (V_ITa (tabs s0)) (5 * i + 1)) (\<lambda>n.
     bnd (tbl_get (V_ITa (tabs s0)) (5 * i + 2)) (\<lambda>p.
     bnd (tbl_get (V_ITa (tabs s0)) (5 * i + 3)) (\<lambda>eidx0.
     bnd (tbl_get (V_ITa (tabs s0)) (5 * i + 4)) (\<lambda>eidx1.
     bnd (tbl_get (V_W (tabs s0)) i) (\<lambda>w.
     let weight0 = (if pass then w else to_float (1 - w));
         weight = (if weight0 > 0 \<and> weight0 < 1 \<and> n > 0 then to_float (1 - weight0) else weight0)
     in
     bnd (if eidx0 = - 1 \<or> (pass = False \<and> n = - 1) then
            AddWithWeight_at vdst p weight s0
          else
            bnd (AddWithWeight_at vdst p (to_float (weight * 0.75)) s0) (\<lambda>s1.
            bnd (AddWithWeight_at vdst eidx0 (to_float (weight * 0.125)) s1) (\<lambda>s2.
            AddWithWeight_at vdst eidx1 (to_float (weight * 0.125)) s2))) (\<lambda>s3.
     AddVaryingWithWeight_at vdst p 1 s3)))))))"

definition computeVertexPointsA :: "int \<Rightarrow> bool \<Rightarrow> int \<Rightarrow> int \<Rightarrow> int \<Rightarrow> ('a::real_vector) machine \<Rightarrow> error + 'a machine" where
  "computeVertexPointsA offset pass tableOffset start en s =
     kernelLoop (vertexPointA pass) (start + tableOffset) (en + tableOffset) (offset + start) s"

subsection \<open>Vertex-vertices kernel B\<close>

text \<open>Lines 216 and 217: one turn of the loop over the neighbours.\<close>

definition vertexPointBStep :: "int \<Rightarrow> int \<Rightarrow> real \<Rightarrow> real \<Rightarrow> int \<Rightarrow> ('a::real_vector) machine \<Rightarrow> error + 'a machine" where
  "vertexPointBStep vdst h weight wp j s =
     bnd (tbl_get (V_IT (tabs s)) (h + j * 2)) (\<lambda>k0.
     bnd (AddWithWeight_at vdst (int k0) (weight * wp) s) (\<lambda>s1.
     bnd (tbl_get (V_IT (tabs s1)) (h + j * 2 + 1)) (\<lambda>k1.
     AddWithWeight_at vdst (int k1) (weight * wp) s1)))"

text \<open>Lines 203 to 219: the body of the kernel's loop, for table row \<open>i\<close>.\<close>

definition vertexPointB :: "int \<Rightarrow> int \<Rightarrow> ('a::real_vector) machine \<Rightarrow> error + 'a machine" where
  "vertexPointB vdst i s =
     bnd (Clear_at vdst s) (\<lambda>s0.
     bnd (tbl_get (V_ITa (tabs s0)) (5 * i)) (\<lambda>h.
     bnd (tbl_get (V_ITa (tabs s0)) (5 * i + 1)) (\<lambda>n.
     bnd (tbl_get (V_ITa (tabs s0)) (5 * i + 2)) (\<lambda>p.
     bnd (tbl_get (V_W (tabs s0)) i) (\<lambda>weight.
     bnd (imul n n) (\<lambda>nn.
     bnd (fdiv 1 (real_of_int nn)) (\<lambda>wp.
     let wv = (real_of_int n - 2) * real_of_int n * wp in
     bnd (AddWithWeight_at vdst p (weight * wv) s0) (\<lambda>s1.
     bnd (forLoop (vertexPointBStep vdst h weight wp) 0 n s1) (\<lambda>s2.
     AddVaryingWithWeight_at vdst p 1 s2)))))))))"

definition computeVertexPointsB :: "int \<Rightarrow> int \<Rightarrow> int \<Rightarrow> int \<Rightarrow> ('a::real_vector) machine \<Rightarrow> error + 'a machine" where
  "computeVertexPointsB offset tableOffset start en s =
     kernelLoop vertexPointB (start + tableOffset) (en + tableOffset) (offset + start) s"

subsection \<open>The transform-feedback compute context\<close>

text \<open>
  The base class \<^verbatim>\<open>FarSubdivisionTables\<close>, its enumerations \<^verbatim>\<open>Scheme\<close> and \<^verbatim>\<open>TableType\<close> and
  the class \<^verbatim>\<open>OsdGLSLTransformFeedbackTable\<close> are declared in headers that are not in the
  sources. The enumerators the two source files name are kept (those of \<^verbatim>\<open>TableType\<close> with
  the prefix \<open>T_\<close>, since the tables themselves have these names); the numbers behind the
  \<^verbatim>\<open>TableType\<close> enumerators are a parameter \<open>ix\<close> of the constructor.
\<close>

datatype Scheme = UNDEFINED | BILINEAR | CATMARK | LOOP

datatype TableType = T_E_IT | T_E_W | T_V_ITa | T_V_IT | T_V_W | T_F_IT | T_F_ITa

datatype GLenum = GL_R32I | GL_R32UI | GL_R32F

text \<open>
  An object behind a \<^verbatim>\<open>FarSubdivisionTables const *\<close>: the class of this repository, or a
  subclass that is not in the sources, given by what its two virtual functions return.
\<close>

datatype FarSubdivisionTables =
    FarCatmarkSubdivisionTables tables
  | FarOtherSubdivisionTables int Scheme tables

fun GetNumTables :: "FarSubdivisionTables \<Rightarrow> int" where
  "GetNumTables (FarCatmarkSubdivisionTables T) = 7"
| "GetNumTables (FarOtherSubdivisionTables k sc T) = k"

fun GetScheme :: "FarSubdivisionTables \<Rightarrow> Scheme" where
  "GetScheme (FarCatmarkSubdivisionTables T) = CATMARK"
| "GetScheme (FarOtherSubdivisionTables k sc T) = sc"

text \<open>
  \<^verbatim>\<open>new OsdGLSLTransformFeedbackTable(subdivisionTables->Get_X(), type)\<close>: the texture buffer
  made from table \<open>X\<close> with the given format.
\<close>

datatype OsdGLSLTransformFeedbackTable = NewTable TableType GLenum

record 'b OsdGLSLTransformFeedbackComputeContext =
  tables' :: "OsdGLSLTransformFeedbackTable option list"
  editTables :: "'b list"
  vertexTexture :: nat
  varyingTexture :: nat

text \<open>\<^verbatim>\<open>_tables[k] = p\<close>\<close>

definition set_table :: "nat \<Rightarrow> OsdGLSLTransformFeedbackTable option \<Rightarrow>
    'b OsdGLSLTransformFeedbackComputeContext \<Rightarrow> error + 'b OsdGLSLTransformFeedbackComputeContext" where
  "set_table k p c =
     (if k < length (tables' c) then Inr (c\<lparr>tables' := (tables' c)[k := p]\<rparr>) else Inl OutOfBounds)"

text \<open>
  Lines 129 to 162: the constructor. \<open>vertexEditTables\<close> is \<open>None\<close> for a null pointer
  and the list of its batches otherwise.
\<close>

definition newContext :: "(TableType \<Rightarrow> nat) \<Rightarrow> FarSubdivisionTables \<Rightarrow> 'b list option \<Rightarrow>
    error + 'b OsdGLSLTransformFeedbackComputeContext" where
  "newContext ix subdivisionTables vertexEditTables =
     bnd (Inr \<lparr>tables' = replicate 7 None, editTables = [], vertexTexture = 0, varyingTexture = 0\<rparr>) (\<lambda>c0.
     bnd (set_table (ix T_E_IT) (Some (NewTable T_E_IT GL_R32I)) c0) (\<lambda>c1.
     bnd (set_table (ix T_V_IT) (Some (NewTable T_V_IT GL_R32UI)) c1) (\<lambda>c2.
     bnd (set_table (ix T_V_ITa) (Some (NewTable T_V_ITa GL_R32I)) c2) (\<lambda>c3.
     bnd (set_table (ix T_E_W) (Some (NewTable T_E_W GL_R32F)) c3) (\<lambda>c4.
     bnd (set_table (ix T_V_W) (Some (NewTable T_V_W GL_R32F)) c4) (\<lambda>c5.
     bnd (if GetNumTables subdivisionTables > 5 then
            bnd (set_table (ix T_F_IT) (Some (NewTable T_F_IT GL_R32UI)) c5) (\<lambda>c6.
            set_table (ix T_F_ITa) (Some (NewTable T_F_ITa GL_R32I)) c6)
          else
            bnd (set_table (ix T_F_IT) None c5) (\<lambda>c6.
            set_table (ix T_F_ITa) None c6)) (\<lambda>c7.
     Inr (case vertexEditTables of None \<Rightarrow> c7
          | Some batches \<Rightarrow> c7\<lparr>editTables := editTables c7 @ batches\<rparr>))))))))"

section \<open>Predicates used in the statements\<close>

text \<open>
  \<open>frame d s s'\<close>: from \<open>s\<close> to \<open>s'\<close> the tables, the length of the buffer and every
  record but the one at \<open>d\<close> stay as they are. \<open>agrees lo hi s t\<close>: the same, for every
  record outside the range from \<open>lo\<close> up to \<open>hi\<close>.
\<close>

definition frame :: "int \<Rightarrow> 'a machine \<Rightarrow> 'a machine \<Rightarrow> bool" where
  "frame d s s' \<longleftrightarrow> tabs s' = tabs s \<and> length (vbuf s') = length (vbuf s) \<and>
     (\<forall>m. int m \<noteq> d \<longrightarrow> vbuf s' ! m = vbuf s ! m)"

definition step_frames :: "int \<Rightarrow> (int \<Rightarrow> 'a machine \<Rightarrow> error + 'a machine) \<Rightarrow> bool" where
  "step_frames d body \<longleftrightarrow> (\<forall>j t t'. body j t = Inr t' \<longrightarrow> frame d t t')"

definition body_frames :: "(int \<Rightarrow> int \<Rightarrow> 'a machine \<Rightarrow> error + 'a machine) \<Rightarrow> bool" where
  "body_frames body \<longleftrightarrow>
     (\<forall>d i t t'. body d i t = Inr t' \<longrightarrow> 0 \<le> d \<and> d < int (length (vbuf t)) \<and> frame d t t')"

definition agrees :: "int \<Rightarrow> int \<Rightarrow> 'a machine \<Rightarrow> 'a machine \<Rightarrow> bool" where
  "agrees lo hi s t \<longleftrightarrow> tabs t = tabs s \<and> length (vbuf t) = length (vbuf s) \<and>
     (\<forall>m. \<not> (lo \<le> int m \<and> int m < hi) \<longrightarrow> vbuf t ! m = vbuf s ! m)"

text \<open>
  A well-formed row \<open>i\<close> of the face table of \<open>s\<close>, for a kernel that writes the
  records from \<open>lo\<close> up to \<open>hi\<close>: the row and its corners exist, the valence is
  positive, and the corners are records of the buffer outside the destination range.
\<close>

definition faceRowOk :: "'a machine \<Rightarrow> int \<Rightarrow> int \<Rightarrow> int \<Rightarrow> bool" where
  "faceRowOk s lo hi i \<longleftrightarrow>
     0 \<le> i \<and> 2 * i + 1 < int (length (F_ITa (tabs s))) \<and>
     (let h = F_ITa (tabs s) ! nat (2 * i); n = F_ITa (tabs s) ! nat (2 * i + 1) in
        1 \<le> n \<and> 0 \<le> h \<and> h + n \<le> int (length (F_IT (tabs s))) \<and>
        (\<forall>j. 0 \<le> j \<and> j < n \<longrightarrow>
           int (F_IT (tabs s) ! nat (h + j)) < int (length (vbuf s)) \<and>
           \<not> (lo \<le> int (F_IT (tabs s) ! nat (h + j)) \<and> int (F_IT (tabs s) ! nat (h + j)) < hi)))"

text \<open>One quadrilateral: four corners, and the record of its face-point after them.\<close>

definition quadTables :: tables where
  "quadTables = \<lparr>F_ITa = [0, 4], F_IT = [0, 1, 2, 3], E_IT = [], E_W = [],
                  V_ITa = [], V_IT = [], V_W = []\<rparr>"

definition quadMachine :: "real machine" where
  "quadMachine = \<lparr>tabs = quadTables,
     vbuf = [\<lparr>primary = 1, varying = 10\<rparr>, \<lparr>primary = 2, varying = 20\<rparr>,
             \<lparr>primary = 3, varying = 30\<rparr>, \<lparr>primary = 6, varying = 40\<rparr>,
             \<lparr>primary = 99, varying = 99\<rparr>]\<rparr>"

text \<open>
  A source index \<open>k\<close> for a kernel that writes the records from \<open>lo\<close> up to \<open>hi\<close>:
  a record of the buffer outside the destination range.
\<close>

definition srcOk :: "'a machine \<Rightarrow> int \<Rightarrow> int \<Rightarrow> int \<Rightarrow> bool" where
  "srcOk s lo hi k \<longleftrightarrow> 0 \<le> k \<and> k < int (length (vbuf s)) \<and> \<not> (lo \<le> k \<and> k < hi)"

text \<open>
  A well-formed row \<open>i\<close> of the edge table: its four indices and its vertex weight
  exist and the two endpoints are source indices; when \<open>e2\<close> is not \<open>-1\<close>, the face
  weight exists and \<open>e2\<close> and \<open>e3\<close> are source indices as well. Nothing is asked of
  \<open>e3\<close> and of the face weight of a row whose \<open>e2\<close> is \<open>-1\<close>.
\<close>

definition edgeRowOk :: "'a machine \<Rightarrow> int \<Rightarrow> int \<Rightarrow> int \<Rightarrow> bool" where
  "edgeRowOk s lo hi i \<longleftrightarrow>
     0 \<le> i \<and> 4 * i + 3 < int (length (E_IT (tabs s))) \<and> i * 2 < int (length (E_W (tabs s))) \<and>
     srcOk s lo hi (E_IT (tabs s) ! nat (4 * i + 0)) \<and>
     srcOk s lo hi (E_IT (tabs s) ! nat (4 * i + 1)) \<and>
     (E_IT (tabs s) ! nat (4 * i + 2) \<noteq> - 1 \<longrightarrow>
        i * 2 + 1 < int (length (E_W (tabs s))) \<and>
        srcOk s lo hi (E_IT (tabs s) ! nat (4 * i + 2)) \<and>
        srcOk s lo hi (E_IT (tabs s) ! nat (4 * i + 3)))"

text \<open>A result that, when it is an error, is \<open>OutOfBounds\<close>.\<close>

definition only_oob :: "error + 'a \<Rightarrow> bool" where
  "only_oob m \<longleftrightarrow> (\<forall>e. m = Inl e \<longrightarrow> e = OutOfBounds)"

text \<open>
  Two edges between the records 0 and 1: an interior one with the opposite vertices 2
  and 3, and a boundary one, whose fourth index is no record and which has no face
  weight. \<open>shortEdgeMachine\<close> has one boundary edge with three indices only.
\<close>

definition edgeTables :: tables where
  "edgeTables = \<lparr>F_ITa = [], F_IT = [], E_IT = [0, 1, 2, 3, 0, 1, - 1, 1000],
                  E_W = [1 / 4, 1 / 4, 1 / 2], V_ITa = [], V_IT = [], V_W = []\<rparr>"

definition edgeMachine :: "real machine" where
  "edgeMachine = \<lparr>tabs = edgeTables,
     vbuf = [\<lparr>primary = 1, varying = 10\<rparr>, \<lparr>primary = 3, varying = 30\<rparr>,
             \<lparr>primary = 5, varying = 50\<rparr>, \<lparr>primary = 7, varying = 70\<rparr>,
             \<lparr>primary = 99, varying = 99\<rparr>, \<lparr>primary = 99, varying = 99\<rparr>]\<rparr>"

definition shortEdgeMachine :: "real machine" where
  "shortEdgeMachine = \<lparr>tabs = edgeTables\<lparr>E_IT := [0, 1, - 1], E_W := [1 / 2]\<rparr>,
     vbuf = [\<lparr>primary = 1, varying = 10\<rparr>, \<lparr>primary = 3, varying = 30\<rparr>,
             \<lparr>primary = 99, varying = 99\<rparr>]\<rparr>"

text \<open>
  A well-formed row \<open>i\<close> of the vertex table for kernel A: its five entries and its
  weight exist and the parent is a source index; the two crease indices are source
  indices when the crease rule applies. Nothing is asked of them under the corner rule.
\<close>

definition vertexARowOk :: "bool \<Rightarrow> 'a machine \<Rightarrow> int \<Rightarrow> int \<Rightarrow> int \<Rightarrow> bool" where
  "vertexARowOk pass s lo hi i \<longleftrightarrow>
     0 \<le> i \<and> 5 * i + 4 < int (length (V_ITa (tabs s))) \<and> i < int (length (V_W (tabs s))) \<and>
     srcOk s lo hi (V_ITa (tabs s) ! nat (5 * i + 2)) \<and>
     (\<not> (V_ITa (tabs s) ! nat (5 * i + 3) = - 1 \<or> (pass = False \<and> V_ITa (tabs s) ! nat (5 * i + 1) = - 1)) \<longrightarrow>
        srcOk s lo hi (V_ITa (tabs s) ! nat (5 * i + 3)) \<and>
        srcOk s lo hi (V_ITa (tabs s) ! nat (5 * i + 4)))"

text \<open>
  The effective weight of kernel A as claim C1 words it with the test of the spec,
  section 4.3: inverted when it is fractional and the valence is not \<open>-1\<close>.
\<close>

definition spec_weightA :: "bool \<Rightarrow> real \<Rightarrow> int \<Rightarrow> real" where
  "spec_weightA pass sw n =
     (let w = (if pass then sw else to_float (1 - sw))
      in if 0 < w \<and> w < 1 \<and> n \<noteq> - 1 then to_float (1 - w) else w)"

text \<open>
  One vertex-point under the crease rule (valence 4, sharpness one quarter, parent 0,
  crease vertices 1 and 2), and one under the corner rule with valence 0.
\<close>

definition creaseTables :: tables where
  "creaseTables = \<lparr>F_ITa = [], F_IT = [], E_IT = [], E_W = [],
                    V_ITa = [0, 4, 0, 1, 2], V_IT = [], V_W = [1 / 4]\<rparr>"

definition creaseMachine :: "real machine" where
  "creaseMachine = \<lparr>tabs = creaseTables,
     vbuf = [\<lparr>primary = 8, varying = 80\<rparr>, \<lparr>primary = 16, varying = 160\<rparr>,
             \<lparr>primary = 32, varying = 320\<rparr>, \<lparr>primary = 99, varying = 99\<rparr>]\<rparr>"

definition cornerTables :: tables where
  "cornerTables = \<lparr>F_ITa = [], F_IT = [], E_IT = [], E_W = [],
                    V_ITa = [0, 0, 0, - 1, - 1], V_IT = [], V_W = [1 / 4]\<rparr>"

definition cornerMachine :: "real machine" where
  "cornerMachine = \<lparr>tabs = cornerTables,
     vbuf = [\<lparr>primary = 1, varying = 1\<rparr>, \<lparr>primary = 99, varying = 99\<rparr>]\<rparr>"

text \<open>
  The crease vertex-point again, with the sharpness \<open>2^-26\<close>: a binary32 number so small
  that \<^verbatim>\<open>1.0f - s\<close> is \<^verbatim>\<open>1.0f\<close>.
\<close>

definition faintCreaseMachine :: "real machine" where
  "faintCreaseMachine = creaseMachine\<lparr>tabs := creaseTables\<lparr>V_W := [1 / 67108864]\<rparr>\<rparr>"

text \<open>
  A well-formed row \<open>i\<close> of the vertex table for kernel B: the first three entries of
  the row and the weight exist, the valence \<open>n\<close> is at least 1 and its square fits an
  \<^verbatim>\<open>int\<close>, the \<open>2 * n\<close> neighbour indices exist, and the parent and the neighbours are
  source indices. Nothing is asked of the two crease entries of the row.
\<close>

definition vertexBRowOk :: "'a machine \<Rightarrow> int \<Rightarrow> int \<Rightarrow> int \<Rightarrow> bool" where
  "vertexBRowOk s lo hi i \<longleftrightarrow>
     0 \<le> i \<and> 5 * i + 2 < int (length (V_ITa (tabs s))) \<and> i < int (length (V_W (tabs s))) \<and>
     (let h = V_ITa (tabs s) ! nat (5 * i); n = V_ITa (tabs s) ! nat (5 * i + 1);
          p = V_ITa (tabs s) ! nat (5 * i + 2)
      in 1 \<le> n \<and> n * n \<le> 2147483647 \<and> 0 \<le> h \<and> h + 2 * n \<le> int (length (V_IT (tabs s))) \<and>
         srcOk s lo hi p \<and>
         (\<forall>k. 0 \<le> k \<and> k < 2 * n \<longrightarrow> srcOk s lo hi (int (V_IT (tabs s) ! nat (h + k)))))"

text \<open>
  The precondition of kernel B as claim C9 words it: a valence of at least 1 and a valid
  neighbour offset, with every index in bounds; no bound on the valence from above.
\<close>

definition vertexBRowOk_claimed :: "'a machine \<Rightarrow> int \<Rightarrow> int \<Rightarrow> int \<Rightarrow> bool" where
  "vertexBRowOk_claimed s lo hi i \<longleftrightarrow>
     0 \<le> i \<and> 5 * i + 2 < int (length (V_ITa (tabs s))) \<and> i < int (length (V_W (tabs s))) \<and>
     (let h = V_ITa (tabs s) ! nat (5 * i); n = V_ITa (tabs s) ! nat (5 * i + 1);
          p = V_ITa (tabs s) ! nat (5 * i + 2)
      in 1 \<le> n \<and> 0 \<le> h \<and> h + 2 * n \<le> int (length (V_IT (tabs s))) \<and>
         srcOk s lo hi p \<and>
         (\<forall>k. 0 \<le> k \<and> k < 2 * n \<longrightarrow> srcOk s lo hi (int (V_IT (tabs s) ! nat (h + k)))))"

text \<open>
  A smooth vertex-point of valence 4 with its eight neighbours; a vertex-point of valence
  65536, all of whose neighbours are record 0.
\<close>

definition smoothTables :: tables where
  "smoothTables = \<lparr>F_ITa = [], F_IT = [], E_IT = [], E_W = [],
                    V_ITa = [0, 4, 0, - 1, - 1], V_IT = [1, 2, 3, 4, 5, 6, 7, 8], V_W = [1]\<rparr>"

definition smoothMachine :: "real machine" where
  "smoothMachine = \<lparr>tabs = smoothTables,
     vbuf = [\<lparr>primary = 10, varying = 7\<rparr>,
             \<lparr>primary = 1, varying = 0\<rparr>, \<lparr>primary = 2, varying = 0\<rparr>,
             \<lparr>primary = 3, varying = 0\<rparr>, \<lparr>primary = 4, varying = 0\<rparr>,
             \<lparr>primary = 5, varying = 0\<rparr>, \<lparr>primary = 6, varying = 0\<rparr>,
             \<lparr>primary = 7, varying = 0\<rparr>, \<lparr>primary = 20, varying = 0\<rparr>,
             \<lparr>primary = 99, varying = 99\<rparr>]\<rparr>"

definition bigValenceMachine :: "real machine" where
  "bigValenceMachine = \<lparr>tabs = smoothTables\<lparr>V_ITa := [0, 65536, 0, - 1, - 1],
                                               V_IT := replicate 131072 0\<rparr>,
     vbuf = [\<lparr>primary = 1, varying = 1\<rparr>, \<lparr>primary = 99, varying = 99\<rparr>]\<rparr>"

text \<open>A vertex-point whose valence entry is the sentinel \<open>-1\<close>, in the range of kernel B.\<close>

definition sentinelMachine :: "real machine" where
  "sentinelMachine = \<lparr>tabs = smoothTables\<lparr>V_ITa := [0, - 1, 0, - 1, - 1], V_IT := [], V_W := [1 / 2]\<rparr>,
     vbuf = [\<lparr>primary = 1, varying = 1\<rparr>, \<lparr>primary = 99, varying = 99\<rparr>]\<rparr>"

text \<open>
  The frame of a kernel run from \<open>s\<close> to \<open>s'\<close> whose loop body is \<open>body\<close>. The seven
  tables and the length of the buffer are as before, and every record outside the
  destination range is as before. For each row \<open>i\<close> of the range the run is the turns
  before row \<open>i\<close>, from \<open>s\<close> to a state \<open>t\<close>, then the turn of row \<open>i\<close>, from \<open>t\<close> to
  \<open>t'\<close>, then the turns after it, from \<open>t'\<close> to \<open>s'\<close>; the destination of row \<open>i\<close> is a
  record of the buffer; the turns before left it as it was in \<open>s\<close>; the turn of row
  \<open>i\<close> changed no other record and no table; and the turns after left it as that turn
  made it.
\<close>

definition writesOnlyDestinations ::
    "(int \<Rightarrow> int \<Rightarrow> 'a machine \<Rightarrow> error + 'a machine) \<Rightarrow> int \<Rightarrow> int \<Rightarrow> int \<Rightarrow> int \<Rightarrow>
     'a machine \<Rightarrow> 'a machine \<Rightarrow> bool" where
  "writesOnlyDestinations body offset tableOffset start en s s' \<longleftrightarrow>
     tabs s' = tabs s \<and> length (vbuf s') = length (vbuf s) \<and>
     (\<forall>m. \<not> (offset + start \<le> int m \<and> int m < offset + en) \<longrightarrow> vbuf s' ! m = vbuf s ! m) \<and>
     (\<forall>i. start + tableOffset \<le> i \<and> i < en + tableOffset \<longrightarrow>
        (\<exists>t t'. kernelLoop body (start + tableOffset) i (offset + start) s = Inr t \<and>
           body (offset + i - tableOffset) i t = Inr t' \<and>
           kernelLoop body (i + 1) (en + tableOffset) (offset + i - tableOffset + 1) t' = Inr s' \<and>
           0 \<le> offset + i - tableOffset \<and> offset + i - tableOffset < int (length (vbuf s)) \<and>
           vbuf t ! nat (offset + i - tableOffset) = vbuf s ! nat (offset + i - tableOffset) \<and>
           tabs t' = tabs t \<and> length (vbuf t') = length (vbuf t) \<and>
           (\<forall>m. int m \<noteq> offset + i - tableOffset \<longrightarrow> vbuf t' ! m = vbuf t ! m) \<and>
           vbuf s' ! nat (offset + i - tableOffset) = vbuf t' ! nat (offset + i - tableOffset)))"

text \<open>The numbers of the \<^verbatim>\<open>TableType\<close> enumerators in the order the enumeration is usually declared in.\<close>

fun enumIndex :: "TableType \<Rightarrow> nat" where
  "enumIndex T_E_IT = 0"
| "enumIndex T_E_W = 1"
| "enumIndex T_V_ITa = 2"
| "enumIndex T_V_IT = 3"
| "enumIndex T_V_W = 4"
| "enumIndex T_F_IT = 5"
| "enumIndex T_F_ITa = 6"

text \<open>
  A vertex-point that goes from crease to corner (valence entry \<open>-1\<close>, two passes of
  kernel A), and one that blends the smooth rule with the crease rule (kernel B, then
  the second pass of kernel A).
\<close>

definition creaseCornerMachine :: "real machine" where
  "creaseCornerMachine = \<lparr>tabs = creaseTables\<lparr>V_ITa := [0, - 1, 0, 1, 2]\<rparr>,
     vbuf = [\<lparr>primary = 8, varying = 80\<rparr>, \<lparr>primary = 16, varying = 160\<rparr>,
             \<lparr>primary = 32, varying = 320\<rparr>, \<lparr>primary = 99, varying = 99\<rparr>]\<rparr>"

definition blendMachine :: "real machine" where
  "blendMachine = \<lparr>tabs = smoothTables\<lparr>V_ITa := [0, 4, 0, 1, 2], V_W := [1 / 4]\<rparr>,
     vbuf = vbuf smoothMachine\<rparr>"

section \<open>Properties\<close>

subsection \<open>Results, frames and the two loops\<close>

declare forLoop.simps [simp del] kernelLoop.simps [simp del] digits2.simps [simp del]

lemma bnd_Inr_iff: "bnd m f = Inr y \<longleftrightarrow> (\<exists>x. m = Inr x \<and> f x = Inr y)"
  by (cases m) (simp_all add: bnd_def)

lemma bnd_Inr [simp]: "bnd (Inr x) f = f x"
  by (simp add: bnd_def)

lemma bnd_Inl [simp]: "bnd (Inl e) f = Inl e"
  by (simp add: bnd_def)

lemma tbl_get_Inr_iff:
  "tbl_get t k = Inr x \<longleftrightarrow> 0 \<le> k \<and> k < int (length t) \<and> x = t ! nat k"
  by (auto simp: tbl_get_def)

lemma tbl_get_ok: "0 \<le> k \<Longrightarrow> k < int (length t) \<Longrightarrow> tbl_get t k = Inr (t ! nat k)"
  by (simp add: tbl_get_def)

lemma Clear_at_Inr_iff:
  "Clear_at d s = Inr s' \<longleftrightarrow>
     0 \<le> d \<and> d < int (length (vbuf s)) \<and>
     s' = s\<lparr>vbuf := (vbuf s)[nat d := Clear (vbuf s ! nat d)]\<rparr>"
  by (auto simp: Clear_at_def bnd_Inr_iff tbl_get_Inr_iff)

lemma AddWithWeight_at_Inr_iff:
  "AddWithWeight_at d k w s = Inr s' \<longleftrightarrow>
     0 \<le> k \<and> k < int (length (vbuf s)) \<and> 0 \<le> d \<and> d < int (length (vbuf s)) \<and>
     s' = s\<lparr>vbuf := (vbuf s)[nat d := AddWithWeight (vbuf s ! nat d) (vbuf s ! nat k) w]\<rparr>"
  by (auto simp: AddWithWeight_at_def bnd_Inr_iff tbl_get_Inr_iff)

lemma AddVaryingWithWeight_at_Inr_iff:
  "AddVaryingWithWeight_at d k w s = Inr s' \<longleftrightarrow>
     0 \<le> k \<and> k < int (length (vbuf s)) \<and> 0 \<le> d \<and> d < int (length (vbuf s)) \<and>
     s' = s\<lparr>vbuf := (vbuf s)[nat d := AddVaryingWithWeight (vbuf s ! nat d) (vbuf s ! nat k) w]\<rparr>"
  by (auto simp: AddVaryingWithWeight_at_def bnd_Inr_iff tbl_get_Inr_iff)

lemma frame_refl: "frame d s s"
  by (simp add: frame_def)

lemma frame_trans: "frame d s t \<Longrightarrow> frame d t u \<Longrightarrow> frame d s u"
  by (simp add: frame_def)

lemma Clear_at_frame: "Clear_at d s = Inr s' \<Longrightarrow> frame d s s'"
  by (auto simp: Clear_at_Inr_iff frame_def)

lemma AddWithWeight_at_frame: "AddWithWeight_at d k w s = Inr s' \<Longrightarrow> frame d s s'"
  by (auto simp: AddWithWeight_at_Inr_iff frame_def)

lemma AddVaryingWithWeight_at_frame: "AddVaryingWithWeight_at d k w s = Inr s' \<Longrightarrow> frame d s s'"
  by (auto simp: AddVaryingWithWeight_at_Inr_iff frame_def)

lemma forLoop_frame:
  assumes body: "step_frames d body"
  shows "forLoop body j n s = Inr s' \<Longrightarrow> frame d s s'"
proof (induction "nat (n - j)" arbitrary: j s)
  case 0
  then show ?case by (simp add: forLoop.simps [of body j n s] frame_refl)
next
  case (Suc k)
  then have lt: "j < n" by simp
  with Suc.prems obtain t where t: "body j s = Inr t" and r: "forLoop body (j + 1) n t = Inr s'"
    by (auto simp: forLoop.simps [of body j n s] split: sum.splits)
  have "frame d s t" using body t by (simp add: step_frames_def)
  moreover have "frame d t s'" using Suc.hyps(1) [of "j + 1" t] Suc.hyps(2) r by simp
  ultimately show ?case by (rule frame_trans)
qed

lemma kernelLoop_frame:
  assumes body: "body_frames body"
  shows "kernelLoop body i e d s = Inr s' \<Longrightarrow>
    tabs s' = tabs s \<and> length (vbuf s') = length (vbuf s) \<and>
    (\<forall>m. \<not> (d \<le> int m \<and> int m < d + (e - i)) \<longrightarrow> vbuf s' ! m = vbuf s ! m)"
proof (induction "nat (e - i)" arbitrary: i d s)
  case 0
  then show ?case by (simp add: kernelLoop.simps [of body i e d s])
next
  case (Suc k)
  then have lt: "i < e" by simp
  with Suc.prems obtain t where t: "body d i s = Inr t"
    and r: "kernelLoop body (i + 1) e (d + 1) t = Inr s'"
    by (auto simp: kernelLoop.simps [of body i e d s] split: sum.splits)
  have f: "frame d s t" using body t by (simp add: body_frames_def)
  have ih: "tabs s' = tabs t \<and> length (vbuf s') = length (vbuf t) \<and>
    (\<forall>m. \<not> (d + 1 \<le> int m \<and> int m < d + 1 + (e - (i + 1))) \<longrightarrow> vbuf s' ! m = vbuf t ! m)"
    using Suc.hyps(1) [of "i + 1" "d + 1" t] Suc.hyps(2) r by simp
  show ?case
    using f ih lt by (auto simp: frame_def)
qed

lemma kernelLoop_value:
  assumes body: "body_frames body"
  shows "kernelLoop body i e d s = Inr s' \<Longrightarrow> i \<le> i' \<Longrightarrow> i' < e \<Longrightarrow>
    \<exists>t t'. body (d + (i' - i)) i' t = Inr t' \<and>
       tabs t = tabs s \<and> length (vbuf t) = length (vbuf s) \<and>
       (\<forall>m. \<not> (d \<le> int m \<and> int m < d + (i' - i)) \<longrightarrow> vbuf t ! m = vbuf s ! m) \<and>
       vbuf s' ! nat (d + (i' - i)) = vbuf t' ! nat (d + (i' - i))"
proof (induction "nat (e - i)" arbitrary: i d s)
  case 0
  then show ?case by simp
next
  case (Suc k)
  from Suc.prems have lt: "i < e" by simp
  with Suc.prems(1) obtain t where t: "body d i s = Inr t"
    and r: "kernelLoop body (i + 1) e (d + 1) t = Inr s'"
    by (auto simp: kernelLoop.simps [of body i e d s] split: sum.splits)
  have f: "frame d s t" using body t by (simp add: body_frames_def)
  show ?case
  proof (cases "i' = i")
    case True
    have rest: "\<forall>m. \<not> (d + 1 \<le> int m \<and> int m < d + 1 + (e - (i + 1))) \<longrightarrow> vbuf s' ! m = vbuf t ! m"
      using kernelLoop_frame [OF body r] by blast
    have "0 \<le> d" using body t by (simp add: body_frames_def)
    then have "vbuf s' ! nat d = vbuf t ! nat d"
      using rest by auto
    with t True show ?thesis by auto
  next
    case False
    with Suc.prems have le: "i + 1 \<le> i'" by simp
    have k: "k = nat (e - (i + 1))" using Suc.hyps(2) by simp
    from Suc.hyps(1) [OF k r le Suc.prems(3)]
    obtain u u' where u: "body (d + 1 + (i' - (i + 1))) i' u = Inr u'"
      and tu: "tabs u = tabs t" and lu: "length (vbuf u) = length (vbuf t)"
      and fr: "\<forall>m. \<not> (d + 1 \<le> int m \<and> int m < d + 1 + (i' - (i + 1))) \<longrightarrow> vbuf u ! m = vbuf t ! m"
      and v: "vbuf s' ! nat (d + 1 + (i' - (i + 1))) = vbuf u' ! nat (d + 1 + (i' - (i + 1)))"
      by blast
    have eq: "d + 1 + (i' - (i + 1)) = d + (i' - i)" by simp
    have "\<forall>m. \<not> (d \<le> int m \<and> int m < d + (i' - i)) \<longrightarrow> vbuf u ! m = vbuf s ! m"
      using fr f le by (auto simp: frame_def)
    with u tu lu v f show ?thesis
      unfolding eq by (auto simp: frame_def)
  qed
qed

subsection \<open>Face-vertices kernel\<close>

lemma int_ivl_split: "(j::int) < n \<Longrightarrow> {j..<n} = insert j {j + 1..<n}"
  by auto

lemma sum_int_ivl_split:
  fixes f :: "int \<Rightarrow> 'a::comm_monoid_add"
  shows "j < n \<Longrightarrow> sum f {j..<n} = f j + sum f {j + 1..<n}"
  by (simp add: int_ivl_split)

lemma facePointStep_Inr:
  assumes "facePointStep d h w j s = Inr s'"
  shows "0 \<le> h + j \<and> h + j < int (length (F_IT (tabs s))) \<and>
         int (F_IT (tabs s) ! nat (h + j)) < int (length (vbuf s)) \<and>
         0 \<le> d \<and> d < int (length (vbuf s)) \<and> frame d s s'"
  using assms
  by (auto simp: facePointStep_def bnd_Inr_iff tbl_get_Inr_iff AddWithWeight_at_Inr_iff
      AddVaryingWithWeight_at_Inr_iff frame_def)

lemma facePointStep_value:
  assumes "facePointStep d h w j s = Inr s'" and "int (F_IT (tabs s) ! nat (h + j)) \<noteq> d"
  shows "primary (vbuf s' ! nat d) =
           primary (vbuf s ! nat d) + w *\<^sub>R primary (vbuf s ! (F_IT (tabs s) ! nat (h + j)))"
    and "varying (vbuf s' ! nat d) =
           varying (vbuf s ! nat d) + w *\<^sub>R varying (vbuf s ! (F_IT (tabs s) ! nat (h + j)))"
  using assms
  by (auto simp: facePointStep_def bnd_Inr_iff tbl_get_Inr_iff AddWithWeight_at_Inr_iff
      AddVaryingWithWeight_at_Inr_iff AddWithWeight_def AddVaryingWithWeight_def)

lemma facePointStep_frames: "step_frames d (facePointStep d h w)"
  by (simp add: step_frames_def facePointStep_Inr)

lemma facePoint_forLoop_value:
  "forLoop (facePointStep d h w) j n s = Inr s' \<Longrightarrow>
   \<forall>j'. j \<le> j' \<and> j' < n \<longrightarrow> int (F_IT (tabs s) ! nat (h + j')) \<noteq> d \<Longrightarrow>
   primary (vbuf s' ! nat d) =
     primary (vbuf s ! nat d) + (\<Sum>j'\<in>{j..<n}. w *\<^sub>R primary (vbuf s ! (F_IT (tabs s) ! nat (h + j')))) \<and>
   varying (vbuf s' ! nat d) =
     varying (vbuf s ! nat d) + (\<Sum>j'\<in>{j..<n}. w *\<^sub>R varying (vbuf s ! (F_IT (tabs s) ! nat (h + j'))))"
proof (induction "nat (n - j)" arbitrary: j s)
  case 0
  then show ?case by (simp add: forLoop.simps [of _ j n s])
next
  case (Suc k)
  then have lt: "j < n" by simp
  with Suc.prems(1) obtain t where t: "facePointStep d h w j s = Inr t"
    and r: "forLoop (facePointStep d h w) (j + 1) n t = Inr s'"
    by (auto simp: forLoop.simps [of _ j n s] split: sum.splits)
  have f: "frame d s t" using facePointStep_Inr [OF t] by simp
  have src: "int (F_IT (tabs s) ! nat (h + j)) \<noteq> d" using Suc.prems(2) lt by simp
  have same: "\<And>j'. j \<le> j' \<Longrightarrow> j' < n \<Longrightarrow>
      vbuf t ! (F_IT (tabs s) ! nat (h + j')) = vbuf s ! (F_IT (tabs s) ! nat (h + j'))"
    using f Suc.prems(2) by (simp add: frame_def)
  have tt: "tabs t = tabs s" using f by (simp add: frame_def)
  have k: "k = nat (n - (j + 1))" using Suc.hyps(2) by simp
  have pre: "\<forall>j'. j + 1 \<le> j' \<and> j' < n \<longrightarrow> int (F_IT (tabs t) ! nat (h + j')) \<noteq> d"
    using Suc.prems(2) tt by simp
  note ih = Suc.hyps(1) [OF k r pre]
  have s1: "(\<Sum>j'\<in>{j + 1..<n}. w *\<^sub>R primary (vbuf t ! (F_IT (tabs t) ! nat (h + j')))) =
            (\<Sum>j'\<in>{j + 1..<n}. w *\<^sub>R primary (vbuf s ! (F_IT (tabs s) ! nat (h + j'))))"
    by (rule sum.cong) (simp_all add: tt same)
  have s2: "(\<Sum>j'\<in>{j + 1..<n}. w *\<^sub>R varying (vbuf t ! (F_IT (tabs t) ! nat (h + j')))) =
            (\<Sum>j'\<in>{j + 1..<n}. w *\<^sub>R varying (vbuf s ! (F_IT (tabs s) ! nat (h + j'))))"
    by (rule sum.cong) (simp_all add: tt same)
  show ?case
    using ih facePointStep_value [OF t src]
    by (simp add: s1 s2 sum_int_ivl_split [OF lt] add.assoc)
qed

lemma facePoint_frames: "body_frames facePoint"
proof -
  have "0 \<le> d \<and> d < int (length (vbuf t)) \<and> frame d t t'" if "facePoint d i t = Inr t'" for d i t t'
  proof -
    from that obtain s0 h n w where c: "Clear_at d t = Inr s0"
      and l: "forLoop (facePointStep d h w) 0 n s0 = Inr t'"
      by (auto simp: facePoint_def bnd_Inr_iff)
    have "frame d t s0" using c by (rule Clear_at_frame)
    moreover have "frame d s0 t'" using facePointStep_frames l by (rule forLoop_frame)
    ultimately have "frame d t t'" by (rule frame_trans)
    with c show ?thesis by (simp add: Clear_at_Inr_iff)
  qed
  then show ?thesis unfolding body_frames_def by blast
qed

lemma facePoint_value:
  assumes run: "facePoint d i s = Inr s'"
    and h: "h = F_ITa (tabs s) ! nat (2 * i)" and n: "n = F_ITa (tabs s) ! nat (2 * i + 1)"
    and src: "\<forall>j. 0 \<le> j \<and> j < n \<longrightarrow> int (F_IT (tabs s) ! nat (h + j)) \<noteq> d"
  shows "primary (vbuf s' ! nat d) =
           (\<Sum>j\<in>{0..<n}. (1 / real_of_int n) *\<^sub>R primary (vbuf s ! (F_IT (tabs s) ! nat (h + j))))"
    and "varying (vbuf s' ! nat d) =
           (\<Sum>j\<in>{0..<n}. (1 / real_of_int n) *\<^sub>R varying (vbuf s ! (F_IT (tabs s) ! nat (h + j))))"
proof -
  from run obtain s0 where c: "Clear_at d s = Inr s0"
    and l: "forLoop (facePointStep d h (1 / real_of_int n)) 0 n s0 = Inr s'"
    by (auto simp: facePoint_def bnd_Inr_iff tbl_get_Inr_iff fdiv_def h n Clear_at_Inr_iff
        split: if_splits)
  have f: "frame d s s0" using c by (rule Clear_at_frame)
  have z: "primary (vbuf s0 ! nat d) = 0" "varying (vbuf s0 ! nat d) = 0"
    using c by (auto simp: Clear_at_Inr_iff Clear_def)
  have tt: "tabs s0 = tabs s" using f by (simp add: frame_def)
  have same: "\<And>j. 0 \<le> j \<Longrightarrow> j < n \<Longrightarrow>
      vbuf s0 ! (F_IT (tabs s) ! nat (h + j)) = vbuf s ! (F_IT (tabs s) ! nat (h + j))"
    using f src by (simp add: frame_def)
  have pre: "\<forall>j'. 0 \<le> j' \<and> j' < n \<longrightarrow> int (F_IT (tabs s0) ! nat (h + j')) \<noteq> d"
    using src tt by simp
  note v = facePoint_forLoop_value [OF l pre]
  have s1: "(\<Sum>j'\<in>{0..<n}. (1 / real_of_int n) *\<^sub>R primary (vbuf s0 ! (F_IT (tabs s0) ! nat (h + j')))) =
            (\<Sum>j'\<in>{0..<n}. (1 / real_of_int n) *\<^sub>R primary (vbuf s ! (F_IT (tabs s) ! nat (h + j'))))"
    by (rule sum.cong) (simp_all add: tt same)
  have s2: "(\<Sum>j'\<in>{0..<n}. (1 / real_of_int n) *\<^sub>R varying (vbuf s0 ! (F_IT (tabs s0) ! nat (h + j')))) =
            (\<Sum>j'\<in>{0..<n}. (1 / real_of_int n) *\<^sub>R varying (vbuf s ! (F_IT (tabs s) ! nat (h + j'))))"
    by (rule sum.cong) (simp_all add: tt same)
  show "primary (vbuf s' ! nat d) =
           (\<Sum>j\<in>{0..<n}. (1 / real_of_int n) *\<^sub>R primary (vbuf s ! (F_IT (tabs s) ! nat (h + j))))"
    using v z s1 by simp
  show "varying (vbuf s' ! nat d) =
           (\<Sum>j\<in>{0..<n}. (1 / real_of_int n) *\<^sub>R varying (vbuf s ! (F_IT (tabs s) ! nat (h + j))))"
    using v z s2 by simp
qed

lemma agrees_refl: "agrees lo hi s s"
  by (simp add: agrees_def)

lemma agrees_frame: "agrees lo hi s t \<Longrightarrow> frame d t t' \<Longrightarrow> lo \<le> d \<Longrightarrow> d < hi \<Longrightarrow> agrees lo hi s t'"
  by (auto simp: agrees_def frame_def)

lemma agrees_mono: "agrees lo hi s t \<Longrightarrow> lo' \<le> lo \<Longrightarrow> hi \<le> hi' \<Longrightarrow> agrees lo' hi' s t"
  by (auto simp: agrees_def)

lemma forLoop_succeeds:
  assumes fr: "step_frames d body"
    and ok: "\<And>j t. j0 \<le> j \<Longrightarrow> j < n \<Longrightarrow> frame d s t \<Longrightarrow> \<exists>t'. body j t = Inr t'"
  shows "j0 \<le> j \<Longrightarrow> frame d s t \<Longrightarrow> \<exists>s'. forLoop body j n t = Inr s'"
proof (induction "nat (n - j)" arbitrary: j t)
  case 0
  then show ?case by (simp add: forLoop.simps [of body j n t])
next
  case (Suc k)
  then have lt: "j < n" by simp
  from ok [OF Suc.prems(1) lt Suc.prems(2)] obtain t' where t': "body j t = Inr t'" by blast
  have "frame d t t'" using fr t' by (simp add: step_frames_def)
  with Suc.prems(2) have f: "frame d s t'" by (rule frame_trans)
  have k: "k = nat (n - (j + 1))" using Suc.hyps(2) by simp
  have "j0 \<le> j + 1" using Suc.prems(1) by simp
  from Suc.hyps(1) [OF k this f] obtain s' where "forLoop body (j + 1) n t' = Inr s'" by blast
  with t' lt show ?case by (simp add: forLoop.simps [of body j n t])
qed

lemma kernelLoop_succeeds:
  assumes fr: "body_frames body"
    and ok: "\<And>i t. ib \<le> i \<Longrightarrow> i < e \<Longrightarrow> agrees db (db + (e - ib)) s t \<Longrightarrow>
               \<exists>t'. body (db + (i - ib)) i t = Inr t'"
  shows "ib \<le> i \<Longrightarrow> agrees db (db + (e - ib)) s t \<Longrightarrow>
         \<exists>s'. kernelLoop body i e (db + (i - ib)) t = Inr s'"
proof (induction "nat (e - i)" arbitrary: i t)
  case 0
  then show ?case by (simp add: kernelLoop.simps [of body i e _ t])
next
  case (Suc k)
  then have lt: "i < e" by simp
  from ok [OF Suc.prems(1) lt Suc.prems(2)] obtain t' where t': "body (db + (i - ib)) i t = Inr t'"
    by blast
  have "frame (db + (i - ib)) t t'" using fr t' by (simp add: body_frames_def)
  then have a: "agrees db (db + (e - ib)) s t'"
    using Suc.prems lt by (intro agrees_frame [OF Suc.prems(2)]) auto
  have k: "k = nat (e - (i + 1))" using Suc.hyps(2) by simp
  have "ib \<le> i + 1" using Suc.prems(1) by simp
  from Suc.hyps(1) [OF k this a] obtain s' where
    "kernelLoop body (i + 1) e (db + (i + 1 - ib)) t' = Inr s'" by blast
  moreover have "db + (i + 1 - ib) = db + (i - ib) + 1" by simp
  ultimately show ?case using t' lt
    by (simp add: kernelLoop.simps [of body i e _ t])
qed

lemma facePointStep_succeeds:
  assumes "0 \<le> h + j" "h + j < int (length (F_IT (tabs s)))"
    "int (F_IT (tabs s) ! nat (h + j)) < int (length (vbuf s))"
    "0 \<le> d" "d < int (length (vbuf s))"
  shows "\<exists>s'. facePointStep d h w j s = Inr s'"
  using assms
  by (simp add: facePointStep_def tbl_get_def AddWithWeight_at_def AddVaryingWithWeight_at_def)

lemma facePoint_succeeds:
  assumes ok: "faceRowOk s lo hi i" and d: "0 \<le> d" "d < int (length (vbuf s))"
    and t: "tabs t = tabs s" "length (vbuf t) = length (vbuf s)"
  shows "\<exists>t'. facePoint d i t = Inr t'"
proof -
  define h where "h = F_ITa (tabs s) ! nat (2 * i)"
  define n where "n = F_ITa (tabs s) ! nat (2 * i + 1)"
  from ok have b: "0 \<le> i" "2 * i + 1 < int (length (F_ITa (tabs s)))"
    and n1: "1 \<le> n" and h0: "0 \<le> h" and hn: "h + n \<le> int (length (F_IT (tabs s)))"
    and src: "\<And>j. 0 \<le> j \<Longrightarrow> j < n \<Longrightarrow> int (F_IT (tabs s) ! nat (h + j)) < int (length (vbuf s))"
    by (auto simp: faceRowOk_def Let_def h_def n_def)
  obtain s0 where c: "Clear_at d t = Inr s0"
    using d t by (simp add: Clear_at_Inr_iff)
  have f0: "frame d t s0" using c by (rule Clear_at_frame)
  have "\<exists>t'. facePointStep d h (1 / real_of_int n) j u = Inr t'"
    if "0 \<le> j" "j < n" "frame d s0 u" for j u
  proof -
    have fu: "tabs u = tabs s" "length (vbuf u) = length (vbuf s)"
      using that(3) f0 t by (simp_all add: frame_def)
    show ?thesis
      using that(1,2) h0 hn src [OF that(1,2)] d fu
      by (intro facePointStep_succeeds) simp_all
  qed
  from forLoop_succeeds [OF facePointStep_frames this, of 0 n s0 0 s0]
  obtain t' where l: "forLoop (facePointStep d h (1 / real_of_int n)) 0 n s0 = Inr t'"
    by (auto simp: frame_refl)
  have ts0: "tabs s0 = tabs s" using f0 t by (simp add: frame_def)
  have "facePoint d i t = Inr t'"
    using c l b n1 ts0
    by (simp add: facePoint_def tbl_get_def fdiv_def h_def n_def)
  then show ?thesis by blast
qed

lemma computeFacePoints_value:
  assumes run: "computeFacePoints offset tableOffset start en s = Inr s'"
    and row: "start + tableOffset \<le> i" "i < en + tableOffset"
    and h: "h = F_ITa (tabs s) ! nat (2 * i)" and n: "n = F_ITa (tabs s) ! nat (2 * i + 1)"
    and src: "\<forall>j. 0 \<le> j \<and> j < n \<longrightarrow>
       \<not> (offset + start \<le> int (F_IT (tabs s) ! nat (h + j)) \<and>
          int (F_IT (tabs s) ! nat (h + j)) < offset + en)"
  shows "primary (vbuf s' ! nat (offset + i - tableOffset)) =
           (\<Sum>j\<in>{0..<n}. (1 / real_of_int n) *\<^sub>R primary (vbuf s ! (F_IT (tabs s) ! nat (h + j)))) \<and>
         varying (vbuf s' ! nat (offset + i - tableOffset)) =
           (\<Sum>j\<in>{0..<n}. (1 / real_of_int n) *\<^sub>R varying (vbuf s ! (F_IT (tabs s) ! nat (h + j))))"
proof -
  define d where "d = offset + start + (i - (start + tableOffset))"
  have d: "offset + i - tableOffset = d" by (simp add: d_def)
  from kernelLoop_value [OF facePoint_frames run [unfolded computeFacePoints_def] row]
  obtain t t' where b: "facePoint d i t = Inr t'"
    and tt: "tabs t = tabs s"
    and fr: "\<forall>m. \<not> (offset + start \<le> int m \<and> int m < d) \<longrightarrow> vbuf t ! m = vbuf s ! m"
    and v: "vbuf s' ! nat d = vbuf t' ! nat d"
    unfolding d_def by blast
  have dlt: "d < offset + en" using row by (simp add: d_def)
  have same: "vbuf t ! (F_IT (tabs s) ! nat (h + j)) = vbuf s ! (F_IT (tabs s) ! nat (h + j))"
    if "0 \<le> j" "j < n" for j
    using src that fr dlt by auto
  have ne: "\<forall>j. 0 \<le> j \<and> j < n \<longrightarrow> int (F_IT (tabs t) ! nat (h + j)) \<noteq> d"
    using src dlt row by (auto simp: tt d_def)
  note val = facePoint_value [OF b h [folded tt] n [folded tt] ne]
  have s1: "(\<Sum>j\<in>{0..<n}. (1 / real_of_int n) *\<^sub>R primary (vbuf t ! (F_IT (tabs t) ! nat (h + j)))) =
            (\<Sum>j\<in>{0..<n}. (1 / real_of_int n) *\<^sub>R primary (vbuf s ! (F_IT (tabs s) ! nat (h + j))))"
    by (rule sum.cong) (simp_all add: tt same)
  have s2: "(\<Sum>j\<in>{0..<n}. (1 / real_of_int n) *\<^sub>R varying (vbuf t ! (F_IT (tabs t) ! nat (h + j)))) =
            (\<Sum>j\<in>{0..<n}. (1 / real_of_int n) *\<^sub>R varying (vbuf s ! (F_IT (tabs s) ! nat (h + j))))"
    by (rule sum.cong) (simp_all add: tt same)
  show ?thesis
    unfolding d v using val s1 s2 by simp
qed

lemma computeFacePoints_succeeds:
  assumes rows: "\<forall>i. start + tableOffset \<le> i \<and> i < en + tableOffset \<longrightarrow>
                   faceRowOk s (offset + start) (offset + en) i"
    and dst: "start < en \<longrightarrow> 0 \<le> offset + start \<and> offset + en \<le> int (length (vbuf s))"
  shows "\<exists>s'. computeFacePoints offset tableOffset start en s = Inr s'"
proof -
  have ok: "\<exists>t'. facePoint (offset + start + (i - (start + tableOffset))) i t = Inr t'"
    if "start + tableOffset \<le> i" "i < en + tableOffset"
      "agrees (offset + start) (offset + start + (en + tableOffset - (start + tableOffset))) s t"
    for i t
  proof -
    have r: "faceRowOk s (offset + start) (offset + en) i" using rows that(1,2) by simp
    have "start < en" using that(1,2) by simp
    with dst that(1,2) have d: "0 \<le> offset + start + (i - (start + tableOffset))"
      "offset + start + (i - (start + tableOffset)) < int (length (vbuf s))" by auto
    show ?thesis
      using that(3) by (intro facePoint_succeeds [OF r d]) (simp_all add: agrees_def)
  qed
  from kernelLoop_succeeds [where body = facePoint and ib = "start + tableOffset"
      and e = "en + tableOffset" and db = "offset + start" and s = s
      and i = "start + tableOffset" and t = s, OF facePoint_frames ok]
  show ?thesis
    by (simp add: computeFacePoints_def agrees_refl)
qed

lemma sum_const_int_ivl: "(1::int) \<le> n \<Longrightarrow> (\<Sum>j\<in>{0..<n}. 1 / real_of_int n) = 1"
  by simp

text \<open>
  Claim C6. When every row of the face table in the range is well formed (a valence of
  at least 1, which covers the valences from 3 on, corners that are records of the
  buffer outside the destination range, a destination range inside the buffer),
  \<open>computeFacePoints\<close> returns, and in the buffer it returns the record of each
  face-point is the sum of the \<open>n\<close> corners the index table lists, each with weight
  \<open>1/n\<close>, in the primary and in the varying attribute alike, whatever the record held
  before. The weights add up to 1, and a face of valence 4 gets a quarter of the sum of
  its four corners.
\<close>

theorem computeFacePoints_average:
  assumes rows: "\<forall>i. start + tableOffset \<le> i \<and> i < en + tableOffset \<longrightarrow>
                   faceRowOk s (offset + start) (offset + en) i"
    and dst: "start < en \<longrightarrow> 0 \<le> offset + start \<and> offset + en \<le> int (length (vbuf s))"
  shows "\<exists>s'. computeFacePoints offset tableOffset start en s = Inr s' \<and>
    (\<forall>i. start + tableOffset \<le> i \<and> i < en + tableOffset \<longrightarrow>
       (let h = F_ITa (tabs s) ! nat (2 * i); n = F_ITa (tabs s) ! nat (2 * i + 1);
            src = (\<lambda>j. vbuf s ! (F_IT (tabs s) ! nat (h + j)));
            v = vbuf s' ! nat (offset + i - tableOffset)
        in primary v = (\<Sum>j\<in>{0..<n}. (1 / real_of_int n) *\<^sub>R primary (src j)) \<and>
           varying v = (\<Sum>j\<in>{0..<n}. (1 / real_of_int n) *\<^sub>R varying (src j)) \<and>
           (\<Sum>j\<in>{0..<n}. 1 / real_of_int n) = 1 \<and>
           (n = 4 \<longrightarrow> primary v =
              (primary (src 0) + primary (src 1) + primary (src 2) + primary (src 3)) /\<^sub>R 4)))"
proof -
  from computeFacePoints_succeeds [OF rows dst]
  obtain s' where run: "computeFacePoints offset tableOffset start en s = Inr s'" by blast
  have "let h = F_ITa (tabs s) ! nat (2 * i); n = F_ITa (tabs s) ! nat (2 * i + 1);
            src = (\<lambda>j. vbuf s ! (F_IT (tabs s) ! nat (h + j)));
            v = vbuf s' ! nat (offset + i - tableOffset)
        in primary v = (\<Sum>j\<in>{0..<n}. (1 / real_of_int n) *\<^sub>R primary (src j)) \<and>
           varying v = (\<Sum>j\<in>{0..<n}. (1 / real_of_int n) *\<^sub>R varying (src j)) \<and>
           (\<Sum>j\<in>{0..<n}. 1 / real_of_int n) = 1 \<and>
           (n = 4 \<longrightarrow> primary v =
              (primary (src 0) + primary (src 1) + primary (src 2) + primary (src 3)) /\<^sub>R 4)"
    if row: "start + tableOffset \<le> i" "i < en + tableOffset" for i
  proof -
    define h where "h = F_ITa (tabs s) ! nat (2 * i)"
    define n where "n = F_ITa (tabs s) ! nat (2 * i + 1)"
    have r: "faceRowOk s (offset + start) (offset + en) i" using rows row by simp
    then have n1: "1 \<le> n" and src: "\<forall>j. 0 \<le> j \<and> j < n \<longrightarrow>
       \<not> (offset + start \<le> int (F_IT (tabs s) ! nat (h + j)) \<and>
          int (F_IT (tabs s) ! nat (h + j)) < offset + en)"
      by (auto simp: faceRowOk_def Let_def h_def n_def)
    note val = computeFacePoints_value [OF run row h_def n_def src]
    have four: "(\<Sum>j\<in>{0..<4::int}. f j) = f 0 + f 1 + f 2 + f 3" for f :: "int \<Rightarrow> 'a"
      by (simp add: sum_int_ivl_split add.assoc)
    have p4: "n = 4 \<longrightarrow> primary (vbuf s' ! nat (offset + i - tableOffset)) =
      (primary (vbuf s ! (F_IT (tabs s) ! nat (h + 0))) + primary (vbuf s ! (F_IT (tabs s) ! nat (h + 1))) +
       primary (vbuf s ! (F_IT (tabs s) ! nat (h + 2))) + primary (vbuf s ! (F_IT (tabs s) ! nat (h + 3)))) /\<^sub>R 4"
    proof
      assume n4: "n = 4"
      show "primary (vbuf s' ! nat (offset + i - tableOffset)) =
      (primary (vbuf s ! (F_IT (tabs s) ! nat (h + 0))) + primary (vbuf s ! (F_IT (tabs s) ! nat (h + 1))) +
       primary (vbuf s ! (F_IT (tabs s) ! nat (h + 2))) + primary (vbuf s ! (F_IT (tabs s) ! nat (h + 3)))) /\<^sub>R 4"
        using val unfolding n4 four by (simp add: scaleR_add_right)
    qed
    show ?thesis
      unfolding Let_def h_def [symmetric] n_def [symmetric]
      using val sum_const_int_ivl [OF n1] p4 by blast
  qed
  with run show ?thesis by blast
qed

lemma int_lt4_cases: "0 \<le> (j::int) \<Longrightarrow> j < 4 \<Longrightarrow> j = 0 \<or> j = 1 \<or> j = 2 \<or> j = 3"
  by arith

lemma sum_int_4: "(\<Sum>j\<in>{0..<4::int}. f j) = f 0 + f 1 + f 2 + f 3"
  by (simp add: sum_int_ivl_split add.assoc)

theorem computeFacePoints_average_witness:
  "\<exists>s'. computeFacePoints 4 0 0 1 quadMachine = Inr s' \<and>
        primary (vbuf s' ! 4) = 3 \<and> varying (vbuf s' ! 4) = 25"
proof -
  have rows: "\<forall>i. 0 + 0 \<le> i \<and> i < 1 + 0 \<longrightarrow> faceRowOk quadMachine (4 + 0) (4 + 1) i"
  proof (intro allI impI)
    fix i :: int assume "0 + 0 \<le> i \<and> i < 1 + 0"
    then have i: "i = 0" by simp
    have "[0, 1, 2, 3::nat] ! nat j < 4" if "0 \<le> j" "j < 4" for j :: int
      using int_lt4_cases [OF that] by fastforce
    then show "faceRowOk quadMachine (4 + 0) (4 + 1) i"
      unfolding i by (fastforce simp: faceRowOk_def quadMachine_def quadTables_def)
  qed
  have dst: "(0::int) < 1 \<longrightarrow> 0 \<le> (4::int) + 0 \<and> 4 + 1 \<le> int (length (vbuf quadMachine))"
    by (simp add: quadMachine_def)
  from computeFacePoints_average [OF rows dst]
  obtain s' where run: "computeFacePoints 4 0 0 1 quadMachine = Inr s'"
    and v: "\<forall>i. 0 + 0 \<le> i \<and> i < 1 + 0 \<longrightarrow>
       (let h = F_ITa (tabs quadMachine) ! nat (2 * i); n = F_ITa (tabs quadMachine) ! nat (2 * i + 1);
            src = (\<lambda>j. vbuf quadMachine ! (F_IT (tabs quadMachine) ! nat (h + j)));
            v = vbuf s' ! nat (4 + i - 0)
        in primary v = (\<Sum>j\<in>{0..<n}. (1 / real_of_int n) *\<^sub>R primary (src j)) \<and>
           varying v = (\<Sum>j\<in>{0..<n}. (1 / real_of_int n) *\<^sub>R varying (src j)) \<and>
           (\<Sum>j\<in>{0..<n}. 1 / real_of_int n) = 1 \<and>
           (n = 4 \<longrightarrow> primary v =
              (primary (src 0) + primary (src 1) + primary (src 2) + primary (src 3)) /\<^sub>R 4))"
    by blast
  from v [rule_format, of 0]
  have "primary (vbuf s' ! 4) = 3 \<and> varying (vbuf s' ! 4) = 25"
    by (simp add: quadMachine_def quadTables_def Let_def sum_int_4)
  with run show ?thesis by blast
qed

subsection \<open>Edge-vertices kernel\<close>

lemma nth_upd_other: "0 \<le> k \<Longrightarrow> 0 \<le> d \<Longrightarrow> k \<noteq> d \<Longrightarrow> (xs[nat d := v]) ! nat k = xs ! nat k"
  by simp

lemma AddWithWeight_at_value:
  assumes "AddWithWeight_at d k w s = Inr s'" and "k \<noteq> d"
  shows "primary (vbuf s' ! nat d) = primary (vbuf s ! nat d) + w *\<^sub>R primary (vbuf s ! nat k)"
    and "varying (vbuf s' ! nat d) = varying (vbuf s ! nat d)"
    and "frame d s s'"
  using assms by (auto simp: AddWithWeight_at_Inr_iff AddWithWeight_def frame_def)

lemma AddVaryingWithWeight_at_value:
  assumes "AddVaryingWithWeight_at d k w s = Inr s'" and "k \<noteq> d"
  shows "varying (vbuf s' ! nat d) = varying (vbuf s ! nat d) + w *\<^sub>R varying (vbuf s ! nat k)"
    and "primary (vbuf s' ! nat d) = primary (vbuf s ! nat d)"
    and "frame d s s'"
  using assms by (auto simp: AddVaryingWithWeight_at_Inr_iff AddVaryingWithWeight_def frame_def)

lemma Clear_at_value:
  assumes "Clear_at d s = Inr s'"
  shows "primary (vbuf s' ! nat d) = 0" and "varying (vbuf s' ! nat d) = 0" and "frame d s s'"
  using assms by (auto simp: Clear_at_Inr_iff Clear_def frame_def)

lemma frame_src: "frame d s t \<Longrightarrow> 0 \<le> k \<Longrightarrow> k \<noteq> d \<Longrightarrow> vbuf t ! nat k = vbuf s ! nat k"
  by (simp add: frame_def)

lemma frame_tabs: "frame d s t \<Longrightarrow> tabs t = tabs s"
  by (simp add: frame_def)

lemma frame_len: "frame d s t \<Longrightarrow> length (vbuf t) = length (vbuf s)"
  by (simp add: frame_def)

lemma AddWithWeight_at_src: "AddWithWeight_at d k w s = Inr s' \<Longrightarrow> 0 \<le> k \<and> k < int (length (vbuf s))"
  by (simp add: AddWithWeight_at_Inr_iff)

lemma AddWithWeight_at_dst: "AddWithWeight_at d k w s = Inr s' \<Longrightarrow> 0 \<le> d \<and> d < int (length (vbuf s))"
  by (simp add: AddWithWeight_at_Inr_iff)

lemma edgePoint_value:
  assumes run: "edgePoint d i s = Inr s'"
    and e0: "e0 = E_IT (tabs s) ! nat (4 * i + 0)" and e1: "e1 = E_IT (tabs s) ! nat (4 * i + 1)"
    and e2: "e2 = E_IT (tabs s) ! nat (4 * i + 2)" and e3: "e3 = E_IT (tabs s) ! nat (4 * i + 3)"
    and wV: "wV = E_W (tabs s) ! nat (i * 2 + 0)" and wF: "wF = E_W (tabs s) ! nat (i * 2 + 1)"
    and ne: "e0 \<noteq> d" "e1 \<noteq> d" "e2 \<noteq> - 1 \<longrightarrow> e2 \<noteq> d \<and> e3 \<noteq> d"
  shows "primary (vbuf s' ! nat d) =
           (if e2 \<noteq> - 1 then
              wV *\<^sub>R primary (vbuf s ! nat e0) + wV *\<^sub>R primary (vbuf s ! nat e1) +
              wF *\<^sub>R primary (vbuf s ! nat e2) + wF *\<^sub>R primary (vbuf s ! nat e3)
            else wV *\<^sub>R primary (vbuf s ! nat e0) + wV *\<^sub>R primary (vbuf s ! nat e1))"
    and "varying (vbuf s' ! nat d) =
           (1 / 2) *\<^sub>R varying (vbuf s ! nat e0) + (1 / 2) *\<^sub>R varying (vbuf s ! nat e1)"
proof -
  from run obtain s0 x0 x1 x2 x3 xV s1 s2 s4 s5 where c: "Clear_at d s = Inr s0"
    and g0: "tbl_get (E_IT (tabs s0)) (4 * i + 0) = Inr x0"
    and g1: "tbl_get (E_IT (tabs s0)) (4 * i + 1) = Inr x1"
    and g2: "tbl_get (E_IT (tabs s0)) (4 * i + 2) = Inr x2"
    and g3: "tbl_get (E_IT (tabs s0)) (4 * i + 3) = Inr x3"
    and gV: "tbl_get (E_W (tabs s0)) (i * 2 + 0) = Inr xV"
    and a1': "AddWithWeight_at d x0 xV s0 = Inr s1"
    and a2': "AddWithWeight_at d x1 xV s1 = Inr s2"
    and mid': "(if x2 \<noteq> - 1 then
            bnd (tbl_get (E_W (tabs s2)) (i * 2 + 1)) (\<lambda>faceWeight.
            bnd (AddWithWeight_at d x2 faceWeight s2) (\<lambda>s3.
            AddWithWeight_at d x3 faceWeight s3))
          else Inr s2) = Inr s4"
    and v1': "AddVaryingWithWeight_at d x0 (1 / 2) s4 = Inr s5"
    and v2': "AddVaryingWithWeight_at d x1 (1 / 2) s5 = Inr s'"
    unfolding edgePoint_def bnd_Inr_iff by blast
  have t0: "tabs s0 = tabs s" using Clear_at_frame [OF c] by (rule frame_tabs)
  have x: "x0 = e0" "x1 = e1" "x2 = e2" "x3 = e3" "xV = wV"
    using g0 g1 g2 g3 gV unfolding t0 tbl_get_Inr_iff e0 e1 e2 e3 wV by simp_all
  note a1 = a1' [unfolded x] and a2 = a2' [unfolded x] and mid = mid' [unfolded x]
    and v1 = v1' [unfolded x] and v2 = v2' [unfolded x]
  note C = Clear_at_value [OF c]
  note A1 = AddWithWeight_at_value [OF a1 ne(1)]
  note A2 = AddWithWeight_at_value [OF a2 ne(2)]
  note V1 = AddVaryingWithWeight_at_value [OF v1 ne(1)]
  note V2 = AddVaryingWithWeight_at_value [OF v2 ne(2)]
  have p0: "0 \<le> e0" "0 \<le> e1" using AddWithWeight_at_src [OF a1] AddWithWeight_at_src [OF a2] by simp_all
  have f2: "frame d s s2" using C(3) A1(3) A2(3) by (blast intro: frame_trans)
  have P2: "primary (vbuf s2 ! nat d) = wV *\<^sub>R primary (vbuf s ! nat e0) + wV *\<^sub>R primary (vbuf s ! nat e1)"
    and V2': "varying (vbuf s2 ! nat d) = 0"
    using C A1 A2 p0 ne frame_src [OF C(3)] frame_src [OF frame_trans [OF C(3) A1(3)]]
    by simp_all
  have M: "primary (vbuf s4 ! nat d) =
           (if e2 \<noteq> - 1 then
              wV *\<^sub>R primary (vbuf s ! nat e0) + wV *\<^sub>R primary (vbuf s ! nat e1) +
              wF *\<^sub>R primary (vbuf s ! nat e2) + wF *\<^sub>R primary (vbuf s ! nat e3)
            else wV *\<^sub>R primary (vbuf s ! nat e0) + wV *\<^sub>R primary (vbuf s ! nat e1)) \<and>
           varying (vbuf s4 ! nat d) = 0 \<and> frame d s s4"
  proof (cases "e2 \<noteq> - 1")
    case True
    with mid obtain s3 where a3: "AddWithWeight_at d e2 wF s2 = Inr s3"
      and a4: "AddWithWeight_at d e3 wF s3 = Inr s4"
      using frame_tabs [OF f2] by (auto simp: bnd_Inr_iff tbl_get_Inr_iff wF)
    from True ne have n2: "e2 \<noteq> d" "e3 \<noteq> d" by simp_all
    note A3 = AddWithWeight_at_value [OF a3 n2(1)]
    note A4 = AddWithWeight_at_value [OF a4 n2(2)]
    have p2: "0 \<le> e2" "0 \<le> e3" using AddWithWeight_at_src [OF a3] AddWithWeight_at_src [OF a4] by simp_all
    have f3: "frame d s s3" using f2 A3(3) by (rule frame_trans)
    have f4: "frame d s s4" using f3 A4(3) by (rule frame_trans)
    show ?thesis
      using True A3 A4 P2 V2' f4 frame_src [OF f2 p2(1) n2(1)] frame_src [OF f3 p2(2) n2(2)]
      by simp
  next
    case False
    with mid have "s4 = s2" by simp
    with False P2 V2' f2 show ?thesis by simp
  qed
  then have f4: "frame d s s4" by simp
  have f5: "frame d s s5" using f4 V1(3) by (rule frame_trans)
  show "primary (vbuf s' ! nat d) =
           (if e2 \<noteq> - 1 then
              wV *\<^sub>R primary (vbuf s ! nat e0) + wV *\<^sub>R primary (vbuf s ! nat e1) +
              wF *\<^sub>R primary (vbuf s ! nat e2) + wF *\<^sub>R primary (vbuf s ! nat e3)
            else wV *\<^sub>R primary (vbuf s ! nat e0) + wV *\<^sub>R primary (vbuf s ! nat e1))"
    using M V1(2) V2(2) by simp
  show "varying (vbuf s' ! nat d) =
           (1 / 2) *\<^sub>R varying (vbuf s ! nat e0) + (1 / 2) *\<^sub>R varying (vbuf s ! nat e1)"
    using M V1(1) V2(1) frame_src [OF f4 p0(1) ne(1)] frame_src [OF f5 p0(2) ne(2)] by simp
qed

lemma edgePoint_frames: "body_frames edgePoint"
proof -
  have "0 \<le> d \<and> d < int (length (vbuf t)) \<and> frame d t t'" if run: "edgePoint d i t = Inr t'" for d i t t'
  proof -
    from run obtain s0 s1 s2 s4 s5 e0 e1 e2 e3 wV where c: "Clear_at d t = Inr s0"
      and a1: "AddWithWeight_at d e0 wV s0 = Inr s1"
      and a2: "AddWithWeight_at d e1 wV s1 = Inr s2"
      and mid: "(if e2 \<noteq> - 1 then
            bnd (tbl_get (E_W (tabs s2)) (i * 2 + 1)) (\<lambda>faceWeight.
            bnd (AddWithWeight_at d e2 faceWeight s2) (\<lambda>s3.
            AddWithWeight_at d e3 faceWeight s3))
          else Inr s2) = Inr s4"
      and v1: "AddVaryingWithWeight_at d e0 (1 / 2) s4 = Inr s5"
      and v2: "AddVaryingWithWeight_at d e1 (1 / 2) s5 = Inr t'"
      unfolding edgePoint_def bnd_Inr_iff by blast
    have "frame d s2 s4"
      using mid by (auto simp: bnd_Inr_iff frame_refl split: if_splits
          intro: frame_trans dest!: AddWithWeight_at_frame)
    then have "frame d t t'"
      using Clear_at_frame [OF c] AddWithWeight_at_frame [OF a1] AddWithWeight_at_frame [OF a2]
        AddVaryingWithWeight_at_frame [OF v1] AddVaryingWithWeight_at_frame [OF v2]
      by (blast intro: frame_trans)
    with c show ?thesis by (simp add: Clear_at_Inr_iff)
  qed
  then show ?thesis unfolding body_frames_def by blast
qed

lemma kernelLoop_row:
  assumes fr: "body_frames body" and run: "kernelLoop body ib e db s = Inr s'"
    and row: "ib \<le> i" "i < e"
  shows "\<exists>t t'. body (db + (i - ib)) i t = Inr t' \<and> agrees db (db + (i - ib)) s t \<and>
           vbuf s' ! nat (db + (i - ib)) = vbuf t' ! nat (db + (i - ib))"
  using kernelLoop_value [OF fr run row] unfolding agrees_def by blast

lemma agrees_src: "agrees lo hi s t \<Longrightarrow> 0 \<le> k \<Longrightarrow> \<not> (lo \<le> k \<and> k < hi) \<Longrightarrow> vbuf t ! nat k = vbuf s ! nat k"
  by (simp add: agrees_def)

lemma agrees_tabs: "agrees lo hi s t \<Longrightarrow> tabs t = tabs s"
  by (simp add: agrees_def)

lemma agrees_len: "agrees lo hi s t \<Longrightarrow> length (vbuf t) = length (vbuf s)"
  by (simp add: agrees_def)

lemma edgePoint_reads:
  assumes run: "edgePoint d i s = Inr s'"
  shows "0 \<le> i \<and> 4 * i + 3 < int (length (E_IT (tabs s))) \<and>
         0 \<le> E_IT (tabs s) ! nat (4 * i + 0) \<and> 0 \<le> E_IT (tabs s) ! nat (4 * i + 1) \<and>
         (E_IT (tabs s) ! nat (4 * i + 2) \<noteq> - 1 \<longrightarrow>
            0 \<le> E_IT (tabs s) ! nat (4 * i + 2) \<and> 0 \<le> E_IT (tabs s) ! nat (4 * i + 3))"
proof -
  from run obtain s0 x0 x1 x2 x3 xV s1 s2 s4 where c: "Clear_at d s = Inr s0"
    and g0: "tbl_get (E_IT (tabs s0)) (4 * i + 0) = Inr x0"
    and g1: "tbl_get (E_IT (tabs s0)) (4 * i + 1) = Inr x1"
    and g2: "tbl_get (E_IT (tabs s0)) (4 * i + 2) = Inr x2"
    and g3: "tbl_get (E_IT (tabs s0)) (4 * i + 3) = Inr x3"
    and a1: "AddWithWeight_at d x0 xV s0 = Inr s1"
    and a2: "AddWithWeight_at d x1 xV s1 = Inr s2"
    and mid: "(if x2 \<noteq> - 1 then
            bnd (tbl_get (E_W (tabs s2)) (i * 2 + 1)) (\<lambda>faceWeight.
            bnd (AddWithWeight_at d x2 faceWeight s2) (\<lambda>s3.
            AddWithWeight_at d x3 faceWeight s3))
          else Inr s2) = Inr s4"
    unfolding edgePoint_def bnd_Inr_iff by blast
  have t0: "tabs s0 = tabs s" using Clear_at_frame [OF c] by (rule frame_tabs)
  have x: "x0 = E_IT (tabs s) ! nat (4 * i + 0)" "x1 = E_IT (tabs s) ! nat (4 * i + 1)"
    "x2 = E_IT (tabs s) ! nat (4 * i + 2)" "x3 = E_IT (tabs s) ! nat (4 * i + 3)"
    and b: "0 \<le> 4 * i + 0" "4 * i + 3 < int (length (E_IT (tabs s)))"
    using g0 g1 g2 g3 unfolding t0 tbl_get_Inr_iff by simp_all
  have "x2 \<noteq> - 1 \<longrightarrow> 0 \<le> x2 \<and> 0 \<le> x3"
    using mid by (auto simp: bnd_Inr_iff AddWithWeight_at_Inr_iff)
  then show ?thesis
    using b AddWithWeight_at_src [OF a1] AddWithWeight_at_src [OF a2] unfolding x by simp
qed

lemma computeEdgePoints_value:
  assumes run: "computeEdgePoints offset tableOffset start en s = Inr s'"
    and row: "start + tableOffset \<le> i" "i < en + tableOffset"
    and e0: "e0 = E_IT (tabs s) ! nat (4 * i + 0)" and e1: "e1 = E_IT (tabs s) ! nat (4 * i + 1)"
    and e2: "e2 = E_IT (tabs s) ! nat (4 * i + 2)" and e3: "e3 = E_IT (tabs s) ! nat (4 * i + 3)"
    and wV: "wV = E_W (tabs s) ! nat (i * 2 + 0)" and wF: "wF = E_W (tabs s) ! nat (i * 2 + 1)"
    and out: "\<not> (offset + start \<le> e0 \<and> e0 < offset + en)" "\<not> (offset + start \<le> e1 \<and> e1 < offset + en)"
      "e2 \<noteq> - 1 \<longrightarrow> \<not> (offset + start \<le> e2 \<and> e2 < offset + en) \<and> \<not> (offset + start \<le> e3 \<and> e3 < offset + en)"
  shows "primary (vbuf s' ! nat (offset + i - tableOffset)) =
           (if e2 \<noteq> - 1 then
              wV *\<^sub>R primary (vbuf s ! nat e0) + wV *\<^sub>R primary (vbuf s ! nat e1) +
              wF *\<^sub>R primary (vbuf s ! nat e2) + wF *\<^sub>R primary (vbuf s ! nat e3)
            else wV *\<^sub>R primary (vbuf s ! nat e0) + wV *\<^sub>R primary (vbuf s ! nat e1)) \<and>
         varying (vbuf s' ! nat (offset + i - tableOffset)) =
           (1 / 2) *\<^sub>R varying (vbuf s ! nat e0) + (1 / 2) *\<^sub>R varying (vbuf s ! nat e1)"
proof -
  define d where "d = offset + start + (i - (start + tableOffset))"
  have d: "offset + i - tableOffset = d" by (simp add: d_def)
  from kernelLoop_row [OF edgePoint_frames run [unfolded computeEdgePoints_def] row]
  obtain t t' where b: "edgePoint d i t = Inr t'"
    and ag: "agrees (offset + start) d s t"
    and v: "vbuf s' ! nat d = vbuf t' ! nat d"
    unfolding d_def by blast
  have tt: "tabs t = tabs s" using ag by (rule agrees_tabs)
  have dr: "offset + start \<le> d" "d < offset + en" using row by (simp_all add: d_def)
  note rd = edgePoint_reads [OF b, unfolded tt, folded e0 e1 e2 e3]
  have ne: "e0 \<noteq> d" "e1 \<noteq> d" "e2 \<noteq> - 1 \<longrightarrow> e2 \<noteq> d \<and> e3 \<noteq> d"
    using out dr by auto
  have same: "vbuf t ! nat e0 = vbuf s ! nat e0" "vbuf t ! nat e1 = vbuf s ! nat e1"
    "e2 \<noteq> - 1 \<longrightarrow> vbuf t ! nat e2 = vbuf s ! nat e2 \<and> vbuf t ! nat e3 = vbuf s ! nat e3"
    using rd out dr by (auto intro!: agrees_src [OF ag])
  note val = edgePoint_value [OF b e0 [folded tt] e1 [folded tt] e2 [folded tt] e3 [folded tt]
      wV [folded tt] wF [folded tt] ne]
  show ?thesis
    unfolding d v using val same by auto
qed

lemma edgePoint_succeeds:
  assumes ok: "edgeRowOk s lo hi i" and d: "0 \<le> d" "d < int (length (vbuf s))"
    and t: "tabs t = tabs s" "length (vbuf t) = length (vbuf s)"
  shows "\<exists>t'. edgePoint d i t = Inr t'"
  using ok d t
  by (simp add: edgeRowOk_def srcOk_def edgePoint_def tbl_get_def Clear_at_def
      AddWithWeight_at_def AddVaryingWithWeight_at_def)

lemma kernel_succeeds:
  assumes fr: "body_frames body"
    and ok: "\<And>i t. start + tableOffset \<le> i \<Longrightarrow> i < en + tableOffset \<Longrightarrow>
               tabs t = tabs s \<Longrightarrow> length (vbuf t) = length (vbuf s) \<Longrightarrow>
               \<exists>t'. body (offset + start + (i - (start + tableOffset))) i t = Inr t'"
  shows "\<exists>s'. kernelLoop body (start + tableOffset) (en + tableOffset) (offset + start) s = Inr s'"
proof -
  have "\<exists>t'. body (offset + start + (i - (start + tableOffset))) i t = Inr t'"
    if "start + tableOffset \<le> i" "i < en + tableOffset"
      "agrees (offset + start) (offset + start + (en + tableOffset - (start + tableOffset))) s t"
    for i t
    using ok [OF that(1,2)] that(3) by (simp add: agrees_def)
  from kernelLoop_succeeds [where body = body and ib = "start + tableOffset"
      and e = "en + tableOffset" and db = "offset + start" and s = s
      and i = "start + tableOffset" and t = s, OF fr this]
  show ?thesis by (simp add: agrees_refl)
qed

lemma computeEdgePoints_succeeds:
  assumes rows: "\<forall>i. start + tableOffset \<le> i \<and> i < en + tableOffset \<longrightarrow>
                   edgeRowOk s (offset + start) (offset + en) i"
    and dst: "start < en \<longrightarrow> 0 \<le> offset + start \<and> offset + en \<le> int (length (vbuf s))"
  shows "\<exists>s'. computeEdgePoints offset tableOffset start en s = Inr s'"
  unfolding computeEdgePoints_def
proof (rule kernel_succeeds [OF edgePoint_frames])
  fix i and t :: "'a machine"
  assume row: "start + tableOffset \<le> i" "i < en + tableOffset"
    and t: "tabs t = tabs s" "length (vbuf t) = length (vbuf s)"
  have r: "edgeRowOk s (offset + start) (offset + en) i" using rows row by simp
  have "start < en" using row by simp
  with dst row have d: "0 \<le> offset + start + (i - (start + tableOffset))"
    "offset + start + (i - (start + tableOffset)) < int (length (vbuf s))" by auto
  show "\<exists>t'. edgePoint (offset + start + (i - (start + tableOffset))) i t = Inr t'"
    by (rule edgePoint_succeeds [OF r d t])
qed

text \<open>
  Claim C3. When every row of the edge table in the range is well formed,
  \<open>computeEdgePoints\<close> returns, and the record of each edge-point holds, in its
  primary attribute, the endpoints \<open>e0\<close> and \<open>e1\<close> with weight \<open>wVertex\<close> each and,
  exactly when \<open>e2\<close> is not \<open>-1\<close>, \<open>e2\<close> and \<open>e3\<close> with weight \<open>wFace\<close> each,
  whatever the record held before. For \<open>e2 = -1\<close> that is \<open>2 * wVertex\<close> times the
  midpoint of the endpoints, and the midpoint itself when \<open>wVertex\<close> is one half; a row
  with \<open>e2 = -1\<close> is well formed whatever its \<open>e3\<close> and without a face weight, so neither
  is read. The varying attribute is the midpoint of the endpoints in every case.
\<close>

theorem computeEdgePoints_rule:
  assumes rows: "\<forall>i. start + tableOffset \<le> i \<and> i < en + tableOffset \<longrightarrow>
                   edgeRowOk s (offset + start) (offset + en) i"
    and dst: "start < en \<longrightarrow> 0 \<le> offset + start \<and> offset + en \<le> int (length (vbuf s))"
  shows "\<exists>s'. computeEdgePoints offset tableOffset start en s = Inr s' \<and>
    (\<forall>i. start + tableOffset \<le> i \<and> i < en + tableOffset \<longrightarrow>
       (let e0 = E_IT (tabs s) ! nat (4 * i + 0); e1 = E_IT (tabs s) ! nat (4 * i + 1);
            e2 = E_IT (tabs s) ! nat (4 * i + 2); e3 = E_IT (tabs s) ! nat (4 * i + 3);
            wVertex = E_W (tabs s) ! nat (i * 2 + 0); wFace = E_W (tabs s) ! nat (i * 2 + 1);
            src = (\<lambda>k. vbuf s ! nat k);
            v = vbuf s' ! nat (offset + i - tableOffset)
        in (e2 \<noteq> - 1 \<longrightarrow> primary v =
              wVertex *\<^sub>R primary (src e0) + wVertex *\<^sub>R primary (src e1) +
              wFace *\<^sub>R primary (src e2) + wFace *\<^sub>R primary (src e3)) \<and>
           (e2 = - 1 \<longrightarrow> primary v = wVertex *\<^sub>R primary (src e0) + wVertex *\<^sub>R primary (src e1)) \<and>
           (e2 = - 1 \<longrightarrow> primary v = (2 * wVertex) *\<^sub>R ((1 / 2) *\<^sub>R (primary (src e0) + primary (src e1)))) \<and>
           (e2 = - 1 \<and> wVertex = 1 / 2 \<longrightarrow>
              primary v = (1 / 2) *\<^sub>R primary (src e0) + (1 / 2) *\<^sub>R primary (src e1)) \<and>
           varying v = (1 / 2) *\<^sub>R varying (src e0) + (1 / 2) *\<^sub>R varying (src e1)))"
proof -
  from computeEdgePoints_succeeds [OF rows dst]
  obtain s' where run: "computeEdgePoints offset tableOffset start en s = Inr s'" by blast
  have "let e0 = E_IT (tabs s) ! nat (4 * i + 0); e1 = E_IT (tabs s) ! nat (4 * i + 1);
            e2 = E_IT (tabs s) ! nat (4 * i + 2); e3 = E_IT (tabs s) ! nat (4 * i + 3);
            wVertex = E_W (tabs s) ! nat (i * 2 + 0); wFace = E_W (tabs s) ! nat (i * 2 + 1);
            src = (\<lambda>k. vbuf s ! nat k);
            v = vbuf s' ! nat (offset + i - tableOffset)
        in (e2 \<noteq> - 1 \<longrightarrow> primary v =
              wVertex *\<^sub>R primary (src e0) + wVertex *\<^sub>R primary (src e1) +
              wFace *\<^sub>R primary (src e2) + wFace *\<^sub>R primary (src e3)) \<and>
           (e2 = - 1 \<longrightarrow> primary v = wVertex *\<^sub>R primary (src e0) + wVertex *\<^sub>R primary (src e1)) \<and>
           (e2 = - 1 \<longrightarrow> primary v = (2 * wVertex) *\<^sub>R ((1 / 2) *\<^sub>R (primary (src e0) + primary (src e1)))) \<and>
           (e2 = - 1 \<and> wVertex = 1 / 2 \<longrightarrow>
              primary v = (1 / 2) *\<^sub>R primary (src e0) + (1 / 2) *\<^sub>R primary (src e1)) \<and>
           varying v = (1 / 2) *\<^sub>R varying (src e0) + (1 / 2) *\<^sub>R varying (src e1)"
    if row: "start + tableOffset \<le> i" "i < en + tableOffset" for i
  proof -
    have r: "edgeRowOk s (offset + start) (offset + en) i" using rows row by simp
    then have out:
      "\<not> (offset + start \<le> E_IT (tabs s) ! nat (4 * i + 0) \<and> E_IT (tabs s) ! nat (4 * i + 0) < offset + en)"
      "\<not> (offset + start \<le> E_IT (tabs s) ! nat (4 * i + 1) \<and> E_IT (tabs s) ! nat (4 * i + 1) < offset + en)"
      "E_IT (tabs s) ! nat (4 * i + 2) \<noteq> - 1 \<longrightarrow>
         \<not> (offset + start \<le> E_IT (tabs s) ! nat (4 * i + 2) \<and> E_IT (tabs s) ! nat (4 * i + 2) < offset + en) \<and>
         \<not> (offset + start \<le> E_IT (tabs s) ! nat (4 * i + 3) \<and> E_IT (tabs s) ! nat (4 * i + 3) < offset + en)"
      unfolding edgeRowOk_def srcOk_def by blast+
    define e0 where "e0 = E_IT (tabs s) ! nat (4 * i + 0)"
    define e1 where "e1 = E_IT (tabs s) ! nat (4 * i + 1)"
    define e2 where "e2 = E_IT (tabs s) ! nat (4 * i + 2)"
    define e3 where "e3 = E_IT (tabs s) ! nat (4 * i + 3)"
    define wV where "wV = E_W (tabs s) ! nat (i * 2 + 0)"
    define wF where "wF = E_W (tabs s) ! nat (i * 2 + 1)"
    define v where "v = vbuf s' ! nat (offset + i - tableOffset)"
    note val = computeEdgePoints_value [OF run row e0_def e1_def e2_def e3_def wV_def wF_def
        out [folded e0_def e1_def e2_def e3_def], folded v_def]
    have c1: "e2 \<noteq> - 1 \<longrightarrow> primary v =
        wV *\<^sub>R primary (vbuf s ! nat e0) + wV *\<^sub>R primary (vbuf s ! nat e1) +
        wF *\<^sub>R primary (vbuf s ! nat e2) + wF *\<^sub>R primary (vbuf s ! nat e3)"
      using val by simp
    have c2: "e2 = - 1 \<longrightarrow> primary v =
        wV *\<^sub>R primary (vbuf s ! nat e0) + wV *\<^sub>R primary (vbuf s ! nat e1)"
      using val by simp
    have half: "(2 * w) *\<^sub>R ((1 / 2) *\<^sub>R (a + b)) = w *\<^sub>R a + w *\<^sub>R b" for w :: real and a b :: 'a
      by (simp add: scaleR_add_right)
    have c3: "e2 = - 1 \<longrightarrow> primary v =
        (2 * wV) *\<^sub>R ((1 / 2) *\<^sub>R (primary (vbuf s ! nat e0) + primary (vbuf s ! nat e1)))"
      using c2 unfolding half .
    have c4: "e2 = - 1 \<and> wV = 1 / 2 \<longrightarrow> primary v =
        (1 / 2) *\<^sub>R primary (vbuf s ! nat e0) + (1 / 2) *\<^sub>R primary (vbuf s ! nat e1)"
    proof (intro impI, elim conjE)
      assume a: "e2 = - 1" and b: "wV = 1 / 2"
      from c2 a have "primary v =
        wV *\<^sub>R primary (vbuf s ! nat e0) + wV *\<^sub>R primary (vbuf s ! nat e1)" by blast
      then show "primary v =
        (1 / 2) *\<^sub>R primary (vbuf s ! nat e0) + (1 / 2) *\<^sub>R primary (vbuf s ! nat e1)"
        unfolding b .
    qed
    have c5: "varying v = (1 / 2) *\<^sub>R varying (vbuf s ! nat e0) + (1 / 2) *\<^sub>R varying (vbuf s ! nat e1)"
      using val by blast
    show ?thesis
      unfolding Let_def
      using c1 c2 c3 c4 c5 unfolding e0_def e1_def e2_def e3_def wV_def wF_def v_def
      by (intro conjI)
  qed
  with run show ?thesis by blast
qed

lemma only_oob_Inr: "only_oob (Inr x)"
  by (simp add: only_oob_def)

lemma only_oob_bnd: "only_oob m \<Longrightarrow> (\<And>x. only_oob (f x)) \<Longrightarrow> only_oob (bnd m f)"
  by (cases m) (simp_all add: only_oob_def)

lemma only_oob_tbl_get: "only_oob (tbl_get t k)"
  by (simp add: only_oob_def tbl_get_def)

lemma only_oob_Clear_at: "only_oob (Clear_at d s)"
  unfolding Clear_at_def by (intro only_oob_bnd only_oob_tbl_get only_oob_Inr)

lemma only_oob_AddWithWeight_at: "only_oob (AddWithWeight_at d k w s)"
  unfolding AddWithWeight_at_def by (intro only_oob_bnd only_oob_tbl_get only_oob_Inr)

lemma only_oob_AddVaryingWithWeight_at: "only_oob (AddVaryingWithWeight_at d k w s)"
  unfolding AddVaryingWithWeight_at_def by (intro only_oob_bnd only_oob_tbl_get only_oob_Inr)

lemma only_oob_if: "only_oob a \<Longrightarrow> only_oob b \<Longrightarrow> only_oob (if c then a else b)"
  by simp

lemma only_oob_edgePoint: "only_oob (edgePoint d i s)"
  unfolding edgePoint_def
  by (intro only_oob_bnd only_oob_if only_oob_tbl_get only_oob_Inr only_oob_Clear_at
      only_oob_AddWithWeight_at only_oob_AddVaryingWithWeight_at)

lemma only_oob_kernelLoop:
  assumes "\<And>d i t. only_oob (body d i t)"
  shows "only_oob (kernelLoop body i e d s)"
proof (induction "nat (e - i)" arbitrary: i d s)
  case 0
  then show ?case by (simp add: kernelLoop.simps [of body i e d s] only_oob_def)
next
  case (Suc k)
  then have lt: "i < e" by simp
  have k: "k = nat (e - (i + 1))" using Suc.hyps(2) by simp
  show ?case
  proof (cases "body d i s")
    case (Inl err)
    with assms [of d i s] lt show ?thesis
      by (simp add: kernelLoop.simps [of body i e d s] only_oob_def)
  next
    case (Inr t)
    with Suc.hyps(1) [OF k, of "d + 1" t] lt show ?thesis
      by (simp add: kernelLoop.simps [of body i e d s])
  qed
qed

lemma computeEdgePoints_short_row:
  assumes row: "start + tableOffset \<le> i" "i < en + tableOffset"
    and short: "\<not> (0 \<le> i \<and> 4 * i + 3 < int (length (E_IT (tabs s))))"
  shows "computeEdgePoints offset tableOffset start en s = Inl OutOfBounds"
proof (cases "computeEdgePoints offset tableOffset start en s")
  case (Inl err)
  moreover have "only_oob (computeEdgePoints offset tableOffset start en s)"
    unfolding computeEdgePoints_def by (rule only_oob_kernelLoop) (rule only_oob_edgePoint)
  ultimately show ?thesis by (simp add: only_oob_def)
next
  case (Inr s')
  from kernelLoop_row [OF edgePoint_frames Inr [unfolded computeEdgePoints_def] row]
  obtain t t' where b: "edgePoint (offset + start + (i - (start + tableOffset))) i t = Inr t'"
    and ag: "agrees (offset + start) (offset + start + (i - (start + tableOffset))) s t"
    by blast
  from edgePoint_reads [OF b] agrees_tabs [OF ag] short show ?thesis by simp
qed

lemma int_lt2_cases: "0 \<le> (i::int) \<Longrightarrow> i < 2 \<Longrightarrow> i = 0 \<or> i = 1"
  by arith

theorem computeEdgePoints_rule_witness:
  "\<exists>s'. computeEdgePoints 4 0 0 2 edgeMachine = Inr s' \<and>
        primary (vbuf s' ! 4) = 4 \<and> varying (vbuf s' ! 4) = 20 \<and>
        primary (vbuf s' ! 5) = 2 \<and> varying (vbuf s' ! 5) = 20"
proof -
  have r0: "edgeRowOk edgeMachine 4 6 0" and r1: "edgeRowOk edgeMachine 4 6 1"
    by (simp_all add: edgeRowOk_def srcOk_def edgeMachine_def edgeTables_def)
  have rows: "\<forall>i. 0 + 0 \<le> i \<and> i < 2 + 0 \<longrightarrow> edgeRowOk edgeMachine (4 + 0) (4 + 2) i"
    using r0 r1 int_lt2_cases by fastforce
  have dst: "(0::int) < 2 \<longrightarrow> 0 \<le> (4::int) + 0 \<and> 4 + 2 \<le> int (length (vbuf edgeMachine))"
    by (simp add: edgeMachine_def)
  from computeEdgePoints_rule [OF rows dst]
  obtain s' where run: "computeEdgePoints 4 0 0 2 edgeMachine = Inr s'"
    and v: "\<And>i. 0 + 0 \<le> i \<and> i < 2 + 0 \<Longrightarrow>
       (let e0 = E_IT (tabs edgeMachine) ! nat (4 * i + 0); e1 = E_IT (tabs edgeMachine) ! nat (4 * i + 1);
            e2 = E_IT (tabs edgeMachine) ! nat (4 * i + 2); e3 = E_IT (tabs edgeMachine) ! nat (4 * i + 3);
            wVertex = E_W (tabs edgeMachine) ! nat (i * 2 + 0); wFace = E_W (tabs edgeMachine) ! nat (i * 2 + 1);
            src = (\<lambda>k. vbuf edgeMachine ! nat k);
            v = vbuf s' ! nat (4 + i - 0)
        in (e2 \<noteq> - 1 \<longrightarrow> primary v =
              wVertex *\<^sub>R primary (src e0) + wVertex *\<^sub>R primary (src e1) +
              wFace *\<^sub>R primary (src e2) + wFace *\<^sub>R primary (src e3)) \<and>
           (e2 = - 1 \<longrightarrow> primary v = wVertex *\<^sub>R primary (src e0) + wVertex *\<^sub>R primary (src e1)) \<and>
           (e2 = - 1 \<longrightarrow> primary v = (2 * wVertex) *\<^sub>R ((1 / 2) *\<^sub>R (primary (src e0) + primary (src e1)))) \<and>
           (e2 = - 1 \<and> wVertex = 1 / 2 \<longrightarrow>
              primary v = (1 / 2) *\<^sub>R primary (src e0) + (1 / 2) *\<^sub>R primary (src e1)) \<and>
           varying v = (1 / 2) *\<^sub>R varying (src e0) + (1 / 2) *\<^sub>R varying (src e1))"
    by blast
  have "primary (vbuf s' ! 4) = 4 \<and> varying (vbuf s' ! 4) = 20"
    using v [of 0] by (simp add: edgeMachine_def edgeTables_def Let_def)
  moreover have "primary (vbuf s' ! 5) = 2 \<and> varying (vbuf s' ! 5) = 20"
    using v [of 1] by (simp add: edgeMachine_def edgeTables_def Let_def)
  ultimately show ?thesis using run by blast
qed

lemma edgePoint_boundary_succeeds:
  assumes "0 \<le> i" "4 * i + 3 < int (length (E_IT (tabs s)))" "i * 2 < int (length (E_W (tabs s)))"
    "E_IT (tabs s) ! nat (4 * i + 2) = - 1"
    "0 \<le> E_IT (tabs s) ! nat (4 * i + 0)" "E_IT (tabs s) ! nat (4 * i + 0) < int (length (vbuf s))"
    "0 \<le> E_IT (tabs s) ! nat (4 * i + 1)" "E_IT (tabs s) ! nat (4 * i + 1) < int (length (vbuf s))"
    "0 \<le> d" "d < int (length (vbuf s))"
  shows "\<exists>s'. edgePoint d i s = Inr s'"
proof -
  have "edgeRowOk s 0 0 i" using assms by (simp add: edgeRowOk_def srcOk_def)
  from edgePoint_succeeds [OF this assms(9,10) refl refl] show ?thesis .
qed

text \<open>
  Claim C10. All four entries of a row of the edge index table are loaded before the
  test on \<open>e2\<close>: when any row in the range lacks one of its four entries, whatever its
  \<open>e2\<close>, the kernel reads outside the table. What the branch for \<open>e2 = -1\<close> leaves out is
  the face weight and the records at \<open>e2\<close> and \<open>e3\<close>: a row with \<open>e2 = -1\<close> whose four
  entries, vertex weight and endpoints are there is processed whatever its \<open>e3\<close> is, and
  without a face weight.
\<close>

theorem computeEdgePoints_four_entries:
  "(start + tableOffset \<le> i \<and> i < en + tableOffset \<and>
    \<not> (0 \<le> i \<and> 4 * i + 3 < int (length (E_IT (tabs s)))) \<longrightarrow>
    computeEdgePoints offset tableOffset start en s = Inl OutOfBounds) \<and>
   (0 \<le> i \<and> 4 * i + 3 < int (length (E_IT (tabs s))) \<and> i * 2 < int (length (E_W (tabs s))) \<and>
    E_IT (tabs s) ! nat (4 * i + 2) = - 1 \<and>
    0 \<le> E_IT (tabs s) ! nat (4 * i + 0) \<and> E_IT (tabs s) ! nat (4 * i + 0) < int (length (vbuf s)) \<and>
    0 \<le> E_IT (tabs s) ! nat (4 * i + 1) \<and> E_IT (tabs s) ! nat (4 * i + 1) < int (length (vbuf s)) \<and>
    0 \<le> d \<and> d < int (length (vbuf s)) \<longrightarrow>
    (\<exists>s'. edgePoint d i s = Inr s'))"
  using computeEdgePoints_short_row [of start tableOffset i en s offset]
    edgePoint_boundary_succeeds [of i s d]
  by blast

theorem computeEdgePoints_four_entries_witness:
  "computeEdgePoints 2 0 0 1 shortEdgeMachine = Inl OutOfBounds \<and>
   (\<exists>s'. edgePoint 5 1 edgeMachine = Inr s')"
proof
  have "\<not> (0 \<le> (0::int) \<and> 4 * 0 + 3 < int (length (E_IT (tabs shortEdgeMachine))))"
    by (simp add: shortEdgeMachine_def edgeTables_def)
  with computeEdgePoints_four_entries [of 0 0 0 1 shortEdgeMachine 2]
  show "computeEdgePoints 2 0 0 1 shortEdgeMachine = Inl OutOfBounds" by simp
next
  from computeEdgePoints_four_entries [of _ _ 1 _ edgeMachine _ 5]
  show "\<exists>s'. edgePoint 5 1 edgeMachine = Inr s'"
    by (simp add: edgeMachine_def edgeTables_def)
qed

subsection \<open>Vertex-vertices kernel A\<close>

lemma vertexPointA_split:
  assumes run: "vertexPointA pass d i s = Inr s'"
    and n: "n = V_ITa (tabs s) ! nat (5 * i + 1)" and p: "p = V_ITa (tabs s) ! nat (5 * i + 2)"
    and e0: "eidx0 = V_ITa (tabs s) ! nat (5 * i + 3)" and e1: "eidx1 = V_ITa (tabs s) ! nat (5 * i + 4)"
    and w: "w = V_W (tabs s) ! nat i"
    and w0: "weight0 = (if pass then w else to_float (1 - w))"
    and wt: "weight = (if weight0 > 0 \<and> weight0 < 1 \<and> n > 0 then to_float (1 - weight0) else weight0)"
  shows "\<exists>s0 s3. (if \<not> pass then Clear_at d s else Inr s) = Inr s0 \<and>
           (if eidx0 = - 1 \<or> (pass = False \<and> n = - 1) then
                AddWithWeight_at d p weight s0
              else
                bnd (AddWithWeight_at d p (to_float (weight * 0.75)) s0) (\<lambda>s1.
                bnd (AddWithWeight_at d eidx0 (to_float (weight * 0.125)) s1) (\<lambda>s2.
                AddWithWeight_at d eidx1 (to_float (weight * 0.125)) s2))) = Inr s3 \<and>
           AddVaryingWithWeight_at d p 1 s3 = Inr s' \<and>
           0 \<le> i \<and> 5 * i + 4 < int (length (V_ITa (tabs s))) \<and> i < int (length (V_W (tabs s)))"
proof -
  from run obtain s0 xn xp x0 x1 xw where c: "(if \<not> pass then Clear_at d s else Inr s) = Inr s0"
    and g: "tbl_get (V_ITa (tabs s0)) (5 * i + 1) = Inr xn"
      "tbl_get (V_ITa (tabs s0)) (5 * i + 2) = Inr xp"
      "tbl_get (V_ITa (tabs s0)) (5 * i + 3) = Inr x0"
      "tbl_get (V_ITa (tabs s0)) (5 * i + 4) = Inr x1"
      "tbl_get (V_W (tabs s0)) i = Inr xw"
    and r: "(let weight0 = (if pass then xw else to_float (1 - xw));
              weight = (if weight0 > 0 \<and> weight0 < 1 \<and> xn > 0 then to_float (1 - weight0) else weight0)
          in bnd (if x0 = - 1 \<or> (pass = False \<and> xn = - 1) then
                AddWithWeight_at d xp weight s0
              else
                bnd (AddWithWeight_at d xp (to_float (weight * 0.75)) s0) (\<lambda>s1.
                bnd (AddWithWeight_at d x0 (to_float (weight * 0.125)) s1) (\<lambda>s2.
                AddWithWeight_at d x1 (to_float (weight * 0.125)) s2))) (\<lambda>s3.
             AddVaryingWithWeight_at d xp 1 s3)) = Inr s'"
    unfolding vertexPointA_def bnd_Inr_iff by blast
  have f0: "frame d s s0" using c by (auto split: if_splits simp: frame_refl dest: Clear_at_frame)
  have t0: "tabs s0 = tabs s" using f0 by (rule frame_tabs)
  have x: "xn = n" "xp = p" "x0 = eidx0" "x1 = eidx1" "xw = w"
    and b: "0 \<le> i" "5 * i + 4 < int (length (V_ITa (tabs s)))" "i < int (length (V_W (tabs s)))"
    using g unfolding t0 tbl_get_Inr_iff n p e0 e1 w by simp_all
  from r obtain s3 where
    "(if eidx0 = - 1 \<or> (pass = False \<and> n = - 1) then
                AddWithWeight_at d p weight s0
              else
                bnd (AddWithWeight_at d p (to_float (weight * 0.75)) s0) (\<lambda>s1.
                bnd (AddWithWeight_at d eidx0 (to_float (weight * 0.125)) s1) (\<lambda>s2.
                AddWithWeight_at d eidx1 (to_float (weight * 0.125)) s2))) = Inr s3"
    "AddVaryingWithWeight_at d p 1 s3 = Inr s'"
    unfolding x Let_def bnd_Inr_iff [of _ "\<lambda>s3. AddVaryingWithWeight_at d p 1 s3"] wt w0 by blast
  with c b show ?thesis by blast
qed

lemma vertexPointA_frames: "body_frames (vertexPointA pass)"
proof -
  have "0 \<le> d \<and> d < int (length (vbuf t)) \<and> frame d t t'" if run: "vertexPointA pass d i t = Inr t'" for d i t t'
  proof -
    define n where "n = V_ITa (tabs t) ! nat (5 * i + 1)"
    define p where "p = V_ITa (tabs t) ! nat (5 * i + 2)"
    define eidx0 where "eidx0 = V_ITa (tabs t) ! nat (5 * i + 3)"
    define eidx1 where "eidx1 = V_ITa (tabs t) ! nat (5 * i + 4)"
    define weight0 where "weight0 = (if pass then V_W (tabs t) ! nat i else to_float (1 - V_W (tabs t) ! nat i))"
    define weight where "weight = (if weight0 > 0 \<and> weight0 < 1 \<and> n > 0 then to_float (1 - weight0) else weight0)"
    from vertexPointA_split [OF run n_def p_def eidx0_def eidx1_def refl weight0_def weight_def]
    obtain s0 s3 where c: "(if \<not> pass then Clear_at d t else Inr t) = Inr s0"
      and mm: "(if eidx0 = - 1 \<or> (pass = False \<and> n = - 1) then
                AddWithWeight_at d p weight s0
              else
                bnd (AddWithWeight_at d p (to_float (weight * 0.75)) s0) (\<lambda>s1.
                bnd (AddWithWeight_at d eidx0 (to_float (weight * 0.125)) s1) (\<lambda>s2.
                AddWithWeight_at d eidx1 (to_float (weight * 0.125)) s2))) = Inr s3"
      and v: "AddVaryingWithWeight_at d p 1 s3 = Inr t'"
      by blast
    have m: "frame d s0 s3"
    proof (cases "eidx0 = - 1 \<or> (pass = False \<and> n = - 1)")
      case True
      from mm [unfolded if_P [OF True]] show ?thesis by (rule AddWithWeight_at_frame)
    next
      case False
      from mm [unfolded if_not_P [OF False] bnd_Inr_iff]
      obtain s1 s2 where "AddWithWeight_at d p (to_float (weight * 0.75)) s0 = Inr s1"
        "AddWithWeight_at d eidx0 (to_float (weight * 0.125)) s1 = Inr s2"
        "AddWithWeight_at d eidx1 (to_float (weight * 0.125)) s2 = Inr s3"
        by blast
      then show ?thesis by (blast intro: frame_trans dest: AddWithWeight_at_frame)
    qed
    have f0: "frame d t s0" using c by (auto split: if_splits simp: frame_refl dest: Clear_at_frame)
    have "frame d t t'"
      using f0 m AddVaryingWithWeight_at_frame [OF v] by (blast intro: frame_trans)
    moreover have "0 \<le> d \<and> d < int (length (vbuf s3))" using v by (simp add: AddVaryingWithWeight_at_Inr_iff)
    ultimately show ?thesis using f0 m by (simp add: frame_def)
  qed
  then show ?thesis unfolding body_frames_def by blast
qed

lemma vertexPointA_value:
  assumes run: "vertexPointA pass d i s = Inr s'"
    and n: "n = V_ITa (tabs s) ! nat (5 * i + 1)" and p: "p = V_ITa (tabs s) ! nat (5 * i + 2)"
    and e0: "eidx0 = V_ITa (tabs s) ! nat (5 * i + 3)" and e1: "eidx1 = V_ITa (tabs s) ! nat (5 * i + 4)"
    and w: "w = V_W (tabs s) ! nat i"
    and w0: "weight0 = (if pass then w else to_float (1 - w))"
    and wt: "weight = (if weight0 > 0 \<and> weight0 < 1 \<and> n > 0 then to_float (1 - weight0) else weight0)"
    and ne: "p \<noteq> d" "\<not> (eidx0 = - 1 \<or> (pass = False \<and> n = - 1)) \<longrightarrow> eidx0 \<noteq> d \<and> eidx1 \<noteq> d"
  shows "primary (vbuf s' ! nat d) =
           (if pass then primary (vbuf s ! nat d) else 0) +
           (if eidx0 = - 1 \<or> (pass = False \<and> n = - 1) then weight *\<^sub>R primary (vbuf s ! nat p)
            else to_float (weight * 0.75) *\<^sub>R primary (vbuf s ! nat p) +
                 to_float (weight * 0.125) *\<^sub>R primary (vbuf s ! nat eidx0) +
                 to_float (weight * 0.125) *\<^sub>R primary (vbuf s ! nat eidx1))"
    and "varying (vbuf s' ! nat d) =
           (if pass then varying (vbuf s ! nat d) else 0) + varying (vbuf s ! nat p)"
    and "0 \<le> p"
    and "\<not> (eidx0 = - 1 \<or> (pass = False \<and> n = - 1)) \<longrightarrow> 0 \<le> eidx0 \<and> 0 \<le> eidx1"
proof -
  from vertexPointA_split [OF run n p e0 e1 w w0 wt]
  obtain s0 s3 where c: "(if \<not> pass then Clear_at d s else Inr s) = Inr s0"
    and m: "(if eidx0 = - 1 \<or> (pass = False \<and> n = - 1) then
                AddWithWeight_at d p weight s0
              else
                bnd (AddWithWeight_at d p (to_float (weight * 0.75)) s0) (\<lambda>s1.
                bnd (AddWithWeight_at d eidx0 (to_float (weight * 0.125)) s1) (\<lambda>s2.
                AddWithWeight_at d eidx1 (to_float (weight * 0.125)) s2))) = Inr s3"
    and v: "AddVaryingWithWeight_at d p 1 s3 = Inr s'"
    by blast
  have f0: "frame d s s0" using c by (auto split: if_splits simp: frame_refl dest: Clear_at_frame)
  have P0: "primary (vbuf s0 ! nat d) = (if pass then primary (vbuf s ! nat d) else 0)"
    and V0: "varying (vbuf s0 ! nat d) = (if pass then varying (vbuf s ! nat d) else 0)"
    using c by (auto split: if_splits dest: Clear_at_value)
  have p0: "0 \<le> p" using v by (simp add: AddVaryingWithWeight_at_Inr_iff)
  have M: "primary (vbuf s3 ! nat d) = primary (vbuf s0 ! nat d) +
           (if eidx0 = - 1 \<or> (pass = False \<and> n = - 1) then weight *\<^sub>R primary (vbuf s ! nat p)
            else to_float (weight * 0.75) *\<^sub>R primary (vbuf s ! nat p) +
                 to_float (weight * 0.125) *\<^sub>R primary (vbuf s ! nat eidx0) +
                 to_float (weight * 0.125) *\<^sub>R primary (vbuf s ! nat eidx1)) \<and>
           varying (vbuf s3 ! nat d) = varying (vbuf s0 ! nat d) \<and> frame d s0 s3 \<and>
           (\<not> (eidx0 = - 1 \<or> (pass = False \<and> n = - 1)) \<longrightarrow> 0 \<le> eidx0 \<and> 0 \<le> eidx1)"
  proof (cases "eidx0 = - 1 \<or> (pass = False \<and> n = - 1)")
    case True
    with m have a: "AddWithWeight_at d p weight s0 = Inr s3" by simp
    show ?thesis
      using True AddWithWeight_at_value [OF a ne(1)] frame_src [OF f0 p0 ne(1)] by simp
  next
    case False
    from m [unfolded if_not_P [OF False] bnd_Inr_iff]
    obtain s1 s2 where a1: "AddWithWeight_at d p (to_float (weight * 0.75)) s0 = Inr s1"
      and a2: "AddWithWeight_at d eidx0 (to_float (weight * 0.125)) s1 = Inr s2"
      and a3: "AddWithWeight_at d eidx1 (to_float (weight * 0.125)) s2 = Inr s3"
      by blast
    from False ne have n2: "eidx0 \<noteq> d" "eidx1 \<noteq> d" by simp_all
    note A1 = AddWithWeight_at_value [OF a1 ne(1)]
    note A2 = AddWithWeight_at_value [OF a2 n2(1)]
    note A3 = AddWithWeight_at_value [OF a3 n2(2)]
    have q: "0 \<le> eidx0" "0 \<le> eidx1"
      using AddWithWeight_at_src [OF a2] AddWithWeight_at_src [OF a3] by simp_all
    have f1: "frame d s s1" using f0 A1(3) by (rule frame_trans)
    have f2: "frame d s s2" using f1 A2(3) by (rule frame_trans)
    have f03: "frame d s0 s3" using A1(3) A2(3) A3(3) by (blast intro: frame_trans)
    have "primary (vbuf s3 ! nat d) = primary (vbuf s0 ! nat d) +
            (to_float (weight * 0.75) *\<^sub>R primary (vbuf s ! nat p) +
             to_float (weight * 0.125) *\<^sub>R primary (vbuf s ! nat eidx0) +
             to_float (weight * 0.125) *\<^sub>R primary (vbuf s ! nat eidx1))"
      unfolding A3(1) A2(1) A1(1) frame_src [OF f0 p0 ne(1)] frame_src [OF f1 q(1) n2(1)]
        frame_src [OF f2 q(2) n2(2)]
      by (simp only: add.assoc)
    moreover have "varying (vbuf s3 ! nat d) = varying (vbuf s0 ! nat d)"
      unfolding A3(2) A2(2) A1(2) ..
    ultimately show ?thesis
      using False f03 q by (simp only: if_False simp_thms)
  qed
  then have f3: "frame d s s3" using f0 by (blast intro: frame_trans)
  note V = AddVaryingWithWeight_at_value [OF v ne(1)]
  show "primary (vbuf s' ! nat d) =
           (if pass then primary (vbuf s ! nat d) else 0) +
           (if eidx0 = - 1 \<or> (pass = False \<and> n = - 1) then weight *\<^sub>R primary (vbuf s ! nat p)
            else to_float (weight * 0.75) *\<^sub>R primary (vbuf s ! nat p) +
                 to_float (weight * 0.125) *\<^sub>R primary (vbuf s ! nat eidx0) +
                 to_float (weight * 0.125) *\<^sub>R primary (vbuf s ! nat eidx1))"
    unfolding V(2) using M P0 by (simp only:)
  show "varying (vbuf s' ! nat d) =
           (if pass then varying (vbuf s ! nat d) else 0) + varying (vbuf s ! nat p)"
    unfolding V(1) using M V0 frame_src [OF f3 p0 ne(1)] by simp
  show "0 \<le> p" by (rule p0)
  show "\<not> (eidx0 = - 1 \<or> (pass = False \<and> n = - 1)) \<longrightarrow> 0 \<le> eidx0 \<and> 0 \<le> eidx1"
    using M by blast
qed

lemma vertexPointA_succeeds:
  assumes ok: "vertexARowOk pass s lo hi i" and d: "0 \<le> d" "d < int (length (vbuf s))"
    and t: "tabs t = tabs s" "length (vbuf t) = length (vbuf s)"
  shows "\<exists>t'. vertexPointA pass d i t = Inr t'"
  using ok d t
  by (simp add: vertexARowOk_def srcOk_def vertexPointA_def tbl_get_def Clear_at_def
      AddWithWeight_at_def AddVaryingWithWeight_at_def Let_def)

lemma agrees_dst: "agrees lo d s t \<Longrightarrow> 0 \<le> d \<Longrightarrow> vbuf t ! nat d = vbuf s ! nat d"
  by (simp add: agrees_def)

lemma computeVertexPointsA_value:
  assumes run: "computeVertexPointsA offset pass tableOffset start en s = Inr s'"
    and row: "start + tableOffset \<le> i" "i < en + tableOffset"
    and n: "n = V_ITa (tabs s) ! nat (5 * i + 1)" and p: "p = V_ITa (tabs s) ! nat (5 * i + 2)"
    and e0: "eidx0 = V_ITa (tabs s) ! nat (5 * i + 3)" and e1: "eidx1 = V_ITa (tabs s) ! nat (5 * i + 4)"
    and w: "w = V_W (tabs s) ! nat i"
    and w0: "weight0 = (if pass then w else to_float (1 - w))"
    and wt: "weight = (if weight0 > 0 \<and> weight0 < 1 \<and> n > 0 then to_float (1 - weight0) else weight0)"
    and out: "\<not> (offset + start \<le> p \<and> p < offset + en)"
      "\<not> (eidx0 = - 1 \<or> (pass = False \<and> n = - 1)) \<longrightarrow>
         \<not> (offset + start \<le> eidx0 \<and> eidx0 < offset + en) \<and>
         \<not> (offset + start \<le> eidx1 \<and> eidx1 < offset + en)"
  shows "primary (vbuf s' ! nat (offset + i - tableOffset)) =
           (if pass then primary (vbuf s ! nat (offset + i - tableOffset)) else 0) +
           (if eidx0 = - 1 \<or> (pass = False \<and> n = - 1) then weight *\<^sub>R primary (vbuf s ! nat p)
            else to_float (weight * 0.75) *\<^sub>R primary (vbuf s ! nat p) +
                 to_float (weight * 0.125) *\<^sub>R primary (vbuf s ! nat eidx0) +
                 to_float (weight * 0.125) *\<^sub>R primary (vbuf s ! nat eidx1)) \<and>
         varying (vbuf s' ! nat (offset + i - tableOffset)) =
           (if pass then varying (vbuf s ! nat (offset + i - tableOffset)) else 0) +
           varying (vbuf s ! nat p)"
proof -
  define d where "d = offset + start + (i - (start + tableOffset))"
  have d: "offset + i - tableOffset = d" by (simp add: d_def)
  from kernelLoop_row [OF vertexPointA_frames run [unfolded computeVertexPointsA_def] row]
  obtain t t' where b: "vertexPointA pass d i t = Inr t'"
    and ag: "agrees (offset + start) d s t"
    and v: "vbuf s' ! nat d = vbuf t' ! nat d"
    unfolding d_def by blast
  have tt: "tabs t = tabs s" using ag by (rule agrees_tabs)
  have dr: "offset + start \<le> d" "d < offset + en" using row by (simp_all add: d_def)
  have d0: "0 \<le> d" using vertexPointA_frames b unfolding body_frames_def by blast
  have ne: "p \<noteq> d" "\<not> (eidx0 = - 1 \<or> (pass = False \<and> n = - 1)) \<longrightarrow> eidx0 \<noteq> d \<and> eidx1 \<noteq> d"
    using out dr by auto
  note val = vertexPointA_value [OF b n [folded tt] p [folded tt] e0 [folded tt] e1 [folded tt]
      w [folded tt] w0 wt ne]
  have same: "vbuf t ! nat p = vbuf s ! nat p"
    "\<not> (eidx0 = - 1 \<or> (pass = False \<and> n = - 1)) \<longrightarrow>
       vbuf t ! nat eidx0 = vbuf s ! nat eidx0 \<and> vbuf t ! nat eidx1 = vbuf s ! nat eidx1"
    using val(3,4) out dr by (auto intro!: agrees_src [OF ag])
  have old: "vbuf t ! nat d = vbuf s ! nat d" using ag d0 by (rule agrees_dst)
  show ?thesis
    unfolding d v val(1,2) old using same by auto
qed

lemma computeVertexPointsA_succeeds:
  assumes rows: "\<forall>i. start + tableOffset \<le> i \<and> i < en + tableOffset \<longrightarrow>
                   vertexARowOk pass s (offset + start) (offset + en) i"
    and dst: "start < en \<longrightarrow> 0 \<le> offset + start \<and> offset + en \<le> int (length (vbuf s))"
  shows "\<exists>s'. computeVertexPointsA offset pass tableOffset start en s = Inr s'"
  unfolding computeVertexPointsA_def
proof (rule kernel_succeeds [OF vertexPointA_frames])
  fix i and t :: "'a machine"
  assume row: "start + tableOffset \<le> i" "i < en + tableOffset"
    and t: "tabs t = tabs s" "length (vbuf t) = length (vbuf s)"
  have r: "vertexARowOk pass s (offset + start) (offset + en) i" using rows row by simp
  have "start < en" using row by simp
  with dst row have d: "0 \<le> offset + start + (i - (start + tableOffset))"
    "offset + start + (i - (start + tableOffset)) < int (length (vbuf s))" by auto
  show "\<exists>t'. vertexPointA pass (offset + start + (i - (start + tableOffset))) i t = Inr t'"
    by (rule vertexPointA_succeeds [OF r d t])
qed

text \<open>
  Claim C1, as amended. When every row in the range is well formed,
  \<open>computeVertexPointsA\<close> returns, and each vertex-point receives its rule with the
  weight \<open>w\<close>: with \<open>s\<close> the stored sharpness, \<open>w0 = 1 - s\<close> on the first pass (on top of
  a cleared record) and \<open>w0 = s\<close> on the second (on top of what the record held), and
  \<open>w = 1 - w0\<close> when \<open>w0\<close> lies strictly between 0 and 1 and the valence is positive,
  \<open>w = w0\<close> otherwise. The subtractions are those of \<^verbatim>\<open>float\<close>, and the test reads their
  rounded result: a sharpness so small that \<open>1 - s\<close> rounds to 1 is not inverted.
\<close>

theorem computeVertexPointsA_weight:
  assumes rows: "\<forall>i. start + tableOffset \<le> i \<and> i < en + tableOffset \<longrightarrow>
                   vertexARowOk pass s (offset + start) (offset + en) i"
    and dst: "start < en \<longrightarrow> 0 \<le> offset + start \<and> offset + en \<le> int (length (vbuf s))"
  shows "\<exists>s'. computeVertexPointsA offset pass tableOffset start en s = Inr s' \<and>
    (\<forall>i. start + tableOffset \<le> i \<and> i < en + tableOffset \<longrightarrow>
       (let n = V_ITa (tabs s) ! nat (5 * i + 1); p = V_ITa (tabs s) ! nat (5 * i + 2);
            eidx0 = V_ITa (tabs s) ! nat (5 * i + 3); eidx1 = V_ITa (tabs s) ! nat (5 * i + 4);
            sw = V_W (tabs s) ! nat i;
            w0 = (if pass then sw else to_float (1 - sw));
            w = (if 0 < w0 \<and> w0 < 1 \<and> 0 < n then to_float (1 - w0) else w0);
            src = (\<lambda>k. vbuf s ! nat k);
            old = vbuf s ! nat (offset + i - tableOffset);
            v = vbuf s' ! nat (offset + i - tableOffset)
        in primary v =
             (if pass then primary old else 0) +
             (if eidx0 = - 1 \<or> (pass = False \<and> n = - 1) then w *\<^sub>R primary (src p)
              else to_float (w * 0.75) *\<^sub>R primary (src p) +
                   to_float (w * 0.125) *\<^sub>R primary (src eidx0) +
                   to_float (w * 0.125) *\<^sub>R primary (src eidx1))))"
proof -
  from computeVertexPointsA_succeeds [OF rows dst]
  obtain s' where run: "computeVertexPointsA offset pass tableOffset start en s = Inr s'" by blast
  have "let n = V_ITa (tabs s) ! nat (5 * i + 1); p = V_ITa (tabs s) ! nat (5 * i + 2);
            eidx0 = V_ITa (tabs s) ! nat (5 * i + 3); eidx1 = V_ITa (tabs s) ! nat (5 * i + 4);
            sw = V_W (tabs s) ! nat i;
            w0 = (if pass then sw else to_float (1 - sw));
            w = (if 0 < w0 \<and> w0 < 1 \<and> 0 < n then to_float (1 - w0) else w0);
            src = (\<lambda>k. vbuf s ! nat k);
            old = vbuf s ! nat (offset + i - tableOffset);
            v = vbuf s' ! nat (offset + i - tableOffset)
        in primary v =
             (if pass then primary old else 0) +
             (if eidx0 = - 1 \<or> (pass = False \<and> n = - 1) then w *\<^sub>R primary (src p)
              else to_float (w * 0.75) *\<^sub>R primary (src p) +
                   to_float (w * 0.125) *\<^sub>R primary (src eidx0) +
                   to_float (w * 0.125) *\<^sub>R primary (src eidx1))"
    if row: "start + tableOffset \<le> i" "i < en + tableOffset" for i
  proof -
    have r: "vertexARowOk pass s (offset + start) (offset + en) i" using rows row by simp
    then have out:
      "\<not> (offset + start \<le> V_ITa (tabs s) ! nat (5 * i + 2) \<and> V_ITa (tabs s) ! nat (5 * i + 2) < offset + en)"
      "\<not> (V_ITa (tabs s) ! nat (5 * i + 3) = - 1 \<or> (pass = False \<and> V_ITa (tabs s) ! nat (5 * i + 1) = - 1)) \<longrightarrow>
         \<not> (offset + start \<le> V_ITa (tabs s) ! nat (5 * i + 3) \<and> V_ITa (tabs s) ! nat (5 * i + 3) < offset + en) \<and>
         \<not> (offset + start \<le> V_ITa (tabs s) ! nat (5 * i + 4) \<and> V_ITa (tabs s) ! nat (5 * i + 4) < offset + en)"
      unfolding vertexARowOk_def srcOk_def by blast+
    from computeVertexPointsA_value [OF run row refl refl refl refl refl refl refl out]
    show ?thesis unfolding Let_def by (rule conjunct1)
  qed
  with run show ?thesis by blast
qed

text \<open>
  Claim C5. In every invocation of \<open>computeVertexPointsA\<close> each vertex-point of the range
  gets one of two rules. The corner rule, when \<open>creaseEdge0\<close> is \<open>-1\<close> or the pass is the
  first and the valence is \<open>-1\<close>: the parent with the full effective weight and nothing
  else (the crease indices of such a row need not be indices of the buffer). The crease
  rule otherwise: the parent with 0.75 times the effective weight and each crease vertex
  with 0.125 times it, the products being those of \<^verbatim>\<open>float\<close>. The effective weight \<open>w\<close> is
  the one the kernel computes from the stored sharpness, the pass and the valence.
\<close>

theorem computeVertexPointsA_rules:
  assumes rows: "\<forall>i. start + tableOffset \<le> i \<and> i < en + tableOffset \<longrightarrow>
                   vertexARowOk pass s (offset + start) (offset + en) i"
    and dst: "start < en \<longrightarrow> 0 \<le> offset + start \<and> offset + en \<le> int (length (vbuf s))"
  shows "\<exists>s'. computeVertexPointsA offset pass tableOffset start en s = Inr s' \<and>
    (\<forall>i. start + tableOffset \<le> i \<and> i < en + tableOffset \<longrightarrow>
       (let n = V_ITa (tabs s) ! nat (5 * i + 1); p = V_ITa (tabs s) ! nat (5 * i + 2);
            eidx0 = V_ITa (tabs s) ! nat (5 * i + 3); eidx1 = V_ITa (tabs s) ! nat (5 * i + 4);
            sw = V_W (tabs s) ! nat i;
            w0 = (if pass then sw else to_float (1 - sw));
            w = (if 0 < w0 \<and> w0 < 1 \<and> 0 < n then to_float (1 - w0) else w0);
            src = (\<lambda>k. vbuf s ! nat k);
            base = (if pass then primary (vbuf s ! nat (offset + i - tableOffset)) else 0);
            v = vbuf s' ! nat (offset + i - tableOffset)
        in (eidx0 = - 1 \<or> (pass = False \<and> n = - 1) \<longrightarrow> primary v = base + w *\<^sub>R primary (src p)) \<and>
           (\<not> (eidx0 = - 1 \<or> (pass = False \<and> n = - 1)) \<longrightarrow>
              primary v = base + (to_float (w * 0.75) *\<^sub>R primary (src p) +
                to_float (w * 0.125) *\<^sub>R primary (src eidx0) +
                to_float (w * 0.125) *\<^sub>R primary (src eidx1)))))"
proof -
  from computeVertexPointsA_succeeds [OF rows dst]
  obtain s' where run: "computeVertexPointsA offset pass tableOffset start en s = Inr s'" by blast
  have "let n = V_ITa (tabs s) ! nat (5 * i + 1); p = V_ITa (tabs s) ! nat (5 * i + 2);
            eidx0 = V_ITa (tabs s) ! nat (5 * i + 3); eidx1 = V_ITa (tabs s) ! nat (5 * i + 4);
            sw = V_W (tabs s) ! nat i;
            w0 = (if pass then sw else to_float (1 - sw));
            w = (if 0 < w0 \<and> w0 < 1 \<and> 0 < n then to_float (1 - w0) else w0);
            src = (\<lambda>k. vbuf s ! nat k);
            base = (if pass then primary (vbuf s ! nat (offset + i - tableOffset)) else 0);
            v = vbuf s' ! nat (offset + i - tableOffset)
        in (eidx0 = - 1 \<or> (pass = False \<and> n = - 1) \<longrightarrow> primary v = base + w *\<^sub>R primary (src p)) \<and>
           (\<not> (eidx0 = - 1 \<or> (pass = False \<and> n = - 1)) \<longrightarrow>
              primary v = base + (to_float (w * 0.75) *\<^sub>R primary (src p) +
                to_float (w * 0.125) *\<^sub>R primary (src eidx0) +
                to_float (w * 0.125) *\<^sub>R primary (src eidx1)))"
    if row: "start + tableOffset \<le> i" "i < en + tableOffset" for i
  proof -
    define n where "n = V_ITa (tabs s) ! nat (5 * i + 1)"
    define p where "p = V_ITa (tabs s) ! nat (5 * i + 2)"
    define eidx0 where "eidx0 = V_ITa (tabs s) ! nat (5 * i + 3)"
    define eidx1 where "eidx1 = V_ITa (tabs s) ! nat (5 * i + 4)"
    define sw where "sw = V_W (tabs s) ! nat i"
    define w0 where "w0 = (if pass then sw else to_float (1 - sw))"
    define w where "w = (if 0 < w0 \<and> w0 < 1 \<and> 0 < n then to_float (1 - w0) else w0)"
    define v where "v = vbuf s' ! nat (offset + i - tableOffset)"
    define base where "base = (if pass then primary (vbuf s ! nat (offset + i - tableOffset)) else 0)"
    define wp where "wp = to_float (w * 0.75)"
    define we where "we = to_float (w * 0.125)"
    have r: "vertexARowOk pass s (offset + start) (offset + en) i" using rows row by simp
    then have out:
      "\<not> (offset + start \<le> p \<and> p < offset + en)"
      "\<not> (eidx0 = - 1 \<or> (pass = False \<and> n = - 1)) \<longrightarrow>
         \<not> (offset + start \<le> eidx0 \<and> eidx0 < offset + en) \<and>
         \<not> (offset + start \<le> eidx1 \<and> eidx1 < offset + en)"
      unfolding vertexARowOk_def srcOk_def n_def p_def eidx0_def eidx1_def by blast+
    from computeVertexPointsA_value [OF run row n_def p_def eidx0_def eidx1_def sw_def w0_def w_def out]
    have val: "primary v = base +
           (if eidx0 = - 1 \<or> (pass = False \<and> n = - 1) then w *\<^sub>R primary (vbuf s ! nat p)
            else wp *\<^sub>R primary (vbuf s ! nat p) +
                 we *\<^sub>R primary (vbuf s ! nat eidx0) +
                 we *\<^sub>R primary (vbuf s ! nat eidx1))"
      unfolding v_def base_def wp_def we_def by (rule conjunct1)
    have c1: "eidx0 = - 1 \<or> (pass = False \<and> n = - 1) \<longrightarrow> primary v = base + w *\<^sub>R primary (vbuf s ! nat p)"
      using val by simp
    have c2: "\<not> (eidx0 = - 1 \<or> (pass = False \<and> n = - 1)) \<longrightarrow>
              primary v = base + (wp *\<^sub>R primary (vbuf s ! nat p) +
                we *\<^sub>R primary (vbuf s ! nat eidx0) + we *\<^sub>R primary (vbuf s ! nat eidx1))"
      using val by simp
    show ?thesis
      unfolding Let_def
      using c1 c2 unfolding wp_def we_def w_def w0_def n_def p_def eidx0_def eidx1_def sw_def v_def base_def
      by (intro conjI)
  qed
  with run show ?thesis by blast
qed

lemma int_lt1: "0 \<le> (i::int) \<and> i < 1 \<longleftrightarrow> i = 0"
  by arith

lemma digits2_0: "digits2 0 = 0"
  by (simp add: digits2.simps)

lemma digits2_1: "digits2 1 = 1"
  by (simp add: digits2.simps [of 1] digits2.simps [of 0])

lemma digits2_numeral: "digits2 (numeral v) = Suc (digits2 (numeral v div 2))"
  by (subst digits2.simps) simp

lemmas to_float_eval = to_float_def round_even_def Let_def digits2_0 digits2_1 digits2_numeral

text \<open>
  Some values of the rounding: a third and a tenth get the significands \<^verbatim>\<open>0xAAAAAB\<close> and
  \<^verbatim>\<open>0xCCCCCD\<close>; below 1 the numbers of the format are \<open>2^-24\<close> apart, and a tie goes to the
  even significand; half the least subnormal number goes to zero; above \<open>2^24\<close> the odd
  integers are not in the format.
\<close>

lemma to_float_values:
  "to_float 0 = 0"
  "to_float (1 / 3) = 11184811 / 2 ^ 25"
  "to_float (1 / 10) = 13421773 / 2 ^ 27"
  "to_float (- (1 / 3)) = - (11184811 / 2 ^ 25)"
  "to_float (1 - 1 / 2 ^ 24) = 1 - 1 / 2 ^ 24"
  "to_float (1 - 1 / 2 ^ 25) = 1"
  "to_float (1 - 1 / 2 ^ 26) = 1"
  "to_float (1 / 2 ^ 150) = 0"
  "to_float (3 / 2 ^ 150) = 1 / 2 ^ 148"
  "to_float 16777217 = 16777216"
  "to_float 16777219 = 16777220"
  by (simp_all add: to_float_eval)

text \<open>The numbers the examples below meet are in the format.\<close>

lemma to_float_exact:
  "to_float 1 = 1" "to_float (3 / 4) = 3 / 4" "to_float (1 / 4) = 1 / 4" "to_float (1 / 8) = 1 / 8"
  "to_float (3 / 16) = 3 / 16" "to_float (1 / 32) = 1 / 32"
  "to_float (9 / 16) = 9 / 16" "to_float (3 / 32) = 3 / 32"
  "to_float (67108863 / 67108864) = 1"
  by (simp_all add: to_float_eval)

lemmas kernel_eval =
  kernelLoop.simps forLoop.simps tbl_get_def fdiv_def imul_def to_float_exact
  Clear_at_def AddWithWeight_at_def AddVaryingWithWeight_at_def Clear_def AddWithWeight_def
  AddVaryingWithWeight_def Let_def

theorem computeVertexPointsA_weight_witness:
  "(\<exists>s'. computeVertexPointsA 3 True 0 0 1 creaseMachine = Inr s' \<and> primary (vbuf s' ! 3) = 108) \<and>
   (\<exists>s'. computeVertexPointsA 3 False 0 0 1 faintCreaseMachine = Inr s' \<and> primary (vbuf s' ! 3) = 12)"
proof
  have "vertexARowOk True creaseMachine 3 4 0"
    by (simp add: vertexARowOk_def srcOk_def creaseMachine_def creaseTables_def)
  then have rows: "\<forall>i. 0 + 0 \<le> i \<and> i < 1 + 0 \<longrightarrow> vertexARowOk True creaseMachine (3 + 0) (3 + 1) i"
    by (simp add: int_lt1)
  have dst: "(0::int) < 1 \<longrightarrow> 0 \<le> (3::int) + 0 \<and> 3 + 1 \<le> int (length (vbuf creaseMachine))"
    by (simp add: creaseMachine_def)
  from computeVertexPointsA_weight [OF rows dst]
  show "\<exists>s'. computeVertexPointsA 3 True 0 0 1 creaseMachine = Inr s' \<and> primary (vbuf s' ! 3) = 108"
    by (simp add: int_lt1 creaseMachine_def creaseTables_def Let_def to_float_exact)
next
  have "vertexARowOk False faintCreaseMachine 3 4 0"
    by (simp add: vertexARowOk_def srcOk_def faintCreaseMachine_def creaseMachine_def creaseTables_def)
  then have rows: "\<forall>i. 0 + 0 \<le> i \<and> i < 1 + 0 \<longrightarrow> vertexARowOk False faintCreaseMachine (3 + 0) (3 + 1) i"
    by (simp add: int_lt1)
  have dst: "(0::int) < 1 \<longrightarrow> 0 \<le> (3::int) + 0 \<and> 3 + 1 \<le> int (length (vbuf faintCreaseMachine))"
    by (simp add: faintCreaseMachine_def creaseMachine_def)
  from computeVertexPointsA_weight [OF rows dst]
  show "\<exists>s'. computeVertexPointsA 3 False 0 0 1 faintCreaseMachine = Inr s' \<and> primary (vbuf s' ! 3) = 12"
    by (simp add: int_lt1 faintCreaseMachine_def creaseMachine_def creaseTables_def Let_def to_float_exact)
qed

theorem computeVertexPointsA_rules_witness:
  "(\<exists>s'. computeVertexPointsA 3 False 0 0 1 creaseMachine = Inr s' \<and> primary (vbuf s' ! 3) = 3) \<and>
   (\<exists>s'. computeVertexPointsA 1 False 0 0 1 cornerMachine = Inr s' \<and> primary (vbuf s' ! 1) = 3 / 4) \<and>
   (\<exists>s'. computeVertexPointsA 3 False 0 0 1 faintCreaseMachine = Inr s' \<and> primary (vbuf s' ! 3) = 12)"
proof (intro conjI)
  have "vertexARowOk False creaseMachine 3 4 0"
    by (simp add: vertexARowOk_def srcOk_def creaseMachine_def creaseTables_def)
  then have rows: "\<forall>i. 0 + 0 \<le> i \<and> i < 1 + 0 \<longrightarrow> vertexARowOk False creaseMachine (3 + 0) (3 + 1) i"
    by (simp add: int_lt1)
  have dst: "(0::int) < 1 \<longrightarrow> 0 \<le> (3::int) + 0 \<and> 3 + 1 \<le> int (length (vbuf creaseMachine))"
    by (simp add: creaseMachine_def)
  from computeVertexPointsA_rules [OF rows dst]
  show "\<exists>s'. computeVertexPointsA 3 False 0 0 1 creaseMachine = Inr s' \<and> primary (vbuf s' ! 3) = 3"
    by (simp add: int_lt1 creaseMachine_def creaseTables_def Let_def to_float_exact)
next
  have "vertexARowOk False cornerMachine 1 2 0"
    by (simp add: vertexARowOk_def srcOk_def cornerMachine_def cornerTables_def)
  then have rows: "\<forall>i. 0 + 0 \<le> i \<and> i < 1 + 0 \<longrightarrow> vertexARowOk False cornerMachine (1 + 0) (1 + 1) i"
    by (simp add: int_lt1)
  have dst: "(0::int) < 1 \<longrightarrow> 0 \<le> (1::int) + 0 \<and> 1 + 1 \<le> int (length (vbuf cornerMachine))"
    by (simp add: cornerMachine_def)
  from computeVertexPointsA_rules [OF rows dst]
  show "\<exists>s'. computeVertexPointsA 1 False 0 0 1 cornerMachine = Inr s' \<and> primary (vbuf s' ! 1) = 3 / 4"
    by (simp add: int_lt1 cornerMachine_def cornerTables_def Let_def to_float_exact)
next
  have "vertexARowOk False faintCreaseMachine 3 4 0"
    by (simp add: vertexARowOk_def srcOk_def faintCreaseMachine_def creaseMachine_def creaseTables_def)
  then have rows: "\<forall>i. 0 + 0 \<le> i \<and> i < 1 + 0 \<longrightarrow> vertexARowOk False faintCreaseMachine (3 + 0) (3 + 1) i"
    by (simp add: int_lt1)
  have dst: "(0::int) < 1 \<longrightarrow> 0 \<le> (3::int) + 0 \<and> 3 + 1 \<le> int (length (vbuf faintCreaseMachine))"
    by (simp add: faintCreaseMachine_def creaseMachine_def)
  from computeVertexPointsA_rules [OF rows dst]
  show "\<exists>s'. computeVertexPointsA 3 False 0 0 1 faintCreaseMachine = Inr s' \<and> primary (vbuf s' ! 3) = 12"
    by (simp add: int_lt1 faintCreaseMachine_def creaseMachine_def creaseTables_def Let_def to_float_exact)
qed

lemma cornerMachine_first_pass:
  "computeVertexPointsA 1 False 0 0 1 cornerMachine =
     Inr (cornerMachine\<lparr>vbuf := [\<lparr>primary = 1, varying = 1\<rparr>, \<lparr>primary = 3 / 4, varying = 1\<rparr>]\<rparr>)"
  by (simp add: computeVertexPointsA_def kernelLoop.simps vertexPointA_def tbl_get_def
      Clear_at_def AddWithWeight_at_def AddVaryingWithWeight_at_def Clear_def AddWithWeight_def
      AddVaryingWithWeight_def cornerMachine_def cornerTables_def Let_def to_float_exact)

text \<open>
  Claim C1 as it is stated, with the test \<open>valence \<noteq> -1\<close>, fails at valence 0: with
  sharpness one quarter the first pass applies the weight three quarters, not inverted,
  where that test gives one quarter.
\<close>

theorem computeVertexPointsA_weight_counterexample:
  "computeVertexPointsA 1 False 0 0 1 cornerMachine =
     Inr (cornerMachine\<lparr>vbuf := [\<lparr>primary = 1, varying = 1\<rparr>, \<lparr>primary = 3 / 4, varying = 1\<rparr>]\<rparr>) \<and>
   spec_weightA False (V_W (tabs cornerMachine) ! 0) (V_ITa (tabs cornerMachine) ! 1) *\<^sub>R
     primary (vbuf cornerMachine ! 0) = 1 / 4"
  by (simp add: cornerMachine_first_pass)
    (simp add: spec_weightA_def cornerMachine_def cornerTables_def to_float_exact)

subsection \<open>Vertex-vertices kernel B\<close>

lemma vertexPointBStep_Inr:
  assumes "vertexPointBStep d h weight wp j s = Inr s'"
  shows "0 \<le> h + j * 2 \<and> h + j * 2 + 1 < int (length (V_IT (tabs s))) \<and>
         0 \<le> d \<and> d < int (length (vbuf s)) \<and> frame d s s'"
  using assms
  by (auto simp: vertexPointBStep_def bnd_Inr_iff tbl_get_Inr_iff AddWithWeight_at_Inr_iff frame_def)

lemma vertexPointBStep_frames: "step_frames d (vertexPointBStep d h weight wp)"
  by (simp add: step_frames_def vertexPointBStep_Inr)

lemma vertexPointBStep_value:
  assumes run: "vertexPointBStep d h weight wp j s = Inr s'"
    and ne: "int (V_IT (tabs s) ! nat (h + j * 2)) \<noteq> d" "int (V_IT (tabs s) ! nat (h + j * 2 + 1)) \<noteq> d"
  shows "primary (vbuf s' ! nat d) =
           primary (vbuf s ! nat d) +
           ((weight * wp) *\<^sub>R primary (vbuf s ! (V_IT (tabs s) ! nat (h + j * 2))) +
            (weight * wp) *\<^sub>R primary (vbuf s ! (V_IT (tabs s) ! nat (h + j * 2 + 1))))"
    and "varying (vbuf s' ! nat d) = varying (vbuf s ! nat d)"
proof -
  from run obtain k0 s1 k1 where g0: "tbl_get (V_IT (tabs s)) (h + j * 2) = Inr k0"
    and a0: "AddWithWeight_at d (int k0) (weight * wp) s = Inr s1"
    and g1: "tbl_get (V_IT (tabs s1)) (h + j * 2 + 1) = Inr k1"
    and a1: "AddWithWeight_at d (int k1) (weight * wp) s1 = Inr s'"
    unfolding vertexPointBStep_def bnd_Inr_iff by blast
  have k0: "k0 = V_IT (tabs s) ! nat (h + j * 2)" using g0 by (simp add: tbl_get_Inr_iff)
  have f1: "frame d s s1" using a0 by (rule AddWithWeight_at_frame)
  have k1: "k1 = V_IT (tabs s) ! nat (h + j * 2 + 1)"
    using g1 frame_tabs [OF f1] by (simp add: tbl_get_Inr_iff)
  have n0: "int k0 \<noteq> d" and n1: "int k1 \<noteq> d" using ne k0 k1 by simp_all
  note A0 = AddWithWeight_at_value [OF a0 n0]
  note A1 = AddWithWeight_at_value [OF a1 n1]
  have same: "vbuf s1 ! k1 = vbuf s ! k1"
    using frame_src [OF f1 _ n1] by simp
  show "primary (vbuf s' ! nat d) =
           primary (vbuf s ! nat d) +
           ((weight * wp) *\<^sub>R primary (vbuf s ! (V_IT (tabs s) ! nat (h + j * 2))) +
            (weight * wp) *\<^sub>R primary (vbuf s ! (V_IT (tabs s) ! nat (h + j * 2 + 1))))"
    using A0(1) A1(1) same unfolding k0 [symmetric] k1 [symmetric] by (simp add: add.assoc)
  show "varying (vbuf s' ! nat d) = varying (vbuf s ! nat d)"
    using A0(2) A1(2) by simp
qed

lemma vertexPointB_forLoop_value:
  "forLoop (vertexPointBStep d h weight wp) j n s = Inr s' \<Longrightarrow>
   \<forall>k. j * 2 \<le> k \<and> k < n * 2 \<longrightarrow> int (V_IT (tabs s) ! nat (h + k)) \<noteq> d \<Longrightarrow>
   primary (vbuf s' ! nat d) =
     primary (vbuf s ! nat d) +
     (\<Sum>j'\<in>{j..<n}. (weight * wp) *\<^sub>R primary (vbuf s ! (V_IT (tabs s) ! nat (h + j' * 2))) +
                     (weight * wp) *\<^sub>R primary (vbuf s ! (V_IT (tabs s) ! nat (h + j' * 2 + 1)))) \<and>
   varying (vbuf s' ! nat d) = varying (vbuf s ! nat d)"
proof (induction "nat (n - j)" arbitrary: j s)
  case 0
  then show ?case by (simp add: forLoop.simps [of _ j n s])
next
  case (Suc m)
  then have lt: "j < n" by simp
  with Suc.prems(1) obtain t where t: "vertexPointBStep d h weight wp j s = Inr t"
    and r: "forLoop (vertexPointBStep d h weight wp) (j + 1) n t = Inr s'"
    by (auto simp: forLoop.simps [of _ j n s] split: sum.splits)
  have f: "frame d s t" using vertexPointBStep_Inr [OF t] by simp
  have tt: "tabs t = tabs s" using f by (rule frame_tabs)
  have ne: "int (V_IT (tabs s) ! nat (h + j * 2)) \<noteq> d" "int (V_IT (tabs s) ! nat (h + j * 2 + 1)) \<noteq> d"
    using Suc.prems(2) lt by (simp_all add: add.assoc)
  have same: "vbuf t ! (V_IT (tabs s) ! nat (h + k)) = vbuf s ! (V_IT (tabs s) ! nat (h + k))"
    if "j * 2 \<le> k" "k < n * 2" for k
    using f Suc.prems(2) that by (simp add: frame_def)
  have m: "m = nat (n - (j + 1))" using Suc.hyps(2) by simp
  have pre: "\<forall>k. (j + 1) * 2 \<le> k \<and> k < n * 2 \<longrightarrow> int (V_IT (tabs t) ! nat (h + k)) \<noteq> d"
    using Suc.prems(2) tt by simp
  note ih = Suc.hyps(1) [OF m r pre]
  define F where "F = (\<lambda>j'. (weight * wp) *\<^sub>R primary (vbuf s ! (V_IT (tabs s) ! nat (h + j' * 2))) +
                     (weight * wp) *\<^sub>R primary (vbuf s ! (V_IT (tabs s) ! nat (h + j' * 2 + 1))))"
  define G where "G = (\<lambda>j'. (weight * wp) *\<^sub>R primary (vbuf t ! (V_IT (tabs t) ! nat (h + j' * 2))) +
                     (weight * wp) *\<^sub>R primary (vbuf t ! (V_IT (tabs t) ! nat (h + j' * 2 + 1))))"
  have s1: "sum G {j + 1..<n} = sum F {j + 1..<n}"
  proof (rule sum.cong)
    fix x assume "x \<in> {j + 1..<n}"
    then have a: "j * 2 \<le> x * 2" "x * 2 < n * 2" "j * 2 \<le> x * 2 + 1" "x * 2 + 1 < n * 2" by auto
    show "G x = F x"
      unfolding G_def F_def tt using same [OF a(1,2)] same [OF a(3,4)] by (simp add: add.assoc)
  qed simp
  have "primary (vbuf s' ! nat d) = primary (vbuf t ! nat d) + sum G {j + 1..<n}"
    using ih unfolding G_def by blast
  also have "primary (vbuf t ! nat d) = primary (vbuf s ! nat d) + F j"
    unfolding F_def by (rule vertexPointBStep_value(1) [OF t ne])
  finally have "primary (vbuf s' ! nat d) = primary (vbuf s ! nat d) + (F j + sum F {j + 1..<n})"
    unfolding s1 by (simp only: add.assoc)
  then have P: "primary (vbuf s' ! nat d) = primary (vbuf s ! nat d) + sum F {j..<n}"
    unfolding sum_int_ivl_split [OF lt, of F] .
  have "varying (vbuf s' ! nat d) = varying (vbuf t ! nat d)" using ih by blast
  then have V: "varying (vbuf s' ! nat d) = varying (vbuf s ! nat d)"
    using vertexPointBStep_value(2) [OF t ne] by simp
  show ?case using P V unfolding F_def by blast
qed

lemma sum_pairs_int:
  fixes f :: "int \<Rightarrow> 'a::comm_monoid_add"
  shows "(\<Sum>j\<in>{0..<n}. f (j * 2) + f (j * 2 + 1)) = (\<Sum>k\<in>{0..<n * 2}. f k)"
proof (induction "nat n" arbitrary: n)
  case 0
  then show ?case by simp
next
  case (Suc m)
  then have n: "0 < n" and m: "m = nat (n - 1)" by simp_all
  have a: "{0..<n} = insert (n - 1) {0..<n - 1}" using n by auto
  have b: "{0..<n * 2} = insert (n * 2 - 1) (insert (n * 2 - 2) {0..<(n - 1) * 2})" using n by auto
  have c: "(n - 1) * 2 = n * 2 - 2" "(n - 1) * 2 + 1 = n * 2 - 1" by simp_all
  show ?case
    unfolding a b using Suc.hyps(1) [OF m]
    by (simp add: c add.commute add.left_commute)
qed

lemma vertexPointB_split:
  assumes run: "vertexPointB d i s = Inr s'"
    and h: "h = V_ITa (tabs s) ! nat (5 * i)" and n: "n = V_ITa (tabs s) ! nat (5 * i + 1)"
    and p: "p = V_ITa (tabs s) ! nat (5 * i + 2)" and w: "weight = V_W (tabs s) ! nat i"
    and wp: "wp = 1 / real_of_int (n * n)" and wv: "wv = (real_of_int n - 2) * real_of_int n * wp"
  shows "\<exists>s0 s1 s2. Clear_at d s = Inr s0 \<and>
           AddWithWeight_at d p (weight * wv) s0 = Inr s1 \<and>
           forLoop (vertexPointBStep d h weight wp) 0 n s1 = Inr s2 \<and>
           AddVaryingWithWeight_at d p 1 s2 = Inr s' \<and>
           0 \<le> i \<and> 5 * i + 2 < int (length (V_ITa (tabs s))) \<and> i < int (length (V_W (tabs s))) \<and>
           n \<noteq> 0 \<and> n * n \<le> 2147483647"
proof -
  from run obtain s0 xh xn xp xw nn xwp where c: "Clear_at d s = Inr s0"
    and g: "tbl_get (V_ITa (tabs s0)) (5 * i) = Inr xh"
      "tbl_get (V_ITa (tabs s0)) (5 * i + 1) = Inr xn"
      "tbl_get (V_ITa (tabs s0)) (5 * i + 2) = Inr xp"
      "tbl_get (V_W (tabs s0)) i = Inr xw"
    and im: "imul xn xn = Inr nn"
    and fd: "fdiv 1 (real_of_int nn) = Inr xwp"
    and r: "(let wv = (real_of_int xn - 2) * real_of_int xn * xwp in
             bnd (AddWithWeight_at d xp (xw * wv) s0) (\<lambda>s1.
             bnd (forLoop (vertexPointBStep d xh xw xwp) 0 xn s1) (\<lambda>s2.
             AddVaryingWithWeight_at d xp 1 s2))) = Inr s'"
    unfolding vertexPointB_def bnd_Inr_iff by blast
  have t0: "tabs s0 = tabs s" using Clear_at_frame [OF c] by (rule frame_tabs)
  have x: "xh = h" "xn = n" "xp = p" "xw = weight"
    and b: "0 \<le> i" "5 * i + 2 < int (length (V_ITa (tabs s)))" "i < int (length (V_W (tabs s)))"
    using g unfolding t0 tbl_get_Inr_iff h n p w by simp_all
  have nn: "nn = n * n" and ov: "n * n \<le> 2147483647"
    using im unfolding x imul_def by (simp_all split: if_splits)
  have xwp: "xwp = wp" and nz: "n \<noteq> 0"
    using fd unfolding nn fdiv_def wp by (simp_all split: if_splits)
  from r obtain s1 s2 where "AddWithWeight_at d p (weight * wv) s0 = Inr s1"
    "forLoop (vertexPointBStep d h weight wp) 0 n s1 = Inr s2"
    "AddVaryingWithWeight_at d p 1 s2 = Inr s'"
    unfolding x xwp Let_def bnd_Inr_iff wv by blast
  with c b nz ov show ?thesis by blast
qed

lemma vertexPointB_frames: "body_frames vertexPointB"
proof -
  have "0 \<le> d \<and> d < int (length (vbuf t)) \<and> frame d t t'" if run: "vertexPointB d i t = Inr t'" for d i t t'
  proof -
    from vertexPointB_split [OF run refl refl refl refl refl refl]
    obtain s0 s1 s2 p w h wt wp n where c: "Clear_at d t = Inr s0"
      and a: "AddWithWeight_at d p w s0 = Inr s1"
      and l: "forLoop (vertexPointBStep d h wt wp) 0 n s1 = Inr s2"
      and v: "AddVaryingWithWeight_at d p 1 s2 = Inr t'"
      by blast
    have "frame d t t'"
      using Clear_at_frame [OF c] AddWithWeight_at_frame [OF a]
        forLoop_frame [OF vertexPointBStep_frames l] AddVaryingWithWeight_at_frame [OF v]
      by (blast intro: frame_trans)
    with c show ?thesis by (simp add: Clear_at_Inr_iff)
  qed
  then show ?thesis unfolding body_frames_def by blast
qed

lemma vertexPointB_value:
  assumes run: "vertexPointB d i s = Inr s'"
    and h: "h = V_ITa (tabs s) ! nat (5 * i)" and n: "n = V_ITa (tabs s) ! nat (5 * i + 1)"
    and p: "p = V_ITa (tabs s) ! nat (5 * i + 2)" and w: "weight = V_W (tabs s) ! nat i"
    and wp: "wp = 1 / real_of_int (n * n)" and wv: "wv = (real_of_int n - 2) * real_of_int n * wp"
    and ne: "p \<noteq> d" "\<forall>k. 0 \<le> k \<and> k < n * 2 \<longrightarrow> int (V_IT (tabs s) ! nat (h + k)) \<noteq> d"
  shows "primary (vbuf s' ! nat d) =
           (weight * wv) *\<^sub>R primary (vbuf s ! nat p) +
           (\<Sum>k\<in>{0..<n * 2}. (weight * wp) *\<^sub>R primary (vbuf s ! (V_IT (tabs s) ! nat (h + k))))"
    and "varying (vbuf s' ! nat d) = varying (vbuf s ! nat p)"
    and "0 \<le> p"
proof -
  from vertexPointB_split [OF run h n p w wp wv]
  obtain s0 s1 s2 where c: "Clear_at d s = Inr s0"
    and a: "AddWithWeight_at d p (weight * wv) s0 = Inr s1"
    and l: "forLoop (vertexPointBStep d h weight wp) 0 n s1 = Inr s2"
    and v: "AddVaryingWithWeight_at d p 1 s2 = Inr s'"
    by blast
  note C = Clear_at_value [OF c]
  note A = AddWithWeight_at_value [OF a ne(1)]
  note V = AddVaryingWithWeight_at_value [OF v ne(1)]
  have p0: "0 \<le> p" using a by (simp add: AddWithWeight_at_Inr_iff)
  have f1: "frame d s s1" using C(3) A(3) by (rule frame_trans)
  have t1: "tabs s1 = tabs s" using f1 by (rule frame_tabs)
  have f2: "frame d s s2" using f1 forLoop_frame [OF vertexPointBStep_frames l] by (rule frame_trans)
  have pre: "\<forall>k. 0 * 2 \<le> k \<and> k < n * 2 \<longrightarrow> int (V_IT (tabs s1) ! nat (h + k)) \<noteq> d"
    using ne(2) t1 by simp
  note L = vertexPointB_forLoop_value [OF l pre]
  define F where "F = (\<lambda>k. (weight * wp) *\<^sub>R primary (vbuf s ! (V_IT (tabs s) ! nat (h + k))))"
  define G where "G = (\<lambda>k. (weight * wp) *\<^sub>R primary (vbuf s1 ! (V_IT (tabs s1) ! nat (h + k))))"
  have GF: "G k = F k" if "0 \<le> k" "k < n * 2" for k
  proof -
    have "int (V_IT (tabs s) ! nat (h + k)) \<noteq> d" using ne(2) that by simp
    from frame_src [OF f1 _ this] show ?thesis unfolding G_def F_def t1 by simp
  qed
  have "(\<Sum>j'\<in>{0..<n}. (weight * wp) *\<^sub>R primary (vbuf s1 ! (V_IT (tabs s1) ! nat (h + j' * 2))) +
                     (weight * wp) *\<^sub>R primary (vbuf s1 ! (V_IT (tabs s1) ! nat (h + j' * 2 + 1)))) =
        (\<Sum>j'\<in>{0..<n}. G (j' * 2) + G (j' * 2 + 1))"
    unfolding G_def by (simp add: add.assoc)
  also have "\<dots> = sum G {0..<n * 2}" by (rule sum_pairs_int)
  also have "\<dots> = sum F {0..<n * 2}" by (rule sum.cong) (simp_all add: GF)
  finally have S: "(\<Sum>j'\<in>{0..<n}. (weight * wp) *\<^sub>R primary (vbuf s1 ! (V_IT (tabs s1) ! nat (h + j' * 2))) +
                     (weight * wp) *\<^sub>R primary (vbuf s1 ! (V_IT (tabs s1) ! nat (h + j' * 2 + 1)))) =
        sum F {0..<n * 2}" .
  have "primary (vbuf s2 ! nat d) = primary (vbuf s1 ! nat d) + sum F {0..<n * 2}"
    using L unfolding S by blast
  moreover have "primary (vbuf s1 ! nat d) = (weight * wv) *\<^sub>R primary (vbuf s ! nat p)"
    using A(1) C(1) frame_src [OF C(3) p0 ne(1)] by simp
  ultimately show "primary (vbuf s' ! nat d) =
           (weight * wv) *\<^sub>R primary (vbuf s ! nat p) +
           (\<Sum>k\<in>{0..<n * 2}. (weight * wp) *\<^sub>R primary (vbuf s ! (V_IT (tabs s) ! nat (h + k))))"
    unfolding V(2) F_def by simp
  have "varying (vbuf s2 ! nat d) = 0" using L A(2) C(2) by simp
  then show "varying (vbuf s' ! nat d) = varying (vbuf s ! nat p)"
    unfolding V(1) using frame_src [OF f2 p0 ne(1)] by simp
  show "0 \<le> p" by (rule p0)
qed

lemma vertexPointBStep_succeeds:
  assumes "0 \<le> h + j * 2" "h + j * 2 + 1 < int (length (V_IT (tabs s)))"
    "int (V_IT (tabs s) ! nat (h + j * 2)) < int (length (vbuf s))"
    "int (V_IT (tabs s) ! nat (h + j * 2 + 1)) < int (length (vbuf s))"
    "0 \<le> d" "d < int (length (vbuf s))"
  shows "\<exists>s'. vertexPointBStep d h weight wp j s = Inr s'"
  using assms
  by (simp add: vertexPointBStep_def tbl_get_def AddWithWeight_at_def)

lemma vertexPointB_succeeds:
  assumes ok: "vertexBRowOk s lo hi i" and d: "0 \<le> d" "d < int (length (vbuf s))"
    and t: "tabs t = tabs s" "length (vbuf t) = length (vbuf s)"
  shows "\<exists>t'. vertexPointB d i t = Inr t'"
proof -
  define h where "h = V_ITa (tabs s) ! nat (5 * i)"
  define n where "n = V_ITa (tabs s) ! nat (5 * i + 1)"
  define p where "p = V_ITa (tabs s) ! nat (5 * i + 2)"
  define weight where "weight = V_W (tabs s) ! nat i"
  define wp where "wp = 1 / real_of_int (n * n)"
  define wv where "wv = (real_of_int n - 2) * real_of_int n * wp"
  from ok have b: "0 \<le> i" "5 * i + 2 < int (length (V_ITa (tabs s)))" "i < int (length (V_W (tabs s)))"
    and n1: "1 \<le> n" and ov: "n * n \<le> 2147483647" and h0: "0 \<le> h"
    and hn: "h + 2 * n \<le> int (length (V_IT (tabs s)))"
    and pk: "0 \<le> p" "p < int (length (vbuf s))"
    and src: "\<And>k. 0 \<le> k \<Longrightarrow> k < 2 * n \<Longrightarrow> int (V_IT (tabs s) ! nat (h + k)) < int (length (vbuf s))"
    by (auto simp: vertexBRowOk_def srcOk_def Let_def h_def n_def p_def)
  obtain s0 where c: "Clear_at d t = Inr s0"
    using d t by (simp add: Clear_at_Inr_iff)
  have f0: "frame d t s0" using c by (rule Clear_at_frame)
  obtain s1 where a: "AddWithWeight_at d p (weight * wv) s0 = Inr s1"
    using pk d t f0 by (simp add: AddWithWeight_at_Inr_iff frame_def)
  have f1: "frame d t s1" using f0 AddWithWeight_at_frame [OF a] by (rule frame_trans)
  have "\<exists>t'. vertexPointBStep d h weight wp j u = Inr t'"
    if "0 \<le> j" "j < n" "frame d s1 u" for j u
  proof -
    have fu: "tabs u = tabs s" "length (vbuf u) = length (vbuf s)"
      using that(3) f1 t by (simp_all add: frame_def)
    have k: "0 \<le> j * 2" "j * 2 < 2 * n" "0 \<le> j * 2 + 1" "j * 2 + 1 < 2 * n" using that(1,2) by simp_all
    show ?thesis
      using that(1,2) h0 hn src [OF k(1,2)] src [OF k(3,4)] d fu
      by (intro vertexPointBStep_succeeds) (simp_all add: add.assoc)
  qed
  from forLoop_succeeds [OF vertexPointBStep_frames this, of 0 n s1 0 s1]
  obtain s2 where l: "forLoop (vertexPointBStep d h weight wp) 0 n s1 = Inr s2"
    by (auto simp: frame_refl)
  have f2: "frame d t s2" using f1 forLoop_frame [OF vertexPointBStep_frames l] by (rule frame_trans)
  obtain t' where v: "AddVaryingWithWeight_at d p 1 s2 = Inr t'"
    using pk d t f2 by (simp add: AddVaryingWithWeight_at_Inr_iff frame_def)
  have ts0: "tabs s0 = tabs s" using f0 t by (simp add: frame_def)
  have nn: "n * n \<noteq> 0" using n1 by simp
  have lo: "- 2147483648 \<le> n * n" using zero_le_square [of n] by linarith
  have g: "tbl_get (V_ITa (tabs s0)) (5 * i) = Inr h"
    "tbl_get (V_ITa (tabs s0)) (5 * i + 1) = Inr n"
    "tbl_get (V_ITa (tabs s0)) (5 * i + 2) = Inr p"
    "tbl_get (V_W (tabs s0)) i = Inr weight"
    using b unfolding ts0 by (simp_all add: tbl_get_def h_def n_def p_def weight_def)
  have im: "imul n n = Inr (n * n)" using lo ov by (simp add: imul_def)
  have fd: "fdiv 1 (real_of_int (n * n)) = Inr wp" using nn by (simp add: fdiv_def wp_def)
  have "vertexPointB d i t = Inr t'"
    by (simp only: vertexPointB_def c bnd_Inr g im fd Let_def wv_def [symmetric] a l v)
  then show ?thesis by blast
qed

lemma computeVertexPointsB_value:
  assumes run: "computeVertexPointsB offset tableOffset start en s = Inr s'"
    and row: "start + tableOffset \<le> i" "i < en + tableOffset"
    and h: "h = V_ITa (tabs s) ! nat (5 * i)" and n: "n = V_ITa (tabs s) ! nat (5 * i + 1)"
    and p: "p = V_ITa (tabs s) ! nat (5 * i + 2)" and w: "weight = V_W (tabs s) ! nat i"
    and wp: "wp = 1 / real_of_int (n * n)" and wv: "wv = (real_of_int n - 2) * real_of_int n * wp"
    and out: "\<not> (offset + start \<le> p \<and> p < offset + en)"
      "\<forall>k. 0 \<le> k \<and> k < n * 2 \<longrightarrow>
         \<not> (offset + start \<le> int (V_IT (tabs s) ! nat (h + k)) \<and>
            int (V_IT (tabs s) ! nat (h + k)) < offset + en)"
  shows "primary (vbuf s' ! nat (offset + i - tableOffset)) =
           (weight * wv) *\<^sub>R primary (vbuf s ! nat p) +
           (\<Sum>k\<in>{0..<n * 2}. (weight * wp) *\<^sub>R primary (vbuf s ! (V_IT (tabs s) ! nat (h + k)))) \<and>
         varying (vbuf s' ! nat (offset + i - tableOffset)) = varying (vbuf s ! nat p)"
proof -
  define d where "d = offset + start + (i - (start + tableOffset))"
  have d: "offset + i - tableOffset = d" by (simp add: d_def)
  from kernelLoop_row [OF vertexPointB_frames run [unfolded computeVertexPointsB_def] row]
  obtain t t' where b: "vertexPointB d i t = Inr t'"
    and ag: "agrees (offset + start) d s t"
    and v: "vbuf s' ! nat d = vbuf t' ! nat d"
    unfolding d_def by blast
  have tt: "tabs t = tabs s" using ag by (rule agrees_tabs)
  have dr: "offset + start \<le> d" "d < offset + en" using row by (simp_all add: d_def)
  have ne: "p \<noteq> d" "\<forall>k. 0 \<le> k \<and> k < n * 2 \<longrightarrow> int (V_IT (tabs t) ! nat (h + k)) \<noteq> d"
    using out dr unfolding tt by auto
  note val = vertexPointB_value [OF b h [folded tt] n [folded tt] p [folded tt] w [folded tt] wp wv ne]
  have sp: "vbuf t ! nat p = vbuf s ! nat p"
    using val(3) out(1) dr by (intro agrees_src [OF ag]) auto
  have sk: "vbuf t ! (V_IT (tabs s) ! nat (h + k)) = vbuf s ! (V_IT (tabs s) ! nat (h + k))"
    if "0 \<le> k" "k < n * 2" for k
  proof -
    have "\<not> (offset + start \<le> int (V_IT (tabs s) ! nat (h + k)) \<and> int (V_IT (tabs s) ! nat (h + k)) < d)"
      using out(2) that dr by auto
    from agrees_src [OF ag _ this] show ?thesis by simp
  qed
  have S: "(\<Sum>k\<in>{0..<n * 2}. (weight * wp) *\<^sub>R primary (vbuf t ! (V_IT (tabs t) ! nat (h + k)))) =
           (\<Sum>k\<in>{0..<n * 2}. (weight * wp) *\<^sub>R primary (vbuf s ! (V_IT (tabs s) ! nat (h + k))))"
    by (rule sum.cong) (simp_all add: tt sk)
  show ?thesis
    unfolding d v val(1,2) S sp by simp
qed

lemma computeVertexPointsB_succeeds:
  assumes rows: "\<forall>i. start + tableOffset \<le> i \<and> i < en + tableOffset \<longrightarrow>
                   vertexBRowOk s (offset + start) (offset + en) i"
    and dst: "start < en \<longrightarrow> 0 \<le> offset + start \<and> offset + en \<le> int (length (vbuf s))"
  shows "\<exists>s'. computeVertexPointsB offset tableOffset start en s = Inr s'"
  unfolding computeVertexPointsB_def
proof (rule kernel_succeeds [OF vertexPointB_frames])
  fix i and t :: "'a machine"
  assume row: "start + tableOffset \<le> i" "i < en + tableOffset"
    and t: "tabs t = tabs s" "length (vbuf t) = length (vbuf s)"
  have r: "vertexBRowOk s (offset + start) (offset + en) i" using rows row by simp
  have "start < en" using row by simp
  with dst row have d: "0 \<le> offset + start + (i - (start + tableOffset))"
    "offset + start + (i - (start + tableOffset)) < int (length (vbuf s))" by auto
  show "\<exists>t'. vertexPointB (offset + start + (i - (start + tableOffset))) i t = Inr t'"
    by (rule vertexPointB_succeeds [OF r d t])
qed

text \<open>
  Claim C4. When every row in the range is well formed, \<open>computeVertexPointsB\<close> returns,
  and the record of each vertex-point holds, whatever it held before: with \<open>wp = 1/n^2\<close>
  and \<open>wv = (n-2) * n * wp\<close>, the parent with weight \<open>s * wv\<close> and each of the \<open>2 * n\<close>
  neighbours the index table lists with weight \<open>s * wp\<close>, the stored weight \<open>s\<close> as it
  is; and in the varying attribute the parent. For \<open>n = 4\<close> and \<open>s = 1\<close> that is half the
  parent and a sixteenth of the sum of the eight neighbours.
\<close>

theorem computeVertexPointsB_mask:
  assumes rows: "\<forall>i. start + tableOffset \<le> i \<and> i < en + tableOffset \<longrightarrow>
                   vertexBRowOk s (offset + start) (offset + en) i"
    and dst: "start < en \<longrightarrow> 0 \<le> offset + start \<and> offset + en \<le> int (length (vbuf s))"
  shows "\<exists>s'. computeVertexPointsB offset tableOffset start en s = Inr s' \<and>
    (\<forall>i. start + tableOffset \<le> i \<and> i < en + tableOffset \<longrightarrow>
       (let h = V_ITa (tabs s) ! nat (5 * i); n = V_ITa (tabs s) ! nat (5 * i + 1);
            p = V_ITa (tabs s) ! nat (5 * i + 2); sw = V_W (tabs s) ! nat i;
            wp = 1 / real_of_int (n * n); wv = (real_of_int n - 2) * real_of_int n * wp;
            nb = (\<lambda>k. vbuf s ! (V_IT (tabs s) ! nat (h + k)));
            v = vbuf s' ! nat (offset + i - tableOffset)
        in primary v = (sw * wv) *\<^sub>R primary (vbuf s ! nat p) +
                       (\<Sum>k\<in>{0..<n * 2}. (sw * wp) *\<^sub>R primary (nb k)) \<and>
           varying v = varying (vbuf s ! nat p) \<and>
           (n = 4 \<and> sw = 1 \<longrightarrow>
              primary v = (1 / 2) *\<^sub>R primary (vbuf s ! nat p) +
                          (1 / 16) *\<^sub>R (\<Sum>k\<in>{0..<8}. primary (nb k)))))"
proof -
  from computeVertexPointsB_succeeds [OF rows dst]
  obtain s' where run: "computeVertexPointsB offset tableOffset start en s = Inr s'" by blast
  have "let h = V_ITa (tabs s) ! nat (5 * i); n = V_ITa (tabs s) ! nat (5 * i + 1);
            p = V_ITa (tabs s) ! nat (5 * i + 2); sw = V_W (tabs s) ! nat i;
            wp = 1 / real_of_int (n * n); wv = (real_of_int n - 2) * real_of_int n * wp;
            nb = (\<lambda>k. vbuf s ! (V_IT (tabs s) ! nat (h + k)));
            v = vbuf s' ! nat (offset + i - tableOffset)
        in primary v = (sw * wv) *\<^sub>R primary (vbuf s ! nat p) +
                       (\<Sum>k\<in>{0..<n * 2}. (sw * wp) *\<^sub>R primary (nb k)) \<and>
           varying v = varying (vbuf s ! nat p) \<and>
           (n = 4 \<and> sw = 1 \<longrightarrow>
              primary v = (1 / 2) *\<^sub>R primary (vbuf s ! nat p) +
                          (1 / 16) *\<^sub>R (\<Sum>k\<in>{0..<8}. primary (nb k)))"
    if row: "start + tableOffset \<le> i" "i < en + tableOffset" for i
  proof -
    define h where "h = V_ITa (tabs s) ! nat (5 * i)"
    define n where "n = V_ITa (tabs s) ! nat (5 * i + 1)"
    define p where "p = V_ITa (tabs s) ! nat (5 * i + 2)"
    define sw where "sw = V_W (tabs s) ! nat i"
    define wp where "wp = 1 / real_of_int (n * n)"
    define wv where "wv = (real_of_int n - 2) * real_of_int n * wp"
    define v where "v = vbuf s' ! nat (offset + i - tableOffset)"
    define nb where "nb = (\<lambda>k. vbuf s ! (V_IT (tabs s) ! nat (h + k)))"
    have r: "vertexBRowOk s (offset + start) (offset + en) i" using rows row by simp
    then have out: "\<not> (offset + start \<le> p \<and> p < offset + en)"
      "\<forall>k. 0 \<le> k \<and> k < n * 2 \<longrightarrow>
         \<not> (offset + start \<le> int (V_IT (tabs s) ! nat (h + k)) \<and>
            int (V_IT (tabs s) ! nat (h + k)) < offset + en)"
      unfolding vertexBRowOk_def srcOk_def Let_def h_def n_def p_def
      by (simp_all add: mult.commute)
    from computeVertexPointsB_value [OF run row h_def n_def p_def sw_def wp_def wv_def out]
    have c1: "primary v = (sw * wv) *\<^sub>R primary (vbuf s ! nat p) +
                       (\<Sum>k\<in>{0..<n * 2}. (sw * wp) *\<^sub>R primary (nb k))"
      and c2: "varying v = varying (vbuf s ! nat p)"
      unfolding v_def nb_def by blast+
    have c3: "n = 4 \<and> sw = 1 \<longrightarrow>
              primary v = (1 / 2) *\<^sub>R primary (vbuf s ! nat p) +
                          (1 / 16) *\<^sub>R (\<Sum>k\<in>{0..<8}. primary (nb k))"
    proof (intro impI, elim conjE)
      assume n4: "n = 4" and s1: "sw = 1"
      have wp4: "wp = 1 / 16" and wv4: "wv = 1 / 2" unfolding wv_def wp_def n4 by simp_all
      show "primary v = (1 / 2) *\<^sub>R primary (vbuf s ! nat p) +
                          (1 / 16) *\<^sub>R (\<Sum>k\<in>{0..<8}. primary (nb k))"
        using c1 unfolding n4 s1 wp4 wv4 by (simp add: scaleR_sum_right)
    qed
    show ?thesis
      unfolding Let_def
      using c1 c2 c3 unfolding h_def n_def p_def sw_def wp_def wv_def v_def nb_def
      by (intro conjI)
  qed
  with run show ?thesis by blast
qed

lemma int_lt8_cases:
  "0 \<le> (k::int) \<Longrightarrow> k < 8 \<Longrightarrow> k = 0 \<or> k = 1 \<or> k = 2 \<or> k = 3 \<or> k = 4 \<or> k = 5 \<or> k = 6 \<or> k = 7"
  by arith

lemma sum_int_8: "(\<Sum>j\<in>{0..<8::int}. f j) = f 0 + f 1 + f 2 + f 3 + f 4 + f 5 + f 6 + f 7"
  by (simp add: sum_int_ivl_split add.assoc)

lemma smoothMachine_rowOk: "vertexBRowOk smoothMachine 9 10 0"
proof -
  have "[1, 2, 3, 4, 5, 6, 7, 8::nat] ! nat k < 9" if "0 \<le> k" "k < 8" for k :: int
    using int_lt8_cases [OF that] by fastforce
  then show ?thesis
    by (fastforce simp: vertexBRowOk_def srcOk_def smoothMachine_def smoothTables_def)
qed

theorem computeVertexPointsB_mask_witness:
  "\<exists>s'. computeVertexPointsB 9 0 0 1 smoothMachine = Inr s' \<and>
        primary (vbuf s' ! 9) = 8 \<and> varying (vbuf s' ! 9) = 7"
proof -
  have rows: "\<forall>i. 0 + 0 \<le> i \<and> i < 1 + 0 \<longrightarrow> vertexBRowOk smoothMachine (9 + 0) (9 + 1) i"
    using smoothMachine_rowOk by (simp add: int_lt1)
  have dst: "(0::int) < 1 \<longrightarrow> 0 \<le> (9::int) + 0 \<and> 9 + 1 \<le> int (length (vbuf smoothMachine))"
    by (simp add: smoothMachine_def)
  from computeVertexPointsB_mask [OF rows dst]
  obtain s' where run: "computeVertexPointsB 9 0 0 1 smoothMachine = Inr s'"
    and v: "primary (vbuf s' ! 9) = 8 \<and> varying (vbuf s' ! 9) = 7"
    by (auto simp: int_lt1 smoothMachine_def smoothTables_def Let_def sum_int_8)
  then show ?thesis by blast
qed

lemma vertexPointB_zero_valence:
  assumes "0 \<le> d" "d < int (length (vbuf s))" "0 \<le> i" "5 * i + 2 < int (length (V_ITa (tabs s)))"
    "i < int (length (V_W (tabs s)))" "V_ITa (tabs s) ! nat (5 * i + 1) = 0"
  shows "vertexPointB d i s = Inl DivisionByZero"
  using assms by (simp add: vertexPointB_def Clear_at_def tbl_get_def imul_def fdiv_def)

lemma vertexPointB_sentinel_valence:
  assumes d: "0 \<le> d" "d < int (length (vbuf s))" and i: "0 \<le> i" "5 * i + 2 < int (length (V_ITa (tabs s)))"
    "i < int (length (V_W (tabs s)))" and n: "V_ITa (tabs s) ! nat (5 * i + 1) = - 1"
    and p: "0 \<le> V_ITa (tabs s) ! nat (5 * i + 2)" "V_ITa (tabs s) ! nat (5 * i + 2) < int (length (vbuf s))"
      "V_ITa (tabs s) ! nat (5 * i + 2) \<noteq> d"
  shows "\<exists>s'. vertexPointB d i s = Inr s' \<and>
           primary (vbuf s' ! nat d) =
             (V_W (tabs s) ! nat i * 3) *\<^sub>R primary (vbuf s ! nat (V_ITa (tabs s) ! nat (5 * i + 2)))"
  using assms
  by (simp add: vertexPointB_def Clear_at_def tbl_get_def imul_def fdiv_def forLoop.simps
      AddWithWeight_at_def AddVaryingWithWeight_at_def Clear_def AddWithWeight_def
      AddVaryingWithWeight_def Let_def)

text \<open>
  Claim C9, as amended. \<open>computeVertexPointsB\<close> returns, with the division defined and
  every read in bounds, when every row in its range is well formed: a valence of at
  least 1 whose square fits an \<^verbatim>\<open>int\<close>, and valid indices. Nothing guards the division: a
  row with valence 0 is a division by zero. Nothing tests the sentinels either: the
  crease entries are not read, and a valence of \<open>-1\<close> is taken as a number, which gives
  the parent three times the stored weight.
\<close>

theorem computeVertexPointsB_precondition:
  "((\<forall>i. start + tableOffset \<le> i \<and> i < en + tableOffset \<longrightarrow>
        vertexBRowOk s (offset + start) (offset + en) i) \<and>
    (start < en \<longrightarrow> 0 \<le> offset + start \<and> offset + en \<le> int (length (vbuf s))) \<longrightarrow>
    (\<exists>s'. computeVertexPointsB offset tableOffset start en s = Inr s')) \<and>
   (0 \<le> d \<and> d < int (length (vbuf s)) \<and> 0 \<le> i \<and> 5 * i + 2 < int (length (V_ITa (tabs s))) \<and>
    i < int (length (V_W (tabs s))) \<and> V_ITa (tabs s) ! nat (5 * i + 1) = 0 \<longrightarrow>
    vertexPointB d i s = Inl DivisionByZero) \<and>
   (0 \<le> d \<and> d < int (length (vbuf s)) \<and> 0 \<le> i \<and> 5 * i + 2 < int (length (V_ITa (tabs s))) \<and>
    i < int (length (V_W (tabs s))) \<and> V_ITa (tabs s) ! nat (5 * i + 1) = - 1 \<and>
    0 \<le> V_ITa (tabs s) ! nat (5 * i + 2) \<and> V_ITa (tabs s) ! nat (5 * i + 2) < int (length (vbuf s)) \<and>
    V_ITa (tabs s) ! nat (5 * i + 2) \<noteq> d \<longrightarrow>
    (\<exists>s'. vertexPointB d i s = Inr s' \<and>
           primary (vbuf s' ! nat d) =
             (V_W (tabs s) ! nat i * 3) *\<^sub>R primary (vbuf s ! nat (V_ITa (tabs s) ! nat (5 * i + 2)))))"
  using computeVertexPointsB_succeeds [of start tableOffset en s offset]
    vertexPointB_zero_valence [of d s i] vertexPointB_sentinel_valence [of d s i]
  by blast

theorem computeVertexPointsB_precondition_witness:
  "(\<exists>s'. computeVertexPointsB 9 0 0 1 smoothMachine = Inr s') \<and>
   vertexPointB 1 0 cornerMachine = Inl DivisionByZero \<and>
   (\<exists>s'. vertexPointB 1 0 sentinelMachine = Inr s' \<and> primary (vbuf s' ! 1) = 3 / 2)"
proof -
  have rows: "\<forall>i. 0 + 0 \<le> i \<and> i < 1 + 0 \<longrightarrow> vertexBRowOk smoothMachine (9 + 0) (9 + 1) i"
    using smoothMachine_rowOk by (simp add: int_lt1)
  have dst: "(0::int) < 1 \<longrightarrow> 0 \<le> (9::int) + 0 \<and> 9 + 1 \<le> int (length (vbuf smoothMachine))"
    by (simp add: smoothMachine_def)
  have a: "\<exists>s'. computeVertexPointsB 9 0 0 1 smoothMachine = Inr s'"
    using computeVertexPointsB_precondition [of 0 0 1 smoothMachine 9] rows dst by blast
  have b: "vertexPointB 1 0 cornerMachine = Inl DivisionByZero"
    using computeVertexPointsB_precondition [of _ _ _ cornerMachine _ 1 0]
    by (simp add: cornerMachine_def cornerTables_def)
  have c: "\<exists>s'. vertexPointB 1 0 sentinelMachine = Inr s' \<and> primary (vbuf s' ! 1) = 3 / 2"
    using computeVertexPointsB_precondition [of _ _ _ sentinelMachine _ 1 0]
    by (simp add: sentinelMachine_def smoothTables_def)
  from a b c show ?thesis by blast
qed

text \<open>
  Claim C9 as it is stated fails at valence 65536: the row meets the precondition the
  claim words, and \<^verbatim>\<open>n*n\<close> leaves the range of \<^verbatim>\<open>int\<close> (where the product wraps around it
  is 0, and the division is by zero).
\<close>

theorem computeVertexPointsB_precondition_counterexample:
  "vertexBRowOk_claimed bigValenceMachine 1 2 0 \<and>
   computeVertexPointsB 1 0 0 1 bigValenceMachine = Inl SignedOverflow"
proof
  have r: "replicate 131072 (0::nat) ! nat k = 0" if "0 \<le> k" "k < 131072" for k :: int
  proof -
    have "nat k < 131072" using that by linarith
    then show ?thesis by (rule nth_replicate)
  qed
  show "vertexBRowOk_claimed bigValenceMachine 1 2 0"
    by (simp add: vertexBRowOk_claimed_def srcOk_def bigValenceMachine_def smoothTables_def r)
  show "computeVertexPointsB 1 0 0 1 bigValenceMachine = Inl SignedOverflow"
    by (simp add: computeVertexPointsB_def kernelLoop.simps vertexPointB_def Clear_at_def
        tbl_get_def imul_def bigValenceMachine_def smoothTables_def)
qed

subsection \<open>The frame of the kernels\<close>

lemma kernelLoop_split:
  "kernelLoop body i e d s = Inr s' \<Longrightarrow> i \<le> m \<Longrightarrow> m \<le> e \<Longrightarrow>
     \<exists>t. kernelLoop body i m d s = Inr t \<and> kernelLoop body m e (d + (m - i)) t = Inr s'"
proof (induction "nat (m - i)" arbitrary: i d s)
  case 0
  then have "m = i" by simp
  with 0 show ?case by (simp add: kernelLoop.simps [of body i i d s])
next
  case (Suc k)
  then have lt: "i < m" "i < e" by simp_all
  with Suc.prems(1) obtain u where u: "body d i s = Inr u"
    and r: "kernelLoop body (i + 1) e (d + 1) u = Inr s'"
    by (auto simp: kernelLoop.simps [of body i e d s] split: sum.splits)
  have k: "k = nat (m - (i + 1))" using Suc.hyps(2) by simp
  from lt have le: "i + 1 \<le> m" by simp
  from Suc.hyps(1) [OF k r le Suc.prems(3)]
  obtain t where t: "kernelLoop body (i + 1) m (d + 1) u = Inr t"
    and t': "kernelLoop body m e (d + 1 + (m - (i + 1))) t = Inr s'" by blast
  have eq: "d + 1 + (m - (i + 1)) = d + (m - i)" by simp
  have "kernelLoop body i m d s = Inr t"
    using lt u t by (simp add: kernelLoop.simps [of body i m d s])
  with t' show ?case unfolding eq by blast
qed

lemma kernel_frame:
  assumes fr: "body_frames body"
    and run: "kernelLoop body (start + tableOffset) (en + tableOffset) (offset + start) s = Inr s'"
  shows "writesOnlyDestinations body offset tableOffset start en s s'"
proof -
  have a: "tabs s' = tabs s \<and> length (vbuf s') = length (vbuf s) \<and>
    (\<forall>m. \<not> (offset + start \<le> int m \<and> int m < offset + en) \<longrightarrow> vbuf s' ! m = vbuf s ! m)"
    using kernelLoop_frame [OF fr run] by simp
  have b: "\<exists>t t'. kernelLoop body (start + tableOffset) i (offset + start) s = Inr t \<and>
           body (offset + i - tableOffset) i t = Inr t' \<and>
           kernelLoop body (i + 1) (en + tableOffset) (offset + i - tableOffset + 1) t' = Inr s' \<and>
           0 \<le> offset + i - tableOffset \<and> offset + i - tableOffset < int (length (vbuf s)) \<and>
           vbuf t ! nat (offset + i - tableOffset) = vbuf s ! nat (offset + i - tableOffset) \<and>
           tabs t' = tabs t \<and> length (vbuf t') = length (vbuf t) \<and>
           (\<forall>m. int m \<noteq> offset + i - tableOffset \<longrightarrow> vbuf t' ! m = vbuf t ! m) \<and>
           vbuf s' ! nat (offset + i - tableOffset) = vbuf t' ! nat (offset + i - tableOffset)"
    if row: "start + tableOffset \<le> i" "i < en + tableOffset" for i
  proof -
    define d where "d = offset + i - tableOffset"
    have d: "offset + start + (i - (start + tableOffset)) = d" by (simp add: d_def)
    from row have le: "i \<le> en + tableOffset" by simp
    from kernelLoop_split [OF run row(1) le, unfolded d]
    obtain t where pre: "kernelLoop body (start + tableOffset) i (offset + start) s = Inr t"
      and rest: "kernelLoop body i (en + tableOffset) d t = Inr s'" by blast
    from rest row(2) obtain t' where turn: "body d i t = Inr t'"
      and post: "kernelLoop body (i + 1) (en + tableOffset) (d + 1) t' = Inr s'"
      by (auto simp: kernelLoop.simps [of body i "en + tableOffset" d t] split: sum.splits)
    from fr turn have d0: "0 \<le> d" and dl: "d < int (length (vbuf t))" and f: "frame d t t'"
      unfolding body_frames_def by blast+
    note P = kernelLoop_frame [OF fr pre]
    note Q = kernelLoop_frame [OF fr post]
    have "\<not> (offset + start \<le> int (nat d) \<and> int (nat d) < offset + start + (i - (start + tableOffset)))"
      using d0 by (simp add: d_def)
    with P have before: "vbuf t ! nat d = vbuf s ! nat d" by blast
    have "\<not> (d + 1 \<le> int (nat d) \<and> int (nat d) < d + 1 + (en + tableOffset - (i + 1)))"
      using d0 by simp
    with Q have after: "vbuf s' ! nat d = vbuf t' ! nat d" by blast
    have len: "d < int (length (vbuf s))" using dl P by simp
    from f have "tabs t' = tabs t" "length (vbuf t') = length (vbuf t)"
      "\<forall>m. int m \<noteq> d \<longrightarrow> vbuf t' ! m = vbuf t ! m"
      by (simp_all add: frame_def)
    with pre turn post d0 len before after show ?thesis
      unfolding d_def by blast
  qed
  show ?thesis
    unfolding writesOnlyDestinations_def using a b by blast
qed

text \<open>A run that had left the destination as it was would not have this frame.\<close>

lemma writesOnlyDestinations_changes:
  "\<not> writesOnlyDestinations (vertexPointA True) 3 0 0 1 creaseMachine creaseMachine"
proof
  assume "writesOnlyDestinations (vertexPointA True) 3 0 0 1 creaseMachine creaseMachine"
  then have "\<forall>i. 0 + 0 \<le> i \<and> i < 1 + 0 \<longrightarrow>
      (\<exists>t t'. kernelLoop (vertexPointA True) (0 + 0) i (3 + 0) creaseMachine = Inr t \<and>
           vertexPointA True (3 + i - 0) i t = Inr t' \<and>
           vbuf creaseMachine ! nat (3 + i - 0) = vbuf t' ! nat (3 + i - 0))"
    unfolding writesOnlyDestinations_def by blast
  then have "\<exists>t t'. kernelLoop (vertexPointA True) 0 0 3 creaseMachine = Inr t \<and>
           vertexPointA True 3 0 t = Inr t' \<and> vbuf creaseMachine ! 3 = vbuf t' ! 3"
    by (simp add: int_lt1)
  then show False
    by (simp add: kernelLoop.simps vertexPointA_def kernel_eval creaseMachine_def creaseTables_def)
qed

text \<open>
  Claim C7. Every run of one of the four kernels leaves the seven tables as they were and
  writes only the records at the indices from \<open>offset + start\<close> up to \<open>offset + end - 1\<close>;
  every record outside that range is as it was. Each record of the range is written by
  one turn of the loop, the turn of its row: no turn before it and no turn after it
  changes the record, and that turn changes no other record.
\<close>

theorem kernels_frame:
  "(computeFacePoints offset tableOffset start en s = Inr sF \<longrightarrow>
      writesOnlyDestinations facePoint offset tableOffset start en s sF) \<and>
   (computeEdgePoints offset tableOffset start en s = Inr sE \<longrightarrow>
      writesOnlyDestinations edgePoint offset tableOffset start en s sE) \<and>
   (computeVertexPointsA offset pass tableOffset start en s = Inr sA \<longrightarrow>
      writesOnlyDestinations (vertexPointA pass) offset tableOffset start en s sA) \<and>
   (computeVertexPointsB offset tableOffset start en s = Inr sB \<longrightarrow>
      writesOnlyDestinations vertexPointB offset tableOffset start en s sB)"
proof (intro conjI impI)
  assume "computeFacePoints offset tableOffset start en s = Inr sF"
  then show "writesOnlyDestinations facePoint offset tableOffset start en s sF"
    unfolding computeFacePoints_def by (rule kernel_frame [OF facePoint_frames])
next
  assume "computeEdgePoints offset tableOffset start en s = Inr sE"
  then show "writesOnlyDestinations edgePoint offset tableOffset start en s sE"
    unfolding computeEdgePoints_def by (rule kernel_frame [OF edgePoint_frames])
next
  assume "computeVertexPointsA offset pass tableOffset start en s = Inr sA"
  then show "writesOnlyDestinations (vertexPointA pass) offset tableOffset start en s sA"
    unfolding computeVertexPointsA_def by (rule kernel_frame [OF vertexPointA_frames])
next
  assume "computeVertexPointsB offset tableOffset start en s = Inr sB"
  then show "writesOnlyDestinations vertexPointB offset tableOffset start en s sB"
    unfolding computeVertexPointsB_def by (rule kernel_frame [OF vertexPointB_frames])
qed

lemma quadMachine_rowOk: "faceRowOk quadMachine 4 5 0"
proof -
  have "[0, 1, 2, 3::nat] ! nat j < 4" if "0 \<le> j" "j < 4" for j :: int
    using int_lt4_cases [OF that] by fastforce
  then show ?thesis
    by (fastforce simp: faceRowOk_def quadMachine_def quadTables_def)
qed

lemma edgeMachine_rowOk: "edgeRowOk edgeMachine 4 6 0" "edgeRowOk edgeMachine 4 6 1"
  by (simp_all add: edgeRowOk_def srcOk_def edgeMachine_def edgeTables_def)

lemma creaseMachine_rowOk: "vertexARowOk pass creaseMachine 3 4 0"
  by (simp add: vertexARowOk_def srcOk_def creaseMachine_def creaseTables_def)

theorem kernels_frame_witness:
  "(\<exists>sF. computeFacePoints 4 0 0 1 quadMachine = Inr sF \<and>
          writesOnlyDestinations facePoint 4 0 0 1 quadMachine sF) \<and>
   (\<exists>sE. computeEdgePoints 4 0 0 2 edgeMachine = Inr sE \<and>
          writesOnlyDestinations edgePoint 4 0 0 2 edgeMachine sE) \<and>
   (\<exists>sA. computeVertexPointsA 3 True 0 0 1 creaseMachine = Inr sA \<and>
          writesOnlyDestinations (vertexPointA True) 3 0 0 1 creaseMachine sA) \<and>
   (\<exists>sB. computeVertexPointsB 9 0 0 1 smoothMachine = Inr sB \<and>
          writesOnlyDestinations vertexPointB 9 0 0 1 smoothMachine sB)"
proof -
  have "\<exists>sF. computeFacePoints 4 0 0 1 quadMachine = Inr sF"
    using quadMachine_rowOk
    by (intro computeFacePoints_succeeds) (simp_all add: int_lt1 quadMachine_def)
  then obtain sF where f: "computeFacePoints 4 0 0 1 quadMachine = Inr sF" by blast
  have "\<exists>sE. computeEdgePoints 4 0 0 2 edgeMachine = Inr sE"
  proof (intro computeEdgePoints_succeeds)
    show "\<forall>i. 0 + 0 \<le> i \<and> i < 2 + 0 \<longrightarrow> edgeRowOk edgeMachine (4 + 0) (4 + 2) i"
      using edgeMachine_rowOk int_lt2_cases by fastforce
    show "(0::int) < 2 \<longrightarrow> 0 \<le> (4::int) + 0 \<and> 4 + 2 \<le> int (length (vbuf edgeMachine))"
      by (simp add: edgeMachine_def)
  qed
  then obtain sE where e: "computeEdgePoints 4 0 0 2 edgeMachine = Inr sE" by blast
  have "\<exists>sA. computeVertexPointsA 3 True 0 0 1 creaseMachine = Inr sA"
    using creaseMachine_rowOk [of True]
    by (intro computeVertexPointsA_succeeds) (simp_all add: int_lt1 creaseMachine_def)
  then obtain sA where a: "computeVertexPointsA 3 True 0 0 1 creaseMachine = Inr sA" by blast
  have "\<exists>sB. computeVertexPointsB 9 0 0 1 smoothMachine = Inr sB"
    using smoothMachine_rowOk
    by (intro computeVertexPointsB_succeeds) (simp_all add: int_lt1 smoothMachine_def)
  then obtain sB where b: "computeVertexPointsB 9 0 0 1 smoothMachine = Inr sB" by blast
  show ?thesis
    using kernels_frame [of 4 0 0 1 quadMachine sF _ _ _ _] f
      kernels_frame [of 4 0 0 2 edgeMachine _ sE _ _ _] e
      kernels_frame [of 3 0 0 1 creaseMachine _ _ True sA _] a
      kernels_frame [of 9 0 0 1 smoothMachine _ _ _ _ sB] b
    by blast
qed

subsection \<open>The compute context\<close>

lemma set_table_Inr_iff:
  "set_table k p c = Inr c' \<longleftrightarrow> k < length (tables' c) \<and> c' = c\<lparr>tables' := (tables' c)[k := p]\<rparr>"
  by (auto simp: set_table_def)

lemma newContext_slots:
  assumes "newContext ix st ve = Inr c"
  shows "length (tables' c) = 7 \<and> ix T_F_IT < 7 \<and> ix T_F_ITa < 7 \<and>
         (5 < GetNumTables st \<longrightarrow>
            tables' c ! ix T_F_ITa = Some (NewTable T_F_ITa GL_R32I) \<and>
            (ix T_F_IT \<noteq> ix T_F_ITa \<longrightarrow> tables' c ! ix T_F_IT = Some (NewTable T_F_IT GL_R32UI))) \<and>
         (\<not> 5 < GetNumTables st \<longrightarrow> tables' c ! ix T_F_IT = None \<and> tables' c ! ix T_F_ITa = None)"
  using assms
  by (auto simp: newContext_def bnd_Inr_iff set_table_Inr_iff nth_list_update
      split: if_splits option.splits)

lemma newContext_succeeds:
  assumes "\<forall>t. ix t < 7"
  shows "\<exists>c. newContext ix st ve = Inr c"
  using assms by (simp add: newContext_def set_table_def)

text \<open>
  Claim C8. \<open>GetNumTables\<close> of the Catmull-Clark tables is 7 and \<open>GetScheme\<close> is
  \<open>CATMARK\<close>. The context the constructor makes has seven table slots, whatever tables it
  is given; the slots of the two face tables hold tables when the tables report more than
  five tables, and are null otherwise. The constructor returns when the seven
  enumerators are numbers below 7.
\<close>

theorem newContext_tables:
  "GetNumTables (FarCatmarkSubdivisionTables T) = 7 \<and>
   GetScheme (FarCatmarkSubdivisionTables T) = CATMARK \<and>
   (newContext ix st ve = Inr c \<longrightarrow>
      length (tables' c) = 7 \<and>
      (tables' c ! ix T_F_IT \<noteq> None \<longleftrightarrow> 5 < GetNumTables st) \<and>
      (tables' c ! ix T_F_ITa \<noteq> None \<longleftrightarrow> 5 < GetNumTables st) \<and>
      (5 < GetNumTables st \<and> ix T_F_IT \<noteq> ix T_F_ITa \<longrightarrow>
         tables' c ! ix T_F_IT = Some (NewTable T_F_IT GL_R32UI) \<and>
         tables' c ! ix T_F_ITa = Some (NewTable T_F_ITa GL_R32I))) \<and>
   ((\<forall>t. ix t < 7) \<longrightarrow> (\<exists>c'. newContext ix st ve = Inr c'))"
proof (intro conjI impI)
  assume run: "newContext ix st ve = Inr c"
  note s = newContext_slots [OF run]
  show "length (tables' c) = 7" using s by blast
  show "(tables' c ! ix T_F_IT \<noteq> None) = (5 < GetNumTables st)"
  proof (cases "5 < GetNumTables st")
    case True
    show ?thesis
    proof (cases "ix T_F_IT = ix T_F_ITa")
      case True
      with s \<open>5 < GetNumTables st\<close> show ?thesis by simp
    next
      case False
      with s \<open>5 < GetNumTables st\<close> show ?thesis by simp
    qed
  next
    case False
    with s show ?thesis by simp
  qed
  show "(tables' c ! ix T_F_ITa \<noteq> None) = (5 < GetNumTables st)"
    using s by (cases "5 < GetNumTables st") simp_all
  show "tables' c ! ix T_F_IT = Some (NewTable T_F_IT GL_R32UI)"
    if "5 < GetNumTables st \<and> ix T_F_IT \<noteq> ix T_F_ITa"
    using s that by blast
  show "tables' c ! ix T_F_ITa = Some (NewTable T_F_ITa GL_R32I)"
    if "5 < GetNumTables st \<and> ix T_F_IT \<noteq> ix T_F_ITa"
    using s that by blast
next
  assume "\<forall>t. ix t < 7"
  then show "\<exists>c'. newContext ix st ve = Inr c'" by (rule newContext_succeeds)
qed simp_all

lemma enumIndex_less: "\<forall>t. enumIndex t < 7"
proof
  fix t show "enumIndex t < 7" by (cases t) simp_all
qed

theorem newContext_tables_witness:
  "(\<exists>c. newContext enumIndex (FarCatmarkSubdivisionTables quadTables) (None :: unit list option) = Inr c \<and>
        length (tables' c) = 7 \<and>
        tables' c ! 5 = Some (NewTable T_F_IT GL_R32UI) \<and>
        tables' c ! 6 = Some (NewTable T_F_ITa GL_R32I)) \<and>
   (\<exists>c. newContext enumIndex (FarOtherSubdivisionTables 5 LOOP quadTables) (None :: unit list option) = Inr c \<and>
        length (tables' c) = 7 \<and> tables' c ! 5 = None \<and> tables' c ! 6 = None)"
proof
  let ?st = "FarCatmarkSubdivisionTables quadTables"
  from newContext_tables [of quadTables enumIndex ?st "None :: unit list option"] enumIndex_less
  obtain c where c: "newContext enumIndex ?st (None :: unit list option) = Inr c" by blast
  from newContext_tables [of quadTables enumIndex ?st "None :: unit list option" c] c
  show "\<exists>c. newContext enumIndex ?st (None :: unit list option) = Inr c \<and>
        length (tables' c) = 7 \<and>
        tables' c ! 5 = Some (NewTable T_F_IT GL_R32UI) \<and>
        tables' c ! 6 = Some (NewTable T_F_ITa GL_R32I)"
    by auto
next
  let ?st = "FarOtherSubdivisionTables 5 LOOP quadTables"
  from newContext_tables [of quadTables enumIndex ?st "None :: unit list option"] enumIndex_less
  obtain c where c: "newContext enumIndex ?st (None :: unit list option) = Inr c" by blast
  from newContext_tables [of quadTables enumIndex ?st "None :: unit list option" c] c
  show "\<exists>c. newContext enumIndex ?st (None :: unit list option) = Inr c \<and>
        length (tables' c) = 7 \<and> tables' c ! 5 = None \<and> tables' c ! 6 = None"
    by auto
qed

subsection \<open>Two invocations on one vertex-point\<close>

lemma creaseCornerMachine_first_pass:
  "computeVertexPointsA 3 False 0 0 1 creaseCornerMachine =
     Inr (creaseCornerMachine\<lparr>vbuf := (vbuf creaseCornerMachine)[3 := \<lparr>primary = 6, varying = 80\<rparr>]\<rparr>)"
  by (simp add: computeVertexPointsA_def vertexPointA_def kernel_eval
      creaseCornerMachine_def creaseTables_def)

lemma creaseCornerMachine_second_pass:
  "computeVertexPointsA 3 True 0 0 1
     (creaseCornerMachine\<lparr>vbuf := (vbuf creaseCornerMachine)[3 := \<lparr>primary = 6, varying = 80\<rparr>]\<rparr>) =
     Inr (creaseCornerMachine\<lparr>vbuf := (vbuf creaseCornerMachine)[3 := \<lparr>primary = 9, varying = 160\<rparr>]\<rparr>)"
  by (simp add: computeVertexPointsA_def vertexPointA_def kernel_eval
      creaseCornerMachine_def creaseTables_def)

lemma blendMachine_B:
  "computeVertexPointsB 9 0 0 1 blendMachine =
     Inr (blendMachine\<lparr>vbuf := (vbuf blendMachine)[9 := \<lparr>primary = 2, varying = 7\<rparr>]\<rparr>)"
  by (simp add: computeVertexPointsB_def vertexPointB_def vertexPointBStep_def kernel_eval
      blendMachine_def smoothMachine_def smoothTables_def)

lemma blendMachine_A:
  "computeVertexPointsA 9 True 0 0 1
     (blendMachine\<lparr>vbuf := (vbuf blendMachine)[9 := \<lparr>primary = 2, varying = 7\<rparr>]\<rparr>) =
     Inr (blendMachine\<lparr>vbuf := (vbuf blendMachine)[9 := \<lparr>primary = 253 / 32, varying = 14\<rparr>]\<rparr>)"
  by (simp add: computeVertexPointsA_def vertexPointA_def kernel_eval
      blendMachine_def smoothMachine_def smoothTables_def)

text \<open>
  Claim C2, at inputs where the code departs from it. A vertex-point that gets the two
  passes of kernel A, and one that gets kernel B and then the second pass of kernel A,
  end with twice the varying attribute of the parent: the second pass does not clear the
  record, and adds the parent with weight 1 as every invocation does.
\<close>

theorem vertexPoints_varying_twice:
  "bnd (computeVertexPointsA 3 False 0 0 1 creaseCornerMachine) (computeVertexPointsA 3 True 0 0 1) =
     Inr (creaseCornerMachine\<lparr>vbuf := (vbuf creaseCornerMachine)[3 := \<lparr>primary = 9, varying = 160\<rparr>]\<rparr>) \<and>
   varying (vbuf creaseCornerMachine ! 0) = 80 \<and>
   bnd (computeVertexPointsB 9 0 0 1 blendMachine) (computeVertexPointsA 9 True 0 0 1) =
     Inr (blendMachine\<lparr>vbuf := (vbuf blendMachine)[9 := \<lparr>primary = 253 / 32, varying = 14\<rparr>]\<rparr>) \<and>
   varying (vbuf blendMachine ! 0) = 7"
  by (simp add: creaseCornerMachine_first_pass creaseCornerMachine_second_pass
      blendMachine_B blendMachine_A)
    (simp add: creaseCornerMachine_def blendMachine_def smoothMachine_def)

end
